(* ===== verification/Atarix_Prelude.thy ===== *)
theory Atarix_Prelude
  imports "HOL-Library.Word" "HOL-Library.Monad_Syntax"
begin

text \<open>
  Shared vocabulary of the ATARIX development: the machine integers of the C sources, the model
  of C memory as byte lists with checked accesses, generic lemmas on lists that several
  components need, and the locales that several components
  implement: invariants of stateful components, and directories of handles.

  \<^bold>\<open>Integers.\<close> \<open>uint8_t\<close> \dots \<open>uint64_t\<close> are \<open>8 word\<close> \dots \<open>64 word\<close>, whose arithmetic wraps
  as in C. \<open>size_t\<close> is \<open>nat\<close>: the sources use it for sizes of objects in memory and for loop
  counters, and every subtraction on it is either guarded or written with its wrap-around
  (\<open>size_sub\<close>).

  \<^bold>\<open>Memory.\<close> A pointer to bytes is the list of the bytes it may access; \<open>p + off\<close> is the list
  with the offset. Every access is checked: an access outside the object, undefined behaviour in
  C, is the value \<open>None\<close>. A theorem \<open>f x \<noteq> None\<close> is therefore memory safety of \<open>f\<close> at \<open>x\<close>. A
  pointer that may be \<open>NULL\<close> is a value of an \<open>option\<close> type.
\<close>

unbundle bit_operations_syntax

type_synonym u8 = "8 word"
type_synonym u16 = "16 word"
type_synonym u32 = "32 word"
type_synonym u64 = "64 word"
type_synonym bytes = "8 word list"

named_theorems c_mem
  \<comment> \<open>checked byte accesses rewritten to list operations\<close>

abbreviation UINT32_MAX :: u32 where
  "UINT32_MAX \<equiv> 0xFFFFFFFF"

abbreviation UINT64_MAX :: u64 where
  "UINT64_MAX \<equiv> 0xFFFFFFFFFFFFFFFF"

text \<open>Subtraction on a 64-bit \<open>size_t\<close>, with the wrap-around of C.\<close>

definition size_sub :: "nat \<Rightarrow> nat \<Rightarrow> nat" where
  "size_sub a b = (if b \<le> a then a - b else a + 2 ^ 64 - b)"

lemma size_sub_le [simp]: "b \<le> a \<Longrightarrow> size_sub a b = a - b"
  by (simp add: size_sub_def)

lemma bit_word_beyond: "LENGTH('a::len) \<le> n \<Longrightarrow> \<not> bit (w :: 'a word) n"
  using bit_imp_le_length by (auto simp: not_less [symmetric])

lemma xor_cancel_right [simp]: "a XOR c = b XOR c \<longleftrightarrow> a = (b :: 'a::len word)"
  by (metis xor.assoc xor.right_neutral xor_self_eq)

lemma xor_cancel_left [simp]: "c XOR a = c XOR b \<longleftrightarrow> a = (b :: 'a::len word)"
  by (simp only: xor.commute [of c] xor_cancel_right)

lemma unat_of_nat_small: "n < 2 ^ LENGTH('a::len) \<Longrightarrow> unat (of_nat n :: 'a word) = n"
  by (simp add: unat_of_nat)

lemma unat_add_small: "unat a + unat b < 2 ^ LENGTH('a::len) \<Longrightarrow> unat (a + b :: 'a word) = unat a + unat b"
  by (simp add: unat_word_ariths)

text \<open>A loop counter below its bound does not wrap.\<close>

lemma unat_inc: "(a :: 'a::len word) < b \<Longrightarrow> unat (a + 1) = unat a + 1"
proof -
  assume "a < b"
  then have "unat a < unat b" by (simp add: word_less_nat_alt)
  moreover have "unat b < 2 ^ LENGTH('a)" by (rule unsigned_less)
  ultimately have "unat a + unat (1 :: 'a word) < 2 ^ LENGTH('a)" by (simp only: unat_1)
  from unat_add_small [OF this] show ?thesis by simp
qed

text \<open>A flag test \<open>(w & (1u << n)) != 0\<close> reads one bit.\<close>

lemma and_flag_bit:
  "(w :: u32) AND 1 = 0 \<longleftrightarrow> \<not> bit w 0" "w AND 2 = 0 \<longleftrightarrow> \<not> bit w 1" "w AND 4 = 0 \<longleftrightarrow> \<not> bit w 2"
  "w AND 8 = 0 \<longleftrightarrow> \<not> bit w 3" "w AND 16 = 0 \<longleftrightarrow> \<not> bit w 4" "w AND 32 = 0 \<longleftrightarrow> \<not> bit w 5"
  "w AND 64 = 0 \<longleftrightarrow> \<not> bit w 6" "w AND 128 = 0 \<longleftrightarrow> \<not> bit w 7" "w AND 256 = 0 \<longleftrightarrow> \<not> bit w 8"
  "w AND 512 = 0 \<longleftrightarrow> \<not> bit w 9"
  using and_exp_eq_0_iff_not_bit [of w 0] and_exp_eq_0_iff_not_bit [of w 1]
    and_exp_eq_0_iff_not_bit [of w 2] and_exp_eq_0_iff_not_bit [of w 3]
    and_exp_eq_0_iff_not_bit [of w 4] and_exp_eq_0_iff_not_bit [of w 5]
    and_exp_eq_0_iff_not_bit [of w 6] and_exp_eq_0_iff_not_bit [of w 7]
    and_exp_eq_0_iff_not_bit [of w 8] and_exp_eq_0_iff_not_bit [of w 9]
  by simp_all

section \<open>C memory\<close>

definition load8 :: "bytes \<Rightarrow> nat \<Rightarrow> u8 option" where
  "load8 p i = (if i < length p then Some (p ! i) else None)"

definition store8 :: "bytes \<Rightarrow> nat \<Rightarrow> u8 \<Rightarrow> bytes option" where
  "store8 p i b = (if i < length p then Some (p[i := b]) else None)"

text \<open>\<open>overwrite p off bs\<close> is \<open>p\<close> with the bytes from \<open>off\<close> on overwritten by \<open>bs\<close>.\<close>

definition overwrite :: "'a list \<Rightarrow> nat \<Rightarrow> 'a list \<Rightarrow> 'a list" where
  "overwrite p off bs = take off p @ bs @ drop (off + length bs) p"

text \<open>\<open>memset(p + off, v, n)\<close> and \<open>memcpy(p + off, src, n)\<close>.\<close>

definition memset_at :: "bytes \<Rightarrow> nat \<Rightarrow> u8 \<Rightarrow> nat \<Rightarrow> bytes option" where
  "memset_at p off v n =
     (if off + n \<le> length p then Some (overwrite p off (replicate n v)) else None)"

definition memcpy_at :: "bytes \<Rightarrow> nat \<Rightarrow> bytes \<Rightarrow> nat \<Rightarrow> bytes option" where
  "memcpy_at p off src n =
     (if off + n \<le> length p \<and> n \<le> length src then Some (overwrite p off (take n src)) else None)"

lemma load8_eq [c_mem]: "i < length p \<Longrightarrow> load8 p i = Some (p ! i)"
  by (simp add: load8_def)

lemma load8_eq_None [simp]: "load8 p i = None \<longleftrightarrow> length p \<le> i"
  by (auto simp: load8_def)

lemma store8_eq [c_mem]: "i < length p \<Longrightarrow> store8 p i b = Some (p[i := b])"
  by (simp add: store8_def)

lemma memset_at_eq [c_mem]:
  "off + n \<le> length p \<Longrightarrow> memset_at p off v n = Some (overwrite p off (replicate n v))"
  by (simp add: memset_at_def)

lemma memcpy_at_eq [c_mem]:
  "\<lbrakk>off + n \<le> length p; n \<le> length src\<rbrakk>
    \<Longrightarrow> memcpy_at p off src n = Some (overwrite p off (take n src))"
  by (simp add: memcpy_at_def)

section \<open>Overwriting a window of a list\<close>

lemma length_overwrite [simp]:
  "off + length bs \<le> length p \<Longrightarrow> length (overwrite p off bs) = length p"
  by (simp add: overwrite_def)

lemma overwrite_Nil [simp]: "overwrite p off [] = p"
  by (simp add: overwrite_def)

lemma overwrite_0_append: "overwrite p 0 bs = bs @ drop (length bs) p"
  by (simp add: overwrite_def)

lemma nth_overwrite:
  assumes "off + length bs \<le> length p" "i < length p"
  shows "overwrite p off bs ! i =
    (if off \<le> i \<and> i < off + length bs then bs ! (i - off) else p ! i)"
  using assms by (auto simp: overwrite_def nth_append min_def)

lemma overwrite_eq_nthI:
  assumes "length q = length p" "off + length bs \<le> length p"
    and "\<And>i. i < length p \<Longrightarrow>
      q ! i = (if off \<le> i \<and> i < off + length bs then bs ! (i - off) else p ! i)"
  shows "q = overwrite p off bs"
  using assms by (intro nth_equalityI) (auto simp: nth_overwrite)

lemma list_update_overwrite: "i < length p \<Longrightarrow> p[i := b] = overwrite p i [b]"
  by (simp add: overwrite_def upd_conv_take_nth_drop)

text \<open>Two adjacent windows are one.\<close>

lemma overwrite_adjacent:
  assumes "off + length a + length b \<le> length p"
  shows "overwrite (overwrite p off a) (off + length a) b = overwrite p off (a @ b)"
  using assms by (intro overwrite_eq_nthI) (auto simp: nth_overwrite nth_append)

text \<open>A window inside the one written before.\<close>

lemma overwrite_inside:
  assumes "off + length a \<le> length p" "off \<le> o2" "o2 + length b \<le> off + length a"
  shows "overwrite (overwrite p off a) o2 b = overwrite p off (overwrite a (o2 - off) b)"
  using assms by (intro overwrite_eq_nthI) (auto simp: nth_overwrite)

text \<open>Reading a window back: the one just written, and one that does not meet it.\<close>

lemma window_overwrite_same:
  assumes "off + length bs \<le> length p" "length bs = n"
  shows "take n (drop off (overwrite p off bs)) = bs"
  using assms by (simp add: overwrite_def)

lemma window_overwrite_disjoint:
  assumes "off + length bs \<le> length p" "o2 + n \<le> off \<or> off + length bs \<le> o2"
  shows "take n (drop o2 (overwrite p off bs)) = take n (drop o2 p)"
proof (rule nth_equalityI)
  show "length (take n (drop o2 (overwrite p off bs))) = length (take n (drop o2 p))"
    using assms by simp
next
  fix i
  assume "i < length (take n (drop o2 (overwrite p off bs)))"
  then show "take n (drop o2 (overwrite p off bs)) ! i = take n (drop o2 p) ! i"
    using assms by (auto simp: nth_overwrite)
qed

lemma take_overwrite_below: "\<lbrakk>n \<le> off; off + length bs \<le> length p\<rbrakk>
    \<Longrightarrow> take n (overwrite p off bs) = take n p"
  by (simp add: overwrite_def)

lemma take_overwrite_within:
  assumes "off + length bs \<le> n" "n \<le> length p"
  shows "take n (overwrite p off bs) = overwrite (take n p) off bs"
  using assms by (intro overwrite_eq_nthI) (auto simp: nth_overwrite)

lemma overwrite_append_left:
  assumes "off + length bs \<le> length a"
  shows "overwrite (a @ b) off bs = overwrite a off bs @ b"
  using assms by (simp add: overwrite_def)

section \<open>Arrays of structs\<close>

text \<open>
  The sources keep tables as an array and a count, and search them with one loop:
  \<open>for (i = 0; i < count; ++i) if (a[i].key == k)\<close>. The outer \<open>None\<close> is an access outside the
  array, the inner one a search that finds nothing.
\<close>

function array_scan :: "('e \<Rightarrow> 'k) \<Rightarrow> 'e list \<Rightarrow> nat \<Rightarrow> 'k \<Rightarrow> nat \<Rightarrow> nat option option" where
  "array_scan key a count k i =
     (if i < count
      then if i < length a
           then if key (a ! i) = k then Some (Some i) else array_scan key a count k (i + 1)
           else None
      else Some None)"
  by pat_completeness auto
termination
  by (relation "measure (\<lambda>(key, a, count, k, i). count - i)") auto

declare array_scan.simps [simp del]

definition array_store :: "'e list \<Rightarrow> nat \<Rightarrow> 'e \<Rightarrow> 'e list option" where
  "array_store a i e = (if i < length a then Some (a[i := e]) else None)"

lemma array_store_eq [c_mem]: "i < length a \<Longrightarrow> array_store a i e = Some (a[i := e])"
  by (simp add: array_store_def)

lemma array_scan_safe: "count \<le> length a \<Longrightarrow> array_scan key a count k i \<noteq> None"
  by (induction key a count k i rule: array_scan.induct) (subst array_scan.simps, auto)

lemma array_scan_found:
  "array_scan key a count k i = Some (Some j) \<Longrightarrow>
     i \<le> j \<and> j < count \<and> j < length a \<and> key (a ! j) = k"
proof (induction key a count k i rule: array_scan.induct)
  case (1 key a count k i)
  then show ?case
    by (subst (asm) (2) array_scan.simps) (auto split: if_splits dest: Suc_leD)
qed

lemma array_scan_first:
  "array_scan key a count k i = Some (Some j) \<Longrightarrow> i \<le> m \<Longrightarrow> m < j \<Longrightarrow> key (a ! m) \<noteq> k"
proof (induction key a count k i rule: array_scan.induct)
  case (1 key a count k i)
  then show ?case
    by (subst (asm) (2) array_scan.simps) (cases "m = i", auto split: if_splits)
qed

lemma array_scan_missing:
  "array_scan key a count k i = Some None \<Longrightarrow> i \<le> m \<Longrightarrow> m < count \<Longrightarrow> key (a ! m) \<noteq> k"
proof (induction key a count k i rule: array_scan.induct)
  case (1 key a count k i)
  then show ?case
    by (subst (asm) (2) array_scan.simps) (cases "m = i", auto split: if_splits)
qed

text \<open>The interface of such a table: what a search from the start answers.\<close>

lemma array_scan_0_cases:
  assumes "count \<le> length a"
  obtains (found) j where "array_scan key a count k 0 = Some (Some j)" "j < count"
      "key (a ! j) = k" "k \<in> key ` set (take count a)"
  | (missing) "array_scan key a count k 0 = Some None" "k \<notin> key ` set (take count a)"
proof (cases "array_scan key a count k 0")
  case None
  with array_scan_safe [OF assms, of key k 0] show ?thesis by simp
next
  case (Some r)
  show ?thesis
  proof (cases r)
    case None
    with Some have "k \<notin> key ` set (take count a)"
      using array_scan_missing [of key a count k 0] by (fastforce simp: in_set_conv_nth)
    with Some None missing show ?thesis by simp
  next
    case (Some j)
    with \<open>array_scan key a count k 0 = Some r\<close> have "j < count" "j < length a" "key (a ! j) = k"
      by (auto dest: array_scan_found)
    moreover from this have "k \<in> key ` set (take count a)"
      by (auto simp: in_set_conv_nth intro!: image_eqI [of _ _ "a ! j"] exI [of _ j])
    ultimately show ?thesis
      using found \<open>array_scan key a count k 0 = Some r\<close> Some by blast
  qed
qed

text \<open>The first index of an entry that satisfies a predicate.\<close>

definition find_index :: "('e \<Rightarrow> bool) \<Rightarrow> 'e list \<Rightarrow> nat option" where
  "find_index P xs =
     (if \<exists>x \<in> set xs. P x then Some (length (takeWhile (\<lambda>x. \<not> P x) xs)) else None)"

lemma find_index_Some:
  assumes "find_index P xs = Some i"
  shows "i < length xs" "P (xs ! i)" "\<forall>j < i. \<not> P (xs ! j)"
proof -
  from assms have i: "i = length (takeWhile (\<lambda>x. \<not> P x) xs)" and ex: "\<exists>x \<in> set xs. P x"
    by (auto simp: find_index_def split: if_splits)
  from ex have "takeWhile (\<lambda>x. \<not> P x) xs \<noteq> xs"
    by (metis (mono_tags, lifting) set_takeWhileD)
  then show lt: "i < length xs"
    unfolding i by (metis length_takeWhile_le linorder_neqE_nat not_le takeWhile_eq_take take_all_iff)
  then show "P (xs ! i)"
    using nth_length_takeWhile [of "\<lambda>x. \<not> P x" xs] by (simp add: i)
  show "\<forall>j < i. \<not> P (xs ! j)"
    unfolding i by (metis (mono_tags, lifting) nth_mem set_takeWhileD takeWhile_nth)
qed

lemma find_index_None: "find_index P xs = None \<longleftrightarrow> (\<forall>j < length xs. \<not> P (xs ! j))"
  by (metis find_index_def in_set_conv_nth option.distinct(1))

lemma array_scan_find:
  assumes "count \<le> length a"
  shows "array_scan key a count k 0 = Some (find_index (\<lambda>e. key e = k) (take count a))"
proof -
  consider (found) j where "array_scan key a count k 0 = Some (Some j)" "j < count" "key (a ! j) = k"
      "k \<in> key ` set (take count a)"
    | (missing) "array_scan key a count k 0 = Some None" "k \<notin> key ` set (take count a)"
    using array_scan_0_cases [OF assms, of key k] by metis
  then show ?thesis
  proof cases
    case (found j)
    have "takeWhile (\<lambda>x. key x \<noteq> k) (take count a) = take j (take count a)"
      using found array_scan_first [OF found(1)] assms
      by (intro takeWhile_eq_take_P_nth) auto
    with found assms show ?thesis by (auto simp: find_index_def)
  next
    case missing
    then show ?thesis by (auto simp: find_index_def)
  qed
qed

section \<open>Invariants of stateful components\<close>

text \<open>
  A component with a step relation: an invariant that holds at the start and is kept by every
  step holds in every state reached.
\<close>

locale step_system =
  fixes start :: "'s \<Rightarrow> bool"
    and step :: "'s \<Rightarrow> 's \<Rightarrow> bool"
    and inv :: "'s \<Rightarrow> bool"
  assumes inv_start: "start s \<Longrightarrow> inv s"
    and inv_step: "inv s \<Longrightarrow> step s t \<Longrightarrow> inv t"
begin

lemma inv_steps: "step\<^sup>*\<^sup>* s t \<Longrightarrow> inv s \<Longrightarrow> inv t"
  by (induction rule: rtranclp_induct) (auto intro: inv_step)

lemma inv_reached: "start s \<Longrightarrow> step\<^sup>*\<^sup>* s t \<Longrightarrow> inv t"
  by (blast intro: inv_start inv_steps)

end

text \<open>
  A component driven by a sequence of calls, and the abstract operation each call implements. A run
  returns what each call returned and the last state; it is \<open>None\<close> as soon as one call accesses memory
  outside its objects. The abstract operations always return.
\<close>

fun run_calls :: "('a \<Rightarrow> 's \<Rightarrow> ('o \<times> 's) option) \<Rightarrow> 'a list \<Rightarrow> 's \<Rightarrow> ('o list \<times> 's) option" where
  "run_calls call [] s = Some ([], s)"
| "run_calls call (a # as) s = do {
     (r, s) \<leftarrow> call a s;
     (rs, s) \<leftarrow> run_calls call as s;
     Some (r # rs, s)
   }"

fun run_spec :: "('a \<Rightarrow> 't \<Rightarrow> 'o \<times> 't) \<Rightarrow> 'a list \<Rightarrow> 't \<Rightarrow> 'o list \<times> 't" where
  "run_spec spec [] t = ([], t)"
| "run_spec spec (a # as) t =
     (case spec a t of (r, t) \<Rightarrow> (case run_spec spec as t of (rs, t) \<Rightarrow> (r # rs, t)))"

text \<open>
  If every admissible call returns what the abstract operation returns and keeps the relation, so does
  every sequence of them.
\<close>

locale call_refinement =
  fixes admissible :: "'a \<Rightarrow> bool"
    and call :: "'a \<Rightarrow> 's \<Rightarrow> ('o \<times> 's) option"
    and spec :: "'a \<Rightarrow> 't \<Rightarrow> 'o \<times> 't"
    and rel :: "'t \<Rightarrow> 's \<Rightarrow> bool"
  assumes rel_call: "admissible a \<Longrightarrow> rel t s \<Longrightarrow> spec a t = (r, t') \<Longrightarrow>
    \<exists>s'. call a s = Some (r, s') \<and> rel t' s'"
begin

lemma rel_calls:
  "list_all admissible as \<Longrightarrow> rel t s \<Longrightarrow> run_spec spec as t = (rs, t') \<Longrightarrow>
    \<exists>s'. run_calls call as s = Some (rs, s') \<and> rel t' s'"
proof (induction "as" arbitrary: t s rs)
  case (Cons a as)
  obtain r t1 where one: "spec a t = (r, t1)" by (cases "spec a t")
  obtain rs' where rest: "run_spec spec as t1 = (rs', t')" "rs = r # rs'"
    using Cons.prems(3) one by (auto split: prod.splits)
  obtain s1 where s1: "call a s = Some (r, s1)" "rel t1 s1"
    using rel_call [OF _ Cons.prems(2) one] Cons.prems(1) by auto
  from Cons.IH [OF _ s1(2) rest(1)] Cons.prems(1) s1(1) rest(2) show ?case by auto
qed simp

end

section \<open>Directories of handles\<close>

text \<open>
  A directory of handles: a state, the handles it holds and a membership test. An insertion that
  respects the directory adds exactly its key, and only if the key is new.
\<close>

locale handle_directory =
  fixes invar :: "'s \<Rightarrow> bool"
    and handles :: "'s \<Rightarrow> 'h list"
    and contains :: "'s \<Rightarrow> 'h \<Rightarrow> bool option"
  assumes contains_eq: "invar s \<Longrightarrow> contains s h = Some (h \<in> set (handles s))"

locale handle_insertion = handle_directory invar handles contains
  for invar :: "'s \<Rightarrow> bool" and handles :: "'s \<Rightarrow> 'h list" and contains +
  fixes insert_entry :: "'e \<Rightarrow> 's \<Rightarrow> 'r \<times> 's"
    and key :: "'e \<Rightarrow> 'h"
    and ok :: 'r
  assumes insert_keeps: "invar s \<Longrightarrow> invar (snd (insert_entry e s))"
    and insert_ok: "invar s \<Longrightarrow> fst (insert_entry e s) = ok \<Longrightarrow>
      contains s (key e) = Some False \<and>
      (\<exists>xs ys. handles s = xs @ ys \<and> handles (snd (insert_entry e s)) = xs @ key e # ys)"
    and insert_fail: "invar s \<Longrightarrow> fst (insert_entry e s) \<noteq> ok \<Longrightarrow> snd (insert_entry e s) = s"
begin

lemma insert_new: "invar s \<Longrightarrow> fst (insert_entry e s) = ok \<Longrightarrow> key e \<notin> set (handles s)"
  using insert_ok [of s e] by (auto simp: contains_eq)

lemma insert_set:
  "invar s \<Longrightarrow> fst (insert_entry e s) = ok \<Longrightarrow>
    set (handles (snd (insert_entry e s))) = insert (key e) (set (handles s))"
  using insert_ok [of s e] by auto

lemma insert_contains:
  "invar s \<Longrightarrow> fst (insert_entry e s) = ok \<Longrightarrow> contains (snd (insert_entry e s)) (key e) = Some True"
  by (simp add: contains_eq insert_keeps insert_set)

lemma insert_distinct:
  assumes "invar s" "distinct (handles s)"
  shows "distinct (handles (snd (insert_entry e s)))"
proof (cases "fst (insert_entry e s) = ok")
  case True
  with assms insert_new [of s e] insert_ok [of s e] show ?thesis by auto
next
  case False
  with assms insert_fail [of s e] show ?thesis by simp
qed

text \<open>A second insertion under the same key is refused and changes nothing.\<close>

lemma insert_twice:
  assumes "invar s" "fst (insert_entry e s) = ok" "key e' = key e"
  shows "fst (insert_entry e' (snd (insert_entry e s))) \<noteq> ok \<and>
    snd (insert_entry e' (snd (insert_entry e s))) = snd (insert_entry e s)"
proof -
  let ?t = "snd (insert_entry e s)"
  have t: "invar ?t" using assms by (simp add: insert_keeps)
  have "key e' \<in> set (handles ?t)" using assms by (simp add: insert_set)
  then have "fst (insert_entry e' ?t) \<noteq> ok" using insert_new [OF t] by blast
  with insert_fail [OF t] show ?thesis by blast
qed

end

end
