(* ===== verification/Ring_Model.thy ===== *)
theory Ring_Model
  imports Atarix_Prelude
begin

text \<open>
  The ring model: \<open>include/atarix/rings.h\<close> (ring numbers and their wire encoding),
  \<open>include/atarix/ring.h\<close> and \<open>src/ring/ring.c\<close> (the access decision). A value of a C enum may be
  any integer of its type and the code checks the range itself, so rings and ring operations are
  \<open>int\<close>, and the range checks are part of the model.

  The locale \<open>ring_gate\<close> states what a component that admits requests between rings promises:
  requests never go to a more privileged ring, a quarantined ring requests nothing, and chaining
  admitted requests gains nothing. It is interpreted here on \<open>atarix_ring_can_access\<close> and in
  the mailbox on \<open>atarix_mailbox_ring_authorize\<close>.
\<close>

section \<open>Rings and their wire encoding\<close>

type_synonym atarix_ring = int

abbreviation ATARIX_RING_SUPERVISOR :: atarix_ring where "ATARIX_RING_SUPERVISOR \<equiv> -2"
abbreviation ATARIX_RING_FABRIC :: atarix_ring where "ATARIX_RING_FABRIC \<equiv> -1"
abbreviation ATARIX_RING_KERNEL :: atarix_ring where "ATARIX_RING_KERNEL \<equiv> 0"
abbreviation ATARIX_RING_DRIVER :: atarix_ring where "ATARIX_RING_DRIVER \<equiv> 1"
abbreviation ATARIX_RING_SERVICE :: atarix_ring where "ATARIX_RING_SERVICE \<equiv> 2"
abbreviation ATARIX_RING_APPLICATION :: atarix_ring where "ATARIX_RING_APPLICATION \<equiv> 3"
abbreviation ATARIX_RING_QUARANTINE :: atarix_ring where "ATARIX_RING_QUARANTINE \<equiv> 4"

abbreviation ATARIX_RING_WIRE_SUPERVISOR :: u16 where "ATARIX_RING_WIRE_SUPERVISOR \<equiv> 0xFFFE"
abbreviation ATARIX_RING_WIRE_FABRIC :: u16 where "ATARIX_RING_WIRE_FABRIC \<equiv> 0xFFFF"
abbreviation ATARIX_RING_WIRE_KERNEL :: u16 where "ATARIX_RING_WIRE_KERNEL \<equiv> 0x0000"
abbreviation ATARIX_RING_WIRE_DRIVER :: u16 where "ATARIX_RING_WIRE_DRIVER \<equiv> 0x0001"
abbreviation ATARIX_RING_WIRE_SERVICE :: u16 where "ATARIX_RING_WIRE_SERVICE \<equiv> 0x0002"
abbreviation ATARIX_RING_WIRE_APPLICATION :: u16 where "ATARIX_RING_WIRE_APPLICATION \<equiv> 0x0003"
abbreviation ATARIX_RING_WIRE_QUARANTINE :: u16 where "ATARIX_RING_WIRE_QUARANTINE \<equiv> 0x0004"

definition atarix_ring_to_wire :: "atarix_ring \<Rightarrow> u16" where
  "atarix_ring_to_wire ring =
     (if ring = ATARIX_RING_SUPERVISOR then ATARIX_RING_WIRE_SUPERVISOR
      else if ring = ATARIX_RING_FABRIC then ATARIX_RING_WIRE_FABRIC
      else if ring = ATARIX_RING_KERNEL then ATARIX_RING_WIRE_KERNEL
      else if ring = ATARIX_RING_DRIVER then ATARIX_RING_WIRE_DRIVER
      else if ring = ATARIX_RING_SERVICE then ATARIX_RING_WIRE_SERVICE
      else if ring = ATARIX_RING_APPLICATION then ATARIX_RING_WIRE_APPLICATION
      else if ring = ATARIX_RING_QUARANTINE then ATARIX_RING_WIRE_QUARANTINE
      else ATARIX_RING_WIRE_APPLICATION)"

section \<open>The access decision\<close>

type_synonym atarix_ring_operation = int

abbreviation ATARIX_RING_OPERATION_OBSERVE :: atarix_ring_operation where
  "ATARIX_RING_OPERATION_OBSERVE \<equiv> 0"
abbreviation ATARIX_RING_OPERATION_REQUEST :: atarix_ring_operation where
  "ATARIX_RING_OPERATION_REQUEST \<equiv> 1"
abbreviation ATARIX_RING_OPERATION_MANAGE :: atarix_ring_operation where
  "ATARIX_RING_OPERATION_MANAGE \<equiv> 2"
abbreviation ATARIX_RING_OPERATION_QUARANTINE :: atarix_ring_operation where
  "ATARIX_RING_OPERATION_QUARANTINE \<equiv> 3"
abbreviation ATARIX_RING_OPERATION_RECOVER :: atarix_ring_operation where
  "ATARIX_RING_OPERATION_RECOVER \<equiv> 4"

datatype atarix_ring_status =
    ATARIX_RING_STATUS_ALLOW
  | ATARIX_RING_STATUS_DENY
  | ATARIX_RING_STATUS_INVALID_RING
  | ATARIX_RING_STATUS_INVALID_OPERATION

definition atarix_ring_is_valid :: "atarix_ring \<Rightarrow> bool" where
  "atarix_ring_is_valid ring \<longleftrightarrow>
     ring \<ge> ATARIX_RING_SUPERVISOR \<and> ring \<le> ATARIX_RING_QUARANTINE"

definition atarix_ring_operation_is_valid :: "atarix_ring_operation \<Rightarrow> bool" where
  "atarix_ring_operation_is_valid operation \<longleftrightarrow>
     operation \<ge> ATARIX_RING_OPERATION_OBSERVE \<and> operation \<le> ATARIX_RING_OPERATION_RECOVER"

definition atarix_ring_can_access ::
  "atarix_ring \<Rightarrow> atarix_ring \<Rightarrow> atarix_ring_operation \<Rightarrow> atarix_ring_status" where
  "atarix_ring_can_access requester target operation =
     (if \<not> atarix_ring_is_valid requester \<or> \<not> atarix_ring_is_valid target
      then ATARIX_RING_STATUS_INVALID_RING
      else if \<not> atarix_ring_operation_is_valid operation
      then ATARIX_RING_STATUS_INVALID_OPERATION
      else if requester = ATARIX_RING_QUARANTINE then ATARIX_RING_STATUS_DENY
      else if target = ATARIX_RING_QUARANTINE
      then (if requester = ATARIX_RING_SUPERVISOR
            then ATARIX_RING_STATUS_ALLOW else ATARIX_RING_STATUS_DENY)
      else if requester = target then ATARIX_RING_STATUS_ALLOW
      else if requester > target then ATARIX_RING_STATUS_DENY
      else if operation = ATARIX_RING_OPERATION_MANAGE \<or>
              operation = ATARIX_RING_OPERATION_QUARANTINE \<or>
              operation = ATARIX_RING_OPERATION_RECOVER
      then (if requester = ATARIX_RING_SUPERVISOR
            then ATARIX_RING_STATUS_ALLOW else ATARIX_RING_STATUS_DENY)
      else ATARIX_RING_STATUS_ALLOW)"

lemmas ring_defs =
  atarix_ring_can_access_def atarix_ring_is_valid_def atarix_ring_operation_is_valid_def

section \<open>The interface of a ring gate\<close>

locale ring_gate =
  fixes gate :: "atarix_ring \<Rightarrow> atarix_ring \<Rightarrow> bool"
  assumes gate_down: "gate r t \<Longrightarrow> r \<le> t"
    and gate_quarantine: "\<not> gate ATARIX_RING_QUARANTINE t"
    and gate_into_quarantine: "gate r ATARIX_RING_QUARANTINE \<Longrightarrow> r = ATARIX_RING_SUPERVISOR"
    and gate_trans: "gate r t \<Longrightarrow> gate t u \<Longrightarrow> gate r u"
begin

text \<open>A chain of admitted requests reaches only what one request may reach.\<close>

lemma chain_gate: "gate\<^sup>+\<^sup>+ r t \<Longrightarrow> gate r t"
  by (induction rule: tranclp_induct) (auto intro: gate_trans)

lemma chain_down: "gate\<^sup>*\<^sup>* r t \<Longrightarrow> r \<le> t"
  by (auto dest!: rtranclpD chain_gate gate_down)

lemma quarantine_contained: "gate\<^sup>*\<^sup>* ATARIX_RING_QUARANTINE t \<Longrightarrow> t = ATARIX_RING_QUARANTINE"
  by (auto dest!: rtranclpD chain_gate simp: gate_quarantine)

lemma chain_into_quarantine:
  "gate\<^sup>+\<^sup>+ r ATARIX_RING_QUARANTINE \<Longrightarrow> r = ATARIX_RING_SUPERVISOR"
  by (auto dest: chain_gate gate_into_quarantine)

end

abbreviation ring_admits :: "atarix_ring_operation \<Rightarrow> atarix_ring \<Rightarrow> atarix_ring \<Rightarrow> bool" where
  "ring_admits operation r t \<equiv> atarix_ring_can_access r t operation = ATARIX_RING_STATUS_ALLOW"

interpretation access: ring_gate "ring_admits operation" for operation
  by unfold_locales (auto simp: ring_defs split: if_splits)

section \<open>Lemmas\<close>

lemma ring_valid_cases:
  assumes "atarix_ring_is_valid r"
  shows "r \<in> {-2, -1, 0, 1, 2, 3, 4}"
  using assms by (auto simp: atarix_ring_is_valid_def)

lemma ring_to_wire_valid: "atarix_ring_is_valid r \<Longrightarrow> atarix_ring_to_wire r = word_of_int r"
  by (drule ring_valid_cases) (auto simp: atarix_ring_to_wire_def)

lemma ring_to_wire_inj:
  "\<lbrakk>atarix_ring_is_valid r; atarix_ring_is_valid s; atarix_ring_to_wire r = atarix_ring_to_wire s\<rbrakk>
    \<Longrightarrow> r = s"
  by (drule ring_valid_cases, drule ring_valid_cases) (auto simp: atarix_ring_to_wire_def)

lemma ring_to_wire_range:
  "atarix_ring_to_wire r \<in> {0xFFFE, 0xFFFF, 0, 1, 2, 3, 4}"
  by (simp add: atarix_ring_to_wire_def)

lemma ring_can_access_allow_iff:
  "atarix_ring_can_access r t operation = ATARIX_RING_STATUS_ALLOW \<longleftrightarrow>
     atarix_ring_is_valid r \<and> atarix_ring_is_valid t \<and> atarix_ring_operation_is_valid operation \<and>
     (r = ATARIX_RING_SUPERVISOR \<or>
      r \<noteq> ATARIX_RING_QUARANTINE \<and> t \<noteq> ATARIX_RING_QUARANTINE \<and>
      (r = t \<or> r < t \<and> operation \<in> {ATARIX_RING_OPERATION_OBSERVE, ATARIX_RING_OPERATION_REQUEST}))"
  by (auto simp: ring_defs)


section \<open>Properties\<close>

text \<open>
  C9. The access decision, completely: a request is allowed exactly when both rings and the operation
  are valid and either the requester is the supervisor, or neither ring is quarantine and the target is
  the requester's own ring or a less privileged one that is only observed or asked. Chaining allowed
  accesses of one operation gains nothing: it never reaches a more privileged ring, reaches quarantine
  only from the supervisor, and leads nowhere from quarantine.
\<close>

theorem ring_access_exact:
  "(atarix_ring_can_access r t operation = ATARIX_RING_STATUS_ALLOW \<longleftrightarrow>
     atarix_ring_is_valid r \<and> atarix_ring_is_valid t \<and> atarix_ring_operation_is_valid operation \<and>
     (r = ATARIX_RING_SUPERVISOR \<or>
      r \<noteq> ATARIX_RING_QUARANTINE \<and> t \<noteq> ATARIX_RING_QUARANTINE \<and>
      (r = t \<or> r < t \<and> operation \<in> {ATARIX_RING_OPERATION_OBSERVE, ATARIX_RING_OPERATION_REQUEST}))) \<and>
   ((ring_admits operation)\<^sup>+\<^sup>+ r t \<longrightarrow>
     ring_admits operation r t \<and> r \<le> t \<and> r \<noteq> ATARIX_RING_QUARANTINE \<and>
     (t = ATARIX_RING_QUARANTINE \<longrightarrow> r = ATARIX_RING_SUPERVISOR))"
proof (intro conjI impI)
  assume "(ring_admits operation)\<^sup>+\<^sup>+ r t"
  then have g: "ring_admits operation r t" by (rule access.chain_gate)
  then show "ring_admits operation r t" .
  from g show "r \<le> t" by (rule access.gate_down)
  from g show "r \<noteq> ATARIX_RING_QUARANTINE" using access.gate_quarantine by blast
  assume "t = ATARIX_RING_QUARANTINE"
  with g show "r = ATARIX_RING_SUPERVISOR" using access.gate_into_quarantine by blast
qed (rule ring_can_access_allow_iff)

theorem ring_access_exact_witness:
  "ring_admits ATARIX_RING_OPERATION_REQUEST ATARIX_RING_FABRIC ATARIX_RING_APPLICATION"
proof -
  have "(ring_admits ATARIX_RING_OPERATION_REQUEST)\<^sup>+\<^sup>+ ATARIX_RING_FABRIC ATARIX_RING_APPLICATION"
    by (rule tranclp.trancl_into_trancl [OF tranclp.r_into_trancl [of _ _ ATARIX_RING_KERNEL]])
       (simp_all add: ring_defs)
  then show ?thesis
    using ring_access_exact [of ATARIX_RING_FABRIC ATARIX_RING_APPLICATION ATARIX_RING_OPERATION_REQUEST]
    by blast
qed

text \<open>
  C38. The wire encoding of the rings is the 16-bit two's complement of the ring number and is
  injective on the valid rings, with \<open>atarix_ring_is_valid\<close> deciding which rings those are; every
  other ring number is sent as APPLICATION.
\<close>

theorem ring_wire_encoding:
  "(atarix_ring_is_valid r \<longrightarrow> atarix_ring_to_wire r = word_of_int r) \<and>
   (atarix_ring_is_valid r \<and> atarix_ring_is_valid s \<and> atarix_ring_to_wire r = atarix_ring_to_wire s
     \<longrightarrow> r = s) \<and>
   (\<not> atarix_ring_is_valid r \<longrightarrow> atarix_ring_to_wire r = ATARIX_RING_WIRE_APPLICATION)"
proof -
  have "atarix_ring_to_wire r = ATARIX_RING_WIRE_APPLICATION" if "\<not> atarix_ring_is_valid r"
    using that by (auto simp: atarix_ring_to_wire_def atarix_ring_is_valid_def)
  then show ?thesis using ring_to_wire_valid ring_to_wire_inj by blast
qed

theorem ring_wire_encoding_witness:
  "atarix_ring_to_wire ATARIX_RING_SUPERVISOR = 0xFFFE"
  using ring_wire_encoding [of ATARIX_RING_SUPERVISOR ATARIX_RING_SUPERVISOR]
  by (simp add: atarix_ring_is_valid_def)

end
