(* ===== verification/Le_Bytes.thy ===== *)
theory Le_Bytes
  imports Atarix_Prelude
begin

text \<open>
  Little-endian integers in byte buffers: the static helpers \<open>write_le16/32/64\<close> of
  \<open>src/bib/bib_builder.c\<close> and \<open>read_le16/32/64\<close> of \<open>src/bib/bib_reader.c\<close>. The discovery code
  reads the same layout through packed structs on a little-endian host; its field accesses are
  the same reads.

  The locale \<open>le_codec\<close> is the interface the formats rely on: a fixed width, writes that change
  exactly their window, reads that see exactly theirs, and decoding as the inverse of encoding.
  It is interpreted on the three widths of the sources.
\<close>

section \<open>The helpers of the sources\<close>

definition write_le16 :: "bytes \<Rightarrow> nat \<Rightarrow> u16 \<Rightarrow> bytes option" where
  "write_le16 p off value = do {
     p \<leftarrow> store8 p (off + 0) (ucast value);
     store8 p (off + 1) (ucast (drop_bit 8 value))
   }"

definition write_le32 :: "bytes \<Rightarrow> nat \<Rightarrow> u32 \<Rightarrow> bytes option" where
  "write_le32 p off value = do {
     p \<leftarrow> store8 p (off + 0) (ucast value);
     p \<leftarrow> store8 p (off + 1) (ucast (drop_bit 8 value));
     p \<leftarrow> store8 p (off + 2) (ucast (drop_bit 16 value));
     store8 p (off + 3) (ucast (drop_bit 24 value))
   }"

definition write_le64 :: "bytes \<Rightarrow> nat \<Rightarrow> u64 \<Rightarrow> bytes option" where
  "write_le64 p off value = do {
     p \<leftarrow> write_le32 p off (ucast value);
     write_le32 p (off + 4) (ucast (drop_bit 32 value))
   }"

definition read_le16 :: "bytes \<Rightarrow> nat \<Rightarrow> u16 option" where
  "read_le16 p off = do {
     b0 \<leftarrow> load8 p (off + 0);
     b1 \<leftarrow> load8 p (off + 1);
     Some (ucast b0 OR push_bit 8 (ucast b1))
   }"

definition read_le32 :: "bytes \<Rightarrow> nat \<Rightarrow> u32 option" where
  "read_le32 p off = do {
     b0 \<leftarrow> load8 p (off + 0);
     b1 \<leftarrow> load8 p (off + 1);
     b2 \<leftarrow> load8 p (off + 2);
     b3 \<leftarrow> load8 p (off + 3);
     Some (ucast b0 OR push_bit 8 (ucast b1) OR push_bit 16 (ucast b2) OR push_bit 24 (ucast b3))
   }"

definition read_le64 :: "bytes \<Rightarrow> nat \<Rightarrow> u64 option" where
  "read_le64 p off = do {
     lo \<leftarrow> read_le32 p off;
     hi \<leftarrow> read_le32 p (off + 4);
     Some (ucast lo OR push_bit 32 (ucast hi))
   }"

section \<open>The values as byte strings\<close>

definition le16_bytes :: "u16 \<Rightarrow> bytes" where
  "le16_bytes v = [ucast v, ucast (drop_bit 8 v)]"

definition le32_bytes :: "u32 \<Rightarrow> bytes" where
  "le32_bytes v =
     [ucast v, ucast (drop_bit 8 v), ucast (drop_bit 16 v), ucast (drop_bit 24 v)]"

definition le64_bytes :: "u64 \<Rightarrow> bytes" where
  "le64_bytes v = le32_bytes (ucast v) @ le32_bytes (ucast (drop_bit 32 v))"

definition le16_val :: "bytes \<Rightarrow> u16" where
  "le16_val bs = ucast (bs ! 0) OR push_bit 8 (ucast (bs ! 1))"

definition le32_val :: "bytes \<Rightarrow> u32" where
  "le32_val bs =
     ucast (bs ! 0) OR push_bit 8 (ucast (bs ! 1)) OR
     push_bit 16 (ucast (bs ! 2)) OR push_bit 24 (ucast (bs ! 3))"

definition le64_val :: "bytes \<Rightarrow> u64" where
  "le64_val bs = ucast (le32_val bs) OR push_bit 32 (ucast (le32_val (drop 4 bs)))"

lemma length_le_bytes [simp]:
  "length (le16_bytes v) = 2" "length (le32_bytes w) = 4" "length (le64_bytes x) = 8"
  by (simp_all add: le16_bytes_def le32_bytes_def le64_bytes_def)

section \<open>The interface of a fixed-width field\<close>

locale le_codec =
  fixes width :: nat
    and enc :: "'w \<Rightarrow> bytes"
    and dec :: "bytes \<Rightarrow> 'w"
    and wr :: "bytes \<Rightarrow> nat \<Rightarrow> 'w \<Rightarrow> bytes option"
    and rd :: "bytes \<Rightarrow> nat \<Rightarrow> 'w option"
  assumes enc_length: "length (enc v) = width"
    and dec_enc: "dec (enc v) = v"
    and enc_dec: "length bs = width \<Longrightarrow> enc (dec bs) = bs"
    and wr_in: "off + width \<le> length p \<Longrightarrow> wr p off v = Some (overwrite p off (enc v))"
    and wr_out: "length p < off + width \<Longrightarrow> wr p off v = None"
    and rd_in: "off + width \<le> length p \<Longrightarrow> rd p off = Some (dec (take width (drop off p)))"
    and rd_out: "length p < off + width \<Longrightarrow> rd p off = None"
begin

lemma rd_eq_None_iff: "rd p off = None \<longleftrightarrow> length p < off + width"
  using rd_in [of off p] rd_out [of p off] by (cases "off + width \<le> length p") auto

lemma rd_overwrite_same:
  "off + width \<le> length p \<Longrightarrow> rd (overwrite p off (enc v)) off = Some v"
  by (simp add: rd_in enc_length window_overwrite_same dec_enc)

lemma rd_overwrite_disjoint:
  assumes "off + length bs \<le> length p" "o2 + width \<le> off \<or> off + length bs \<le> o2"
  shows "rd (overwrite p off bs) o2 = rd p o2"
proof (cases "o2 + width \<le> length p")
  case True
  then show ?thesis
    using assms by (simp add: rd_in window_overwrite_disjoint)
next
  case False
  then show ?thesis
    using assms by (simp add: rd_out)
qed

lemma rd_after_wr:
  "wr p off v = Some q \<Longrightarrow> rd q off = Some v"
  using wr_in [of off p v] wr_out [of p off v]
  by (cases "off + width \<le> length p") (auto simp: rd_overwrite_same)

lemma rd_after_wr_disjoint:
  assumes "wr p off v = Some q" "o2 + width \<le> off \<or> off + width \<le> o2"
  shows "rd q o2 = rd p o2"
proof (cases "off + width \<le> length p")
  case True
  then show ?thesis
    using assms by (auto simp: wr_in enc_length intro!: rd_overwrite_disjoint)
next
  case False
  then show ?thesis
    using assms by (simp add: wr_out)
qed

lemma rd_append_skip: "length a = n \<Longrightarrow> rd (a @ b) (n + off) = rd b off"
  by (cases "off + width \<le> length b") (simp_all add: rd_in rd_out)

lemma rd_append_front: "off + width \<le> length a \<Longrightarrow> rd (a @ b) off = rd a off"
  by (simp add: rd_in)

lemma rd_enc_append: "rd (enc v @ b) 0 = Some v"
  by (simp add: rd_in enc_length dec_enc)

lemma rd_take:
  assumes "off + width \<le> n"
  shows "n \<le> length p \<Longrightarrow> rd (take n p) off = rd p off"
  using assms rd_append_front [of off "take n p" "drop n p"] by simp

lemma rd_field:
  assumes "off + width \<le> length p" "take width (drop off p) = enc v"
  shows "rd p off = Some v"
  using assms by (simp add: rd_in dec_enc)

lemma rd_SomeD: "rd p off = Some v \<Longrightarrow> off + width \<le> length p \<and> take width (drop off p) = enc v"
  using rd_out [of p off] rd_in [of off p] enc_dec [of "take width (drop off p)"]
  by (cases "off + width \<le> length p") auto

end

section \<open>The three widths implement it\<close>

lemma list_of_length_2: "length xs = 2 \<Longrightarrow> xs = [xs ! 0, xs ! 1]"
  by (auto simp: length_Suc_conv numeral_eq_Suc)

lemma list_of_length_4: "length xs = 4 \<Longrightarrow> xs = [xs ! 0, xs ! 1, xs ! 2, xs ! 3]"
  by (auto simp: length_Suc_conv numeral_eq_Suc)

lemma le16_val_bytes: "le16_val (le16_bytes v) = v"
  by (rule bit_word_eqI) (auto simp: le16_val_def le16_bytes_def bit_simps)

lemma le32_val_bytes: "le32_val (le32_bytes v) = v"
proof (rule bit_word_eqI)
  fix n :: nat
  assume "n < LENGTH(32)"
  then show "bit (le32_val (le32_bytes v)) n \<longleftrightarrow> bit v n"
    by (cases "n < 8"; cases "n < 16"; cases "n < 24") (auto simp: le32_val_def le32_bytes_def bit_simps)
qed

lemma le16_bytes_val: "length bs = 2 \<Longrightarrow> le16_bytes (le16_val bs) = bs"
proof -
  assume "length bs = 2"
  then have bs: "bs = [bs ! 0, bs ! 1]" by (rule list_of_length_2)
  have "le16_bytes (le16_val bs) = [bs ! 0, bs ! 1]"
    by (auto simp: le16_val_def le16_bytes_def bit_simps bit_word_beyond intro!: bit_word_eqI)
  with bs show ?thesis by simp
qed

lemma le32_bytes_val: "length bs = 4 \<Longrightarrow> le32_bytes (le32_val bs) = bs"
proof -
  assume "length bs = 4"
  then have bs: "bs = [bs ! 0, bs ! 1, bs ! 2, bs ! 3]" by (rule list_of_length_4)
  have "le32_bytes (le32_val bs) = [bs ! 0, bs ! 1, bs ! 2, bs ! 3]"
    by (auto simp: le32_val_def le32_bytes_def bit_simps bit_word_beyond intro!: bit_word_eqI)
  with bs show ?thesis by simp
qed

lemma le32_val_append: "length a = 4 \<Longrightarrow> le32_val (a @ b) = le32_val a"
  by (simp add: le32_val_def nth_append)

lemma le64_val_bytes: "le64_val (le64_bytes v) = v"
  by (rule bit_word_eqI)
     (auto simp: le64_val_def le64_bytes_def le32_val_append le32_val_bytes bit_simps)

lemma le64_bytes_val:
  assumes "length bs = 8"
  shows "le64_bytes (le64_val bs) = bs"
proof -
  have lo: "ucast (le64_val bs) = le32_val bs"
    and hi: "ucast (drop_bit 32 (le64_val bs)) = le32_val (drop 4 bs)"
    by (auto simp: le64_val_def bit_simps bit_word_beyond intro!: bit_word_eqI)
  have "le32_val bs = le32_val (take 4 bs)"
    using le32_val_append [of "take 4 bs" "drop 4 bs"] assms by simp
  then have "le64_bytes (le64_val bs) = take 4 bs @ drop 4 bs"
    using assms by (simp only: le64_bytes_def lo hi) (simp add: le32_bytes_val)
  then show ?thesis by simp
qed

lemma write_le16_in:
  "off + 2 \<le> length p \<Longrightarrow> write_le16 p off v = Some (overwrite p off (le16_bytes v))"
  using overwrite_adjacent [of off "[ucast v]" "[ucast (drop_bit 8 v)]" p]
  by (simp add: write_le16_def c_mem list_update_overwrite le16_bytes_def)

lemma write_le32_in:
  assumes "off + 4 \<le> length p"
  shows "write_le32 p off v = Some (overwrite p off (le32_bytes v))"
  using assms
    overwrite_adjacent [of off "[ucast v]" "[ucast (drop_bit 8 v)]" p]
    overwrite_adjacent [of off "[ucast v, ucast (drop_bit 8 v)]" "[ucast (drop_bit 16 v)]" p]
    overwrite_adjacent [of off "[ucast v, ucast (drop_bit 8 v), ucast (drop_bit 16 v)]"
        "[ucast (drop_bit 24 v)]" p]
  by (simp add: write_le32_def c_mem list_update_overwrite le32_bytes_def numeral_eq_Suc)

lemma write_le64_in:
  "off + 8 \<le> length p \<Longrightarrow> write_le64 p off v = Some (overwrite p off (le64_bytes v))"
  using overwrite_adjacent
    [of off "le32_bytes (ucast v)" "le32_bytes (ucast (drop_bit 32 v))" p]
  by (simp add: write_le64_def write_le32_in le64_bytes_def)

lemma write_le16_out: "length p < off + 2 \<Longrightarrow> write_le16 p off v = None"
  by (auto simp: write_le16_def store8_def bind_eq_None_conv split: if_splits)

lemma write_le32_out: "length p < off + 4 \<Longrightarrow> write_le32 p off v = None"
  by (auto simp: write_le32_def store8_def bind_eq_None_conv split: if_splits)

lemma write_le64_out: "length p < off + 8 \<Longrightarrow> write_le64 p off v = None"
  by (cases "off + 4 \<le> length p")
     (simp_all add: write_le64_def write_le32_in write_le32_out)

lemma read_le16_in:
  "off + 2 \<le> length p \<Longrightarrow> read_le16 p off = Some (le16_val (take 2 (drop off p)))"
  by (simp add: read_le16_def c_mem le16_val_def)

lemma read_le32_in:
  "off + 4 \<le> length p \<Longrightarrow> read_le32 p off = Some (le32_val (take 4 (drop off p)))"
  by (simp add: read_le32_def c_mem le32_val_def)

lemma read_le16_out: "length p < off + 2 \<Longrightarrow> read_le16 p off = None"
  by (auto simp: read_le16_def load8_def bind_eq_None_conv split: if_splits)

lemma read_le32_out: "length p < off + 4 \<Longrightarrow> read_le32 p off = None"
  by (auto simp: read_le32_def load8_def bind_eq_None_conv split: if_splits)

lemma read_le64_in:
  assumes "off + 8 \<le> length p"
  shows "read_le64 p off = Some (le64_val (take 8 (drop off p)))"
proof -
  have "le32_val (take 8 (drop off p)) = le32_val (take 4 (drop off p))"
    using le32_val_append [of "take 4 (drop off p)" "take 4 (drop (off + 4) p)"] assms
    by (simp add: take_add [of 4 4, simplified] add.commute)
  moreover have "drop 4 (take 8 (drop off p)) = take 4 (drop (off + 4) p)"
    by (simp add: drop_take add.commute)
  ultimately show ?thesis
    using assms by (simp add: read_le64_def read_le32_in le64_val_def)
qed

lemma read_le64_out: "length p < off + 8 \<Longrightarrow> read_le64 p off = None"
  by (cases "off + 4 \<le> length p")
     (simp_all add: read_le64_def read_le32_in read_le32_out)

interpretation le16: le_codec 2 le16_bytes le16_val write_le16 read_le16
  by unfold_locales
     (simp_all add: le16_val_bytes le16_bytes_val write_le16_in write_le16_out
       read_le16_in read_le16_out)

interpretation le32: le_codec 4 le32_bytes le32_val write_le32 read_le32
  by unfold_locales
     (simp_all add: le32_val_bytes le32_bytes_val write_le32_in write_le32_out
       read_le32_in read_le32_out)

interpretation le64: le_codec 8 le64_bytes le64_val write_le64 read_le64
  by unfold_locales
     (simp_all add: le64_val_bytes le64_bytes_val write_le64_in write_le64_out
       read_le64_in read_le64_out)

lemmas write_le_in [c_mem] = write_le16_in write_le32_in write_le64_in
lemmas read_le_in = le16.rd_in le32.rd_in le64.rd_in
lemmas read_le_None = le16.rd_eq_None_iff le32.rd_eq_None_iff le64.rd_eq_None_iff
lemmas read_le_disjoint =
  le16.rd_overwrite_disjoint le32.rd_overwrite_disjoint le64.rd_overwrite_disjoint
lemmas read_le_same = le16.rd_overwrite_same le32.rd_overwrite_same le64.rd_overwrite_same
lemmas read_le_skip = le16.rd_append_skip le32.rd_append_skip le64.rd_append_skip
lemmas read_le_front = le16.rd_append_front le32.rd_append_front le64.rd_append_front

text \<open>The number stored at an offset, for specifications.\<close>

definition u16_at :: "bytes \<Rightarrow> nat \<Rightarrow> u16" where
  "u16_at p off = le16_val (take 2 (drop off p))"

definition u32_at :: "bytes \<Rightarrow> nat \<Rightarrow> u32" where
  "u32_at p off = le32_val (take 4 (drop off p))"

definition u64_at :: "bytes \<Rightarrow> nat \<Rightarrow> u64" where
  "u64_at p off = le64_val (take 8 (drop off p))"

lemma fields_at:
  "off + 2 \<le> length p \<Longrightarrow> read_le16 p off = Some (u16_at p off)"
  "off + 4 \<le> length p \<Longrightarrow> read_le32 p off = Some (u32_at p off)"
  "off + 8 \<le> length p \<Longrightarrow> read_le64 p off = Some (u64_at p off)"
  by (simp_all add: read_le_in u16_at_def u32_at_def u64_at_def)

end
