(* ===== verification/Packed_Struct.thy ===== *)
theory Packed_Struct
  imports Le_Bytes
begin

text \<open>
  Packed structs. The headers of \<open>include/atarix\<close> describe binary layouts with
  \<open>#pragma pack(1)\<close> structs and check them with \<open>_Static_assert\<close>. A layout is the list of the
  struct's fields with their sizes, in order; \<open>offset_of\<close> and \<open>size_of\<close> are \<open>offsetof\<close> and
  \<open>sizeof\<close>. Reading a field through a struct pointer into a byte image, on a little-endian host,
  is a little-endian read at the field's offset.
\<close>

type_synonym layout = "(string \<times> nat) list"

fun offset_of :: "layout \<Rightarrow> string \<Rightarrow> nat" where
  "offset_of [] f = 0"
| "offset_of ((g, n) # L) f = (if g = f then 0 else n + offset_of L f)"

definition size_of :: "layout \<Rightarrow> nat" where
  "size_of L = sum_list (map snd L)"

definition field16 :: "layout \<Rightarrow> bytes \<Rightarrow> nat \<Rightarrow> string \<Rightarrow> u16 option" where
  "field16 L p base f = read_le16 p (base + offset_of L f)"

definition field32 :: "layout \<Rightarrow> bytes \<Rightarrow> nat \<Rightarrow> string \<Rightarrow> u32 option" where
  "field32 L p base f = read_le32 p (base + offset_of L f)"

definition field64 :: "layout \<Rightarrow> bytes \<Rightarrow> nat \<Rightarrow> string \<Rightarrow> u64 option" where
  "field64 L p base f = read_le64 p (base + offset_of L f)"

definition set_field16 :: "layout \<Rightarrow> bytes \<Rightarrow> nat \<Rightarrow> string \<Rightarrow> u16 \<Rightarrow> bytes option" where
  "set_field16 L p base f v = write_le16 p (base + offset_of L f) v"

definition set_field32 :: "layout \<Rightarrow> bytes \<Rightarrow> nat \<Rightarrow> string \<Rightarrow> u32 \<Rightarrow> bytes option" where
  "set_field32 L p base f v = write_le32 p (base + offset_of L f) v"

definition set_field64 :: "layout \<Rightarrow> bytes \<Rightarrow> nat \<Rightarrow> string \<Rightarrow> u64 \<Rightarrow> bytes option" where
  "set_field64 L p base f v = write_le64 p (base + offset_of L f) v"

lemmas field_defs = field16_def field32_def field64_def
lemmas set_field_defs = set_field16_def set_field32_def set_field64_def

text \<open>\<open>(offset \<and> 7) == 0\<close> on sizes.\<close>

lemma nat_and_7: "(n :: nat) AND 7 = n mod 8"
proof -
  have "n AND 7 = take_bit 3 n"
    by (simp add: take_bit_eq_mask mask_eq_exp_minus_1)
  then show ?thesis by (simp add: take_bit_eq_mod)
qed

end
