(* ===== verification/Discovery_Format.thy ===== *)
theory Discovery_Format
  imports Packed_Struct
begin

text \<open>
  The discovery image format, \<open>include/atarix/discovery.h\<close>: constants, record layouts, handles and
  the small predicates, and the result codes of \<open>include/atarix/discovery_parser.h\<close>.
\<close>

section \<open>Constants\<close>

abbreviation ATARIX_DISCOVERY_MAGIC_ATDX :: u32 where
  "ATARIX_DISCOVERY_MAGIC_ATDX \<equiv> 0x58445441"
abbreviation ATARIX_DISCOVERY_VERSION_MAJOR_V1 :: u16 where
  "ATARIX_DISCOVERY_VERSION_MAJOR_V1 \<equiv> 1"
abbreviation ATARIX_DISCOVERY_VERSION_MINOR_V0 :: u16 where
  "ATARIX_DISCOVERY_VERSION_MINOR_V0 \<equiv> 0"
abbreviation ATARIX_DISCOVERY_HEADER_SIZE_V1 :: nat where
  "ATARIX_DISCOVERY_HEADER_SIZE_V1 \<equiv> 32"
abbreviation ATARIX_DISCOVERY_RECORD_HEADER_SIZE_V1 :: nat where
  "ATARIX_DISCOVERY_RECORD_HEADER_SIZE_V1 \<equiv> 8"

text \<open>Header flags, as the list of their names from bit 0 up, and dependency types.\<close>

definition atarix_discovery_header_flags :: "string list" where
  "atarix_discovery_header_flags =
     [''BOOT_REQUIRED'', ''RUNTIME_PROVIDER'', ''INSTRUMENTED'', ''CPU_RESOURCE_PROVIDER'',
      ''HOTPLUG_CAPABLE'', ''EXPERIMENTAL'']"

definition atarix_discovery_dependency_type :: "(string \<times> u16) list" where
  "atarix_discovery_dependency_type =
     [(''UNSPECIFIED'', 0), (''REQUIRES'', 1), (''OPTIONAL'', 2), (''CONFLICTS'', 3)]"

abbreviation ATARIX_DISCOVERY_RECORD_RESERVED :: u16 where
  "ATARIX_DISCOVERY_RECORD_RESERVED \<equiv> 0x0000"
abbreviation ATARIX_DISCOVERY_RECORD_RESOURCE :: u16 where
  "ATARIX_DISCOVERY_RECORD_RESOURCE \<equiv> 0x0001"
abbreviation ATARIX_DISCOVERY_RECORD_SERVICE :: u16 where
  "ATARIX_DISCOVERY_RECORD_SERVICE \<equiv> 0x0002"
abbreviation ATARIX_DISCOVERY_RECORD_PROVIDER :: u16 where
  "ATARIX_DISCOVERY_RECORD_PROVIDER \<equiv> 0x0003"
abbreviation ATARIX_DISCOVERY_RECORD_DEPENDENCY :: u16 where
  "ATARIX_DISCOVERY_RECORD_DEPENDENCY \<equiv> 0x0004"
abbreviation ATARIX_DISCOVERY_RECORD_INSTRUMENTATION :: u16 where
  "ATARIX_DISCOVERY_RECORD_INSTRUMENTATION \<equiv> 0x0005"
abbreviation ATARIX_DISCOVERY_RECORD_VENDOR_BEGIN :: u16 where
  "ATARIX_DISCOVERY_RECORD_VENDOR_BEGIN \<equiv> 0x8000"
abbreviation ATARIX_DISCOVERY_RECORD_VENDOR_END :: u16 where
  "ATARIX_DISCOVERY_RECORD_VENDOR_END \<equiv> 0xFFFE"
abbreviation ATARIX_DISCOVERY_RECORD_END :: u16 where
  "ATARIX_DISCOVERY_RECORD_END \<equiv> 0xFFFF"

datatype atarix_discovery_result =
    ATARIX_DISCOVERY_OK
  | ATARIX_DISCOVERY_ERROR_NULL
  | ATARIX_DISCOVERY_ERROR_TOO_SMALL
  | ATARIX_DISCOVERY_ERROR_BAD_MAGIC
  | ATARIX_DISCOVERY_ERROR_UNSUPPORTED_VERSION
  | ATARIX_DISCOVERY_ERROR_BAD_LENGTH
  | ATARIX_DISCOVERY_ERROR_BAD_ALIGNMENT
  | ATARIX_DISCOVERY_ERROR_TRUNCATED_RECORD
  | ATARIX_DISCOVERY_ERROR_MISSING_END
  | ATARIX_DISCOVERY_ERROR_DUPLICATE_HANDLE
  | ATARIX_DISCOVERY_ERROR_CAPACITY
  | ATARIX_DISCOVERY_ERROR_BAD_CRC

section \<open>Layouts\<close>

definition atarix_discovery_header_v1 :: layout where
  "atarix_discovery_header_v1 =
     [(''magic'', 4), (''version_major'', 2), (''version_minor'', 2), (''total_length'', 4),
      (''record_count'', 4), (''provider_id'', 4), (''flags'', 4), (''header_crc32'', 4),
      (''image_crc32'', 4)]"

definition atarix_discovery_record_header_v1 :: layout where
  "atarix_discovery_record_header_v1 = [(''type'', 2), (''version'', 2), (''length'', 4)]"

definition atarix_discovery_resource_record_v1 :: layout where
  "atarix_discovery_resource_record_v1 =
     [(''header'', 8), (''resource_type_id'', 2), (''resource_version'', 2),
      (''resource_flags'', 4), (''resource_handle'', 8), (''provider_id'', 4),
      (''instance_id'', 4)]"

definition atarix_discovery_service_record_v1 :: layout where
  "atarix_discovery_service_record_v1 =
     [(''header'', 8), (''service_id'', 2), (''service_version'', 2), (''service_flags'', 4),
      (''service_handle'', 8), (''provider_id'', 4), (''instance_id'', 4)]"

definition atarix_discovery_provider_record_fixed_v1 :: layout where
  "atarix_discovery_provider_record_fixed_v1 =
     [(''header'', 8), (''provider_id'', 4), (''provider_version'', 4), (''provider_flags'', 4),
      (''name_length'', 4)]"

definition atarix_discovery_dependency_record_v1 :: layout where
  "atarix_discovery_dependency_record_v1 =
     [(''header'', 8), (''consumer_handle'', 8), (''provider_handle'', 8),
      (''dependency_type'', 2), (''dependency_version'', 2), (''dependency_flags'', 4)]"

definition atarix_discovery_instrumentation_record_v1 :: layout where
  "atarix_discovery_instrumentation_record_v1 =
     [(''header'', 8), (''instrumentation_type'', 2), (''instrumentation_version'', 2),
      (''instrumentation_flags'', 4), (''instrumentation_handle'', 8), (''observed_handle'', 8)]"

lemmas discovery_layouts =
  atarix_discovery_header_v1_def atarix_discovery_record_header_v1_def
  atarix_discovery_resource_record_v1_def atarix_discovery_service_record_v1_def
  atarix_discovery_dependency_record_v1_def atarix_discovery_instrumentation_record_v1_def
  atarix_discovery_provider_record_fixed_v1_def

lemma discovery_header_offsets [simp]:
  "offset_of atarix_discovery_header_v1 ''magic'' = 0"
  "offset_of atarix_discovery_header_v1 ''version_major'' = 4"
  "offset_of atarix_discovery_header_v1 ''version_minor'' = 6"
  "offset_of atarix_discovery_header_v1 ''total_length'' = 8"
  "offset_of atarix_discovery_header_v1 ''record_count'' = 12"
  "offset_of atarix_discovery_header_v1 ''provider_id'' = 16"
  "offset_of atarix_discovery_header_v1 ''flags'' = 20"
  "offset_of atarix_discovery_header_v1 ''header_crc32'' = 24"
  "offset_of atarix_discovery_header_v1 ''image_crc32'' = 28"
  by (simp_all add: discovery_layouts)

lemma discovery_record_offsets [simp]:
  "offset_of atarix_discovery_record_header_v1 ''type'' = 0"
  "offset_of atarix_discovery_record_header_v1 ''version'' = 2"
  "offset_of atarix_discovery_record_header_v1 ''length'' = 4"
  by (simp_all add: discovery_layouts)

lemma discovery_body_offsets [simp]:
  "offset_of atarix_discovery_resource_record_v1 ''resource_type_id'' = 8"
  "offset_of atarix_discovery_resource_record_v1 ''resource_version'' = 10"
  "offset_of atarix_discovery_resource_record_v1 ''resource_flags'' = 12"
  "offset_of atarix_discovery_resource_record_v1 ''resource_handle'' = 16"
  "offset_of atarix_discovery_resource_record_v1 ''provider_id'' = 24"
  "offset_of atarix_discovery_resource_record_v1 ''instance_id'' = 28"
  "offset_of atarix_discovery_service_record_v1 ''service_id'' = 8"
  "offset_of atarix_discovery_service_record_v1 ''service_version'' = 10"
  "offset_of atarix_discovery_service_record_v1 ''service_flags'' = 12"
  "offset_of atarix_discovery_service_record_v1 ''service_handle'' = 16"
  "offset_of atarix_discovery_service_record_v1 ''provider_id'' = 24"
  "offset_of atarix_discovery_service_record_v1 ''instance_id'' = 28"
  "offset_of atarix_discovery_dependency_record_v1 ''consumer_handle'' = 8"
  "offset_of atarix_discovery_dependency_record_v1 ''provider_handle'' = 16"
  "offset_of atarix_discovery_dependency_record_v1 ''dependency_type'' = 24"
  "offset_of atarix_discovery_dependency_record_v1 ''dependency_version'' = 26"
  "offset_of atarix_discovery_dependency_record_v1 ''dependency_flags'' = 28"
  "offset_of atarix_discovery_instrumentation_record_v1 ''instrumentation_type'' = 8"
  "offset_of atarix_discovery_instrumentation_record_v1 ''instrumentation_version'' = 10"
  "offset_of atarix_discovery_instrumentation_record_v1 ''instrumentation_flags'' = 12"
  "offset_of atarix_discovery_instrumentation_record_v1 ''instrumentation_handle'' = 16"
  "offset_of atarix_discovery_instrumentation_record_v1 ''observed_handle'' = 24"
  by (simp_all add: discovery_layouts)

lemma discovery_sizes:
  "size_of atarix_discovery_header_v1 = 32"
  "size_of atarix_discovery_record_header_v1 = 8"
  "size_of atarix_discovery_resource_record_v1 = 32"
  "size_of atarix_discovery_service_record_v1 = 32"
  "size_of atarix_discovery_dependency_record_v1 = 32"
  "size_of atarix_discovery_instrumentation_record_v1 = 32"
  by (simp_all add: discovery_layouts size_of_def)

section \<open>Handles and predicates\<close>

type_synonym atarix_discovery_handle = u64

definition atarix_discovery_handle_provider16 :: "atarix_discovery_handle \<Rightarrow> u16" where
  "atarix_discovery_handle_provider16 handle = ucast (drop_bit 48 handle AND 0xFFFF)"

definition atarix_discovery_handle_type :: "atarix_discovery_handle \<Rightarrow> u16" where
  "atarix_discovery_handle_type handle = ucast (drop_bit 32 handle AND 0xFFFF)"

definition atarix_discovery_handle_instance :: "atarix_discovery_handle \<Rightarrow> u32" where
  "atarix_discovery_handle_instance handle = ucast (handle AND 0xFFFFFFFF)"

definition atarix_discovery_make_handle ::
  "u16 \<Rightarrow> u16 \<Rightarrow> u32 \<Rightarrow> atarix_discovery_handle" where
  "atarix_discovery_make_handle provider_id_low16 type_id instance_id =
     push_bit 48 (ucast provider_id_low16) OR push_bit 32 (ucast type_id) OR ucast instance_id"

definition atarix_discovery_magic_is_valid :: "u32 \<Rightarrow> bool" where
  "atarix_discovery_magic_is_valid magic \<longleftrightarrow> magic = ATARIX_DISCOVERY_MAGIC_ATDX"

definition atarix_discovery_record_is_vendor_specific :: "u16 \<Rightarrow> bool" where
  "atarix_discovery_record_is_vendor_specific type \<longleftrightarrow>
     type \<ge> ATARIX_DISCOVERY_RECORD_VENDOR_BEGIN \<and> type \<le> ATARIX_DISCOVERY_RECORD_VENDOR_END"

lemma handle_masks:
  "(0xFFFF :: u64) = mask 16" "(0xFFFFFFFF :: u64) = mask 32"
  by (simp_all add: mask_eq_exp_minus_1)

lemma handle_fields_of_make:
  "atarix_discovery_handle_provider16 (atarix_discovery_make_handle p t i) = p"
  "atarix_discovery_handle_type (atarix_discovery_make_handle p t i) = t"
  "atarix_discovery_handle_instance (atarix_discovery_make_handle p t i) = i"
  by (auto simp: atarix_discovery_handle_provider16_def atarix_discovery_handle_type_def
      atarix_discovery_handle_instance_def atarix_discovery_make_handle_def handle_masks
      bit_simps bit_word_beyond intro!: bit_word_eqI)

lemma make_of_handle_fields:
  "atarix_discovery_make_handle (atarix_discovery_handle_provider16 h)
     (atarix_discovery_handle_type h) (atarix_discovery_handle_instance h) = h"
proof (rule bit_word_eqI)
  fix n :: nat
  assume "n < LENGTH(64)"
  then show "bit (atarix_discovery_make_handle (atarix_discovery_handle_provider16 h)
      (atarix_discovery_handle_type h) (atarix_discovery_handle_instance h)) n = bit h n"
    by (cases "n < 32"; cases "n < 48")
       (auto simp: atarix_discovery_handle_provider16_def atarix_discovery_handle_type_def
         atarix_discovery_handle_instance_def atarix_discovery_make_handle_def handle_masks
         bit_simps)
qed

text \<open>\<open>make_handle\<close> is a bijection: equal handles have equal parts.\<close>

lemma make_handle_inject:
  "atarix_discovery_make_handle p t i = atarix_discovery_make_handle p' t' i' \<longleftrightarrow>
     p = p' \<and> t = t' \<and> i = i'"
  using handle_fields_of_make by metis


section \<open>Properties\<close>

text \<open>
  C37. A discovery handle is a faithful encoding: packing a provider, a type and an instance and
  unpacking gives them back, every handle is the packing of its own parts, and equal handles have
  equal parts.
\<close>

theorem handle_bijection:
  "atarix_discovery_handle_provider16 (atarix_discovery_make_handle p t i) = p \<and>
   atarix_discovery_handle_type (atarix_discovery_make_handle p t i) = t \<and>
   atarix_discovery_handle_instance (atarix_discovery_make_handle p t i) = i \<and>
   atarix_discovery_make_handle (atarix_discovery_handle_provider16 h)
     (atarix_discovery_handle_type h) (atarix_discovery_handle_instance h) = h \<and>
   (atarix_discovery_make_handle p t i = atarix_discovery_make_handle p' t' i' \<longleftrightarrow>
      p = p' \<and> t = t' \<and> i = i')"
  by (simp add: handle_fields_of_make make_of_handle_fields make_handle_inject)

end
