(* ===== verification/Capability.thy ===== *)
theory Capability
  imports Ring_Model Discovery_Format
begin

text \<open>
  Capabilities: \<open>include/atarix/capability.h\<close>, the first-match evaluator
  (\<open>include/atarix/capability_engine.h\<close>, \<open>src/capability/capability_evaluator.c\<close>) and the policy
  engine (\<open>include/atarix/capability_policy.h\<close>, \<open>src/capability/capability_policy.c\<close>).

  A capability record is the struct as a record; a pointer to one of the records of the table is its
  index. Trust levels are \<open>u32\<close>: the enum has no negative value, and any value of its type may
  occur. A \<open>NULL\<close> argument is \<open>None\<close>.

  The locale \<open>attenuation\<close> is the contract of delegation: a delegated capability grants nothing its
  parent does not grant, along chains of any length. The policy meets it for every ring but FABRIC
  (\<open>delegation_attenuates\<close>); for FABRIC it does not (\<open>delegation_escalates_to_fabric\<close>).
\<close>

section \<open>Records and constants\<close>

type_synonym atarix_trust_level = u32

abbreviation ATARIX_TRUST_UNTRUSTED :: atarix_trust_level where "ATARIX_TRUST_UNTRUSTED \<equiv> 0"
abbreviation ATARIX_TRUST_IDENTIFIED :: atarix_trust_level where "ATARIX_TRUST_IDENTIFIED \<equiv> 1"
abbreviation ATARIX_TRUST_VALIDATED :: atarix_trust_level where "ATARIX_TRUST_VALIDATED \<equiv> 2"
abbreviation ATARIX_TRUST_TRUSTED :: atarix_trust_level where "ATARIX_TRUST_TRUSTED \<equiv> 3"
abbreviation ATARIX_TRUST_PRIVILEGED :: atarix_trust_level where "ATARIX_TRUST_PRIVILEGED \<equiv> 4"
abbreviation ATARIX_TRUST_RESERVED5 :: atarix_trust_level where "ATARIX_TRUST_RESERVED5 \<equiv> 5"
abbreviation ATARIX_TRUST_RESERVED6 :: atarix_trust_level where "ATARIX_TRUST_RESERVED6 \<equiv> 6"
abbreviation ATARIX_TRUST_REVOKED :: atarix_trust_level where "ATARIX_TRUST_REVOKED \<equiv> 7"

abbreviation ATARIX_CAPABILITY_FLAG_READ_ALLOWED :: u32 where
  "ATARIX_CAPABILITY_FLAG_READ_ALLOWED \<equiv> 1"
abbreviation ATARIX_CAPABILITY_FLAG_WRITE_ALLOWED :: u32 where
  "ATARIX_CAPABILITY_FLAG_WRITE_ALLOWED \<equiv> 2"
abbreviation ATARIX_CAPABILITY_FLAG_CONTROL_ALLOWED :: u32 where
  "ATARIX_CAPABILITY_FLAG_CONTROL_ALLOWED \<equiv> 4"
abbreviation ATARIX_CAPABILITY_FLAG_DELEGATION_ALLOWED :: u32 where
  "ATARIX_CAPABILITY_FLAG_DELEGATION_ALLOWED \<equiv> 8"
abbreviation ATARIX_CAPABILITY_FLAG_REVOCATION_SUPPORTED :: u32 where
  "ATARIX_CAPABILITY_FLAG_REVOCATION_SUPPORTED \<equiv> 0x10"
abbreviation ATARIX_CAPABILITY_FLAG_TIME_LIMITED :: u32 where
  "ATARIX_CAPABILITY_FLAG_TIME_LIMITED \<equiv> 32"
abbreviation ATARIX_CAPABILITY_FLAG_DEVELOPMENT_ONLY :: u32 where
  "ATARIX_CAPABILITY_FLAG_DEVELOPMENT_ONLY \<equiv> 0x40"
abbreviation ATARIX_CAPABILITY_FLAG_RECOVERY_ONLY :: u32 where
  "ATARIX_CAPABILITY_FLAG_RECOVERY_ONLY \<equiv> 128"
abbreviation ATARIX_CAPABILITY_FLAG_DESTRUCTIVE_OPERATION :: u32 where
  "ATARIX_CAPABILITY_FLAG_DESTRUCTIVE_OPERATION \<equiv> 256"
abbreviation ATARIX_CAPABILITY_FLAG_REQUIRES_SUPERVISOR_APPROVAL :: u32 where
  "ATARIX_CAPABILITY_FLAG_REQUIRES_SUPERVISOR_APPROVAL \<equiv> 512"

abbreviation ATARIX_OPERATION_INVALID :: u32 where "ATARIX_OPERATION_INVALID \<equiv> 0"
abbreviation ATARIX_OPERATION_READ :: u32 where "ATARIX_OPERATION_READ \<equiv> 1"
abbreviation ATARIX_OPERATION_WRITE :: u32 where "ATARIX_OPERATION_WRITE \<equiv> 2"
abbreviation ATARIX_OPERATION_CONTROL :: u32 where "ATARIX_OPERATION_CONTROL \<equiv> 3"

record atarix_capability_record_v1 =
  capability_id :: u32
  cap_operation_id :: u32
  cap_target_handle :: atarix_discovery_handle
  minimum_ring :: u16
  maximum_ring :: u16
  cap_flags :: u32
  delegation_mask :: u64
  expiration_or_lifetime :: u64
  issuer_handle :: atarix_discovery_handle
  trust_requirement :: u32
  cap_reserved :: u32

definition atarix_capability_record_v1_layout :: layout where
  "atarix_capability_record_v1_layout =
     [(''capability_id'', 4), (''operation_id'', 4), (''target_handle'', 8), (''minimum_ring'', 2),
      (''maximum_ring'', 2), (''flags'', 4), (''delegation_mask'', 8),
      (''expiration_or_lifetime'', 8), (''issuer_handle'', 8), (''trust_requirement'', 4),
      (''reserved'', 4)]"

definition atarix_capability_is_destructive :: "u32 \<Rightarrow> bool" where
  "atarix_capability_is_destructive flags \<longleftrightarrow>
     flags AND ATARIX_CAPABILITY_FLAG_DESTRUCTIVE_OPERATION \<noteq> 0"

definition atarix_capability_requires_supervisor :: "u32 \<Rightarrow> bool" where
  "atarix_capability_requires_supervisor flags \<longleftrightarrow>
     flags AND ATARIX_CAPABILITY_FLAG_REQUIRES_SUPERVISOR_APPROVAL \<noteq> 0"

section \<open>The evaluator\<close>

datatype atarix_decision =
    ATARIX_DECISION_ALLOW
  | ATARIX_DECISION_DENY
  | ATARIX_DECISION_RESTRICT
  | ATARIX_DECISION_RECOVERY_ONLY

record atarix_capability_request =
  rq_target_handle :: atarix_discovery_handle
  rq_operation_id :: u32
  requester_ring :: atarix_ring
  trust_level :: atarix_trust_level
  rq_request_flags :: u32

record atarix_capability_evaluation =
  decision :: atarix_decision
  matched_capability :: "nat option"
  reason_code :: u32

definition ring_allows :: "u16 \<Rightarrow> u16 \<Rightarrow> atarix_ring \<Rightarrow> bool" where
  "ring_allows minimum_ring_wire maximum_ring_wire req_ring =
     (let requester = atarix_ring_to_wire req_ring in
      if minimum_ring_wire = ATARIX_RING_WIRE_SUPERVISOR
      then requester = ATARIX_RING_WIRE_SUPERVISOR
      else if minimum_ring_wire = ATARIX_RING_WIRE_FABRIC
      then requester = ATARIX_RING_WIRE_SUPERVISOR \<or> requester = ATARIX_RING_WIRE_FABRIC
      else requester \<ge> minimum_ring_wire \<and> requester \<le> maximum_ring_wire)"

text \<open>The loop from index \<open>i\<close>; \<open>None\<close> is an access behind the end of the table.\<close>

function evaluate_loop ::
  "atarix_capability_record_v1 list \<Rightarrow> nat \<Rightarrow> atarix_capability_request \<Rightarrow> nat
    \<Rightarrow> atarix_capability_evaluation \<Rightarrow> atarix_capability_evaluation option" where
  "evaluate_loop capabilities capability_count request i evaluation =
     (if i < capability_count then
        if i < length capabilities then
          let cap = capabilities ! i in
          if cap_target_handle cap \<noteq> rq_target_handle request
          then evaluate_loop capabilities capability_count request (i + 1) evaluation
          else if cap_operation_id cap \<noteq> rq_operation_id request
          then evaluate_loop capabilities capability_count request (i + 1) evaluation
          else if trust_level request < trust_requirement cap
          then Some (evaluation\<lparr>decision := ATARIX_DECISION_RESTRICT,
                       matched_capability := Some i, reason_code := 1\<rparr>)
          else if \<not> ring_allows (minimum_ring cap) (maximum_ring cap) (requester_ring request)
          then Some (evaluation\<lparr>decision := ATARIX_DECISION_DENY,
                       matched_capability := Some i, reason_code := 2\<rparr>)
          else Some (evaluation\<lparr>decision :=
                         (if cap_flags cap AND ATARIX_CAPABILITY_FLAG_RECOVERY_ONLY \<noteq> 0
                          then ATARIX_DECISION_RECOVERY_ONLY else ATARIX_DECISION_ALLOW),
                       matched_capability := Some i, reason_code := 0\<rparr>)
        else None
      else Some (evaluation\<lparr>decision := ATARIX_DECISION_DENY, reason_code := 3\<rparr>))"
  by pat_completeness auto
termination
  by (relation "measure (\<lambda>(capabilities, capability_count, request, i, evaluation). capability_count - i)")
     auto

declare evaluate_loop.simps [simp del]

definition atarix_capability_evaluate ::
  "atarix_capability_record_v1 list option \<Rightarrow> nat \<Rightarrow> atarix_capability_request option
    \<Rightarrow> atarix_capability_evaluation option \<Rightarrow> (int \<times> atarix_capability_evaluation option) option" where
  "atarix_capability_evaluate capabilities capability_count request evaluation =
     (case (capabilities, request, evaluation) of
        (Some caps, Some req, Some ev) \<Rightarrow> do {
          ev \<leftarrow> evaluate_loop caps capability_count req 0
                 (ev\<lparr>decision := ATARIX_DECISION_DENY, matched_capability := None, reason_code := 0\<rparr>);
          Some (0, Some ev)
        }
      | _ \<Rightarrow> Some (-1, evaluation))"

section \<open>The policy engine\<close>

abbreviation ATARIX_POLICY_REQUEST_FLAG_CAPABILITY_REVOKED :: u32 where
  "ATARIX_POLICY_REQUEST_FLAG_CAPABILITY_REVOKED \<equiv> 1"

datatype atarix_policy_status =
    ATARIX_POLICY_STATUS_OK
  | ATARIX_POLICY_STATUS_NULL
  | ATARIX_POLICY_STATUS_INVALID_REQUEST
  | ATARIX_POLICY_STATUS_INVALID_CAPABILITY
  | ATARIX_POLICY_STATUS_UNTRUSTED_ISSUER
  | ATARIX_POLICY_STATUS_UNTRUSTED_OWNER
  | ATARIX_POLICY_STATUS_REVOKED
  | ATARIX_POLICY_STATUS_EXPIRED
  | ATARIX_POLICY_STATUS_RING_DENIED
  | ATARIX_POLICY_STATUS_OWNER_MISMATCH
  | ATARIX_POLICY_STATUS_DELEGATION_DENIED
  | ATARIX_POLICY_STATUS_RESOURCE_DENIED
  | ATARIX_POLICY_STATUS_OPERATION_DENIED

datatype atarix_policy_decision =
    ATARIX_POLICY_DECISION_DENY
  | ATARIX_POLICY_DECISION_ALLOW
  | ATARIX_POLICY_DECISION_RESTRICT
  | ATARIX_POLICY_DECISION_RECOVERY_ONLY

record atarix_policy_request =
  caller_principal_id :: u32
  owner_principal_id :: u32
  issuer_principal_id :: u32
  caller_ring :: atarix_ring
  issuer_trust :: atarix_trust_level
  owner_trust :: atarix_trust_level
  pr_target_handle :: atarix_discovery_handle
  pr_operation_id :: u32
  current_time :: u64
  pr_request_flags :: u32
  capability :: "atarix_capability_record_v1 option"

record atarix_policy_result =
  policy_decision :: atarix_policy_decision
  policy_status :: atarix_policy_status
  policy_matched :: "atarix_capability_record_v1 option"

definition trust_is_usable :: "atarix_trust_level \<Rightarrow> bool" where
  "trust_is_usable trust \<longleftrightarrow> trust \<noteq> ATARIX_TRUST_UNTRUSTED \<and> trust \<noteq> ATARIX_TRUST_REVOKED"

definition ring_to_wire :: "atarix_ring \<Rightarrow> u16" where
  "ring_to_wire ring = atarix_ring_to_wire ring"

definition capability_ring_range_valid :: "atarix_capability_record_v1 \<Rightarrow> bool" where
  "capability_ring_range_valid cap =
     (if minimum_ring cap = ATARIX_RING_WIRE_SUPERVISOR
      then maximum_ring cap = ATARIX_RING_WIRE_SUPERVISOR
      else if minimum_ring cap = ATARIX_RING_WIRE_FABRIC
      then maximum_ring cap = ATARIX_RING_WIRE_FABRIC \<or> maximum_ring cap \<le> ATARIX_RING_WIRE_APPLICATION
      else minimum_ring cap \<le> maximum_ring cap \<and> maximum_ring cap \<le> ATARIX_RING_WIRE_APPLICATION)"

definition ring_in_capability_range :: "atarix_ring \<Rightarrow> atarix_capability_record_v1 \<Rightarrow> bool" where
  "ring_in_capability_range ring cap =
     (let caller = ring_to_wire ring in
      if minimum_ring cap = ATARIX_RING_WIRE_SUPERVISOR then caller = ATARIX_RING_WIRE_SUPERVISOR
      else if minimum_ring cap = ATARIX_RING_WIRE_FABRIC then caller = ATARIX_RING_WIRE_FABRIC
      else caller \<ge> minimum_ring cap \<and> caller \<le> maximum_ring cap)"

definition capability_uses_supervisor_authority :: "atarix_capability_record_v1 \<Rightarrow> bool" where
  "capability_uses_supervisor_authority cap \<longleftrightarrow>
     minimum_ring cap = ATARIX_RING_WIRE_SUPERVISOR \<or> maximum_ring cap = ATARIX_RING_WIRE_SUPERVISOR"

definition request_capability_revoked :: "atarix_policy_request \<Rightarrow> bool" where
  "request_capability_revoked request \<longleftrightarrow>
     pr_request_flags request AND ATARIX_POLICY_REQUEST_FLAG_CAPABILITY_REVOKED \<noteq> 0"

text \<open>The pointer is dereferenced without a check; \<open>cap\<close> is what it points to.\<close>

definition request_capability_expired ::
  "atarix_policy_request \<Rightarrow> atarix_capability_record_v1 \<Rightarrow> bool" where
  "request_capability_expired request cap =
     (if cap_flags cap AND ATARIX_CAPABILITY_FLAG_TIME_LIMITED = 0 then False
      else if expiration_or_lifetime cap = 0 then True
      else current_time request > expiration_or_lifetime cap)"

definition atarix_capability_record_validate ::
  "atarix_capability_record_v1 option \<Rightarrow> atarix_policy_status" where
  "atarix_capability_record_validate cap_ptr =
     (case cap_ptr of
        None \<Rightarrow> ATARIX_POLICY_STATUS_NULL
      | Some cap \<Rightarrow>
          if capability_id cap = 0 then ATARIX_POLICY_STATUS_INVALID_CAPABILITY
          else if cap_operation_id cap = ATARIX_OPERATION_INVALID
          then ATARIX_POLICY_STATUS_INVALID_CAPABILITY
          else if \<not> capability_ring_range_valid cap then ATARIX_POLICY_STATUS_INVALID_CAPABILITY
          else if cap_target_handle cap = 0 then ATARIX_POLICY_STATUS_INVALID_CAPABILITY
          else if issuer_handle cap = 0 then ATARIX_POLICY_STATUS_INVALID_CAPABILITY
          else ATARIX_POLICY_STATUS_OK)"

definition atarix_capability_record_allows_operation ::
  "atarix_capability_record_v1 option \<Rightarrow> u32 \<Rightarrow> bool" where
  "atarix_capability_record_allows_operation cap_ptr operation_id =
     (case cap_ptr of
        None \<Rightarrow> False
      | Some cap \<Rightarrow>
          if cap_operation_id cap \<noteq> operation_id then False
          else if operation_id = ATARIX_OPERATION_READ
          then cap_flags cap AND ATARIX_CAPABILITY_FLAG_READ_ALLOWED \<noteq> 0
          else if operation_id = ATARIX_OPERATION_WRITE
          then cap_flags cap AND ATARIX_CAPABILITY_FLAG_WRITE_ALLOWED \<noteq> 0
          else if operation_id = ATARIX_OPERATION_CONTROL
          then cap_flags cap AND ATARIX_CAPABILITY_FLAG_CONTROL_ALLOWED \<noteq> 0
          else True)"

definition atarix_capability_delegation_validate ::
  "atarix_capability_record_v1 option \<Rightarrow> atarix_capability_record_v1 option
    \<Rightarrow> atarix_policy_status" where
  "atarix_capability_delegation_validate parent child =
     (case (parent, child) of
        (Some p, Some c) \<Rightarrow>
          let status = atarix_capability_record_validate parent in
          if status \<noteq> ATARIX_POLICY_STATUS_OK then status
          else let status = atarix_capability_record_validate child in
          if status \<noteq> ATARIX_POLICY_STATUS_OK then status
          else if cap_flags p AND ATARIX_CAPABILITY_FLAG_DELEGATION_ALLOWED = 0
          then ATARIX_POLICY_STATUS_DELEGATION_DENIED
          else if capability_uses_supervisor_authority p \<or> capability_uses_supervisor_authority c
          then ATARIX_POLICY_STATUS_DELEGATION_DENIED
          else if cap_target_handle p \<noteq> cap_target_handle c
          then ATARIX_POLICY_STATUS_RESOURCE_DENIED
          else if cap_operation_id p \<noteq> cap_operation_id c
          then ATARIX_POLICY_STATUS_OPERATION_DENIED
          else if cap_flags c AND NOT (cap_flags p) \<noteq> 0
          then ATARIX_POLICY_STATUS_DELEGATION_DENIED
          else if minimum_ring c < minimum_ring p \<or> maximum_ring c < minimum_ring p
          then ATARIX_POLICY_STATUS_DELEGATION_DENIED
          else if maximum_ring c > maximum_ring p
          then ATARIX_POLICY_STATUS_DELEGATION_DENIED
          else ATARIX_POLICY_STATUS_OK
      | _ \<Rightarrow> ATARIX_POLICY_STATUS_NULL)"

text \<open>The checks of \<open>atarix_policy_evaluate\<close> after the capability has been recorded as matched.\<close>

definition policy_checks ::
  "atarix_policy_request \<Rightarrow> atarix_capability_record_v1 \<Rightarrow> atarix_policy_status" where
  "policy_checks request cap =
     (if request_capability_revoked request then ATARIX_POLICY_STATUS_REVOKED
      else if request_capability_expired request cap then ATARIX_POLICY_STATUS_EXPIRED
      else if \<not> trust_is_usable (issuer_trust request) then ATARIX_POLICY_STATUS_UNTRUSTED_ISSUER
      else if \<not> trust_is_usable (owner_trust request) then ATARIX_POLICY_STATUS_UNTRUSTED_OWNER
      else if caller_principal_id request \<noteq> owner_principal_id request
      then ATARIX_POLICY_STATUS_OWNER_MISMATCH
      else if \<not> ring_in_capability_range (caller_ring request) cap
      then ATARIX_POLICY_STATUS_RING_DENIED
      else if pr_target_handle request \<noteq> cap_target_handle cap
      then ATARIX_POLICY_STATUS_RESOURCE_DENIED
      else if \<not> atarix_capability_record_allows_operation (Some cap) (pr_operation_id request)
      then ATARIX_POLICY_STATUS_OPERATION_DENIED
      else ATARIX_POLICY_STATUS_OK)"

definition atarix_policy_evaluate ::
  "atarix_policy_request option \<Rightarrow> atarix_policy_result option
    \<Rightarrow> atarix_policy_status \<times> atarix_policy_result option" where
  "atarix_policy_evaluate request result =
     (case (request, result) of
        (Some req, Some res) \<Rightarrow>
          let res = res\<lparr>policy_decision := ATARIX_POLICY_DECISION_DENY,
                        policy_status := ATARIX_POLICY_STATUS_INVALID_REQUEST,
                        policy_matched := None\<rparr> in
          (case capability req of
             None \<Rightarrow> (ATARIX_POLICY_STATUS_NULL,
                      Some (res\<lparr>policy_status := ATARIX_POLICY_STATUS_NULL\<rparr>))
           | Some cap \<Rightarrow>
               let status = atarix_capability_record_validate (Some cap) in
               if status \<noteq> ATARIX_POLICY_STATUS_OK
               then (status, Some (res\<lparr>policy_status := status\<rparr>))
               else
                 let res = res\<lparr>policy_matched := Some cap\<rparr>; status = policy_checks req cap in
                 if status \<noteq> ATARIX_POLICY_STATUS_OK
                 then (status, Some (res\<lparr>policy_status := status\<rparr>))
                 else (status, Some (res\<lparr>policy_decision := ATARIX_POLICY_DECISION_ALLOW,
                                         policy_status := ATARIX_POLICY_STATUS_OK\<rparr>)))
      | _ \<Rightarrow> (ATARIX_POLICY_STATUS_NULL, result))"


section \<open>The evaluator decides by the first match\<close>

definition matches :: "atarix_capability_request \<Rightarrow> atarix_capability_record_v1 \<Rightarrow> bool" where
  "matches req cap \<longleftrightarrow>
     cap_target_handle cap = rq_target_handle req \<and> cap_operation_id cap = rq_operation_id req"

definition verdict ::
  "atarix_capability_request \<Rightarrow> atarix_capability_record_v1 \<Rightarrow> atarix_decision \<times> u32" where
  "verdict req cap =
     (if trust_level req < trust_requirement cap then (ATARIX_DECISION_RESTRICT, 1)
      else if \<not> ring_allows (minimum_ring cap) (maximum_ring cap) (requester_ring req)
      then (ATARIX_DECISION_DENY, 2)
      else if bit (cap_flags cap) 7 then (ATARIX_DECISION_RECOVERY_ONLY, 0)
      else (ATARIX_DECISION_ALLOW, 0))"

lemma verdict_allow_iff:
  "fst (verdict req cap) = ATARIX_DECISION_ALLOW \<longleftrightarrow>
     trust_requirement cap \<le> trust_level req \<and>
     ring_allows (minimum_ring cap) (maximum_ring cap) (requester_ring req) \<and> \<not> bit (cap_flags cap) 7"
  by (auto simp: verdict_def not_less)

lemma evaluate_loop_hit:
  assumes "i < count" "i < length caps" "matches req (caps ! i)"
  shows "evaluate_loop caps count req i ev = Some (ev\<lparr>decision := fst (verdict req (caps ! i)),
    matched_capability := Some i, reason_code := snd (verdict req (caps ! i))\<rparr>)"
  using assms
  by (subst evaluate_loop.simps) (simp add: verdict_def matches_def Let_def and_flag_bit)

lemma evaluate_loop_skip:
  assumes "i < count" "i < length caps" "\<not> matches req (caps ! i)"
  shows "evaluate_loop caps count req i ev = evaluate_loop caps count req (Suc i) ev"
  using assms by (subst evaluate_loop.simps) (auto simp: matches_def Let_def)

lemma evaluate_loop_skips:
  assumes "i \<le> k" "k \<le> count" "count \<le> length caps" "\<forall>j. i \<le> j \<and> j < k \<longrightarrow> \<not> matches req (caps ! j)"
  shows "evaluate_loop caps count req i ev = evaluate_loop caps count req k ev"
  using assms
proof (induction "k - i" arbitrary: i)
  case (Suc n)
  then have "evaluate_loop caps count req i ev = evaluate_loop caps count req (Suc i) ev"
    by (intro evaluate_loop_skip) auto
  moreover have "n = k - Suc i" "Suc i \<le> k" using Suc.hyps(2) by simp_all
  ultimately show ?case
    using Suc.hyps(1) [of "Suc i"] Suc.prems by simp
qed simp

lemma evaluate_loop_end:
  "evaluate_loop caps count req count ev = Some (ev\<lparr>decision := ATARIX_DECISION_DENY, reason_code := 3\<rparr>)"
  by (subst evaluate_loop.simps) simp

text \<open>The reference: find the first matching capability and give its verdict.\<close>

definition first_match_evaluation ::
  "atarix_capability_request \<Rightarrow> atarix_capability_record_v1 list \<Rightarrow> atarix_capability_evaluation" where
  "first_match_evaluation req caps =
     (case find_index (matches req) caps of
        None \<Rightarrow> \<lparr>decision = ATARIX_DECISION_DENY, matched_capability = None, reason_code = 3\<rparr>
      | Some i \<Rightarrow> \<lparr>decision = fst (verdict req (caps ! i)), matched_capability = Some i,
                   reason_code = snd (verdict req (caps ! i))\<rparr>)"

lemma evaluate_eq:
  fixes ev :: atarix_capability_evaluation
  assumes "count \<le> length caps"
  shows "atarix_capability_evaluate (Some caps) count (Some req) (Some ev) =
    Some (0, Some (first_match_evaluation req (take count caps)))"
proof (cases "find_index (matches req) (take count caps)")
  case None
  then have "evaluate_loop caps count req 0 ev = evaluate_loop caps count req count ev" for ev
    using assms by (intro evaluate_loop_skips) (auto simp: find_index_None)
  with None show ?thesis
    by (simp add: atarix_capability_evaluate_def evaluate_loop_end first_match_evaluation_def)
next
  case (Some i)
  note f = find_index_Some [OF Some]
  have "evaluate_loop caps count req 0 ev = evaluate_loop caps count req i ev" for ev
    using assms f by (intro evaluate_loop_skips) auto
  with Some f assms show ?thesis
    by (simp add: atarix_capability_evaluate_def evaluate_loop_hit first_match_evaluation_def)
qed

section \<open>What the policy allows\<close>

text \<open>The requests a capability authorises, condition by condition.\<close>

definition well_formed_capability :: "atarix_capability_record_v1 \<Rightarrow> bool" where
  "well_formed_capability cap \<longleftrightarrow>
     capability_id cap \<noteq> 0 \<and> cap_operation_id cap \<noteq> 0 \<and> cap_target_handle cap \<noteq> 0 \<and>
     issuer_handle cap \<noteq> 0 \<and> capability_ring_range_valid cap"

definition grants ::
  "atarix_capability_record_v1 \<Rightarrow> atarix_ring \<Rightarrow> atarix_discovery_handle \<Rightarrow> u32 \<Rightarrow> bool" where
  "grants cap ring target op \<longleftrightarrow>
     ring_in_capability_range ring cap \<and> target = cap_target_handle cap \<and> op = cap_operation_id cap \<and>
     (op = ATARIX_OPERATION_READ \<longrightarrow> bit (cap_flags cap) 0) \<and>
     (op = ATARIX_OPERATION_WRITE \<longrightarrow> bit (cap_flags cap) 1) \<and>
     (op = ATARIX_OPERATION_CONTROL \<longrightarrow> bit (cap_flags cap) 2)"

definition live :: "atarix_policy_request \<Rightarrow> atarix_capability_record_v1 \<Rightarrow> bool" where
  "live req cap \<longleftrightarrow>
     (bit (cap_flags cap) 5 \<longrightarrow>
        expiration_or_lifetime cap \<noteq> 0 \<and> current_time req \<le> expiration_or_lifetime cap)"

definition vouched :: "atarix_policy_request \<Rightarrow> bool" where
  "vouched req \<longleftrightarrow>
     \<not> bit (pr_request_flags req) 0 \<and>
     issuer_trust req \<notin> {ATARIX_TRUST_UNTRUSTED, ATARIX_TRUST_REVOKED} \<and>
     owner_trust req \<notin> {ATARIX_TRUST_UNTRUSTED, ATARIX_TRUST_REVOKED} \<and>
     caller_principal_id req = owner_principal_id req"

lemma record_validate_iff:
  "atarix_capability_record_validate (Some cap) = ATARIX_POLICY_STATUS_OK \<longleftrightarrow> well_formed_capability cap"
  by (simp add: atarix_capability_record_validate_def well_formed_capability_def)

lemma allows_operation_iff:
  "atarix_capability_record_allows_operation (Some cap) op \<longleftrightarrow>
     op = cap_operation_id cap \<and> (op = 1 \<longrightarrow> bit (cap_flags cap) 0) \<and>
     (op = 2 \<longrightarrow> bit (cap_flags cap) 1) \<and> (op = 3 \<longrightarrow> bit (cap_flags cap) 2)"
  by (auto simp: atarix_capability_record_allows_operation_def and_flag_bit)

lemma live_iff: "\<not> request_capability_expired req cap \<longleftrightarrow> live req cap"
  by (auto simp: request_capability_expired_def live_def and_flag_bit not_less)

lemma policy_checks_iff:
  "policy_checks req cap = ATARIX_POLICY_STATUS_OK \<longleftrightarrow>
     vouched req \<and> live req cap \<and>
     grants cap (caller_ring req) (pr_target_handle req) (pr_operation_id req)"
  using live_iff [of req cap]
  by (auto simp: policy_checks_def vouched_def grants_def allows_operation_iff trust_is_usable_def
      request_capability_revoked_def and_flag_bit)

lemma policy_status_iff:
  "fst (atarix_policy_evaluate (Some req) (Some res)) = ATARIX_POLICY_STATUS_OK \<longleftrightarrow>
     (\<exists>cap. capability req = Some cap \<and> well_formed_capability cap \<and> vouched req \<and> live req cap \<and>
        grants cap (caller_ring req) (pr_target_handle req) (pr_operation_id req))"
proof (cases "capability req")
  case None
  then show ?thesis by (simp add: atarix_policy_evaluate_def)
next
  case (Some cap)
  then show ?thesis
    by (simp add: atarix_policy_evaluate_def Let_def record_validate_iff policy_checks_iff)
qed

text \<open>
  The ring bounds of a record as ring numbers: the two's complement values -2 (SUPERVISOR), -1 (FABRIC)
  and 0 to 3. A range that starts at SUPERVISOR or FABRIC admits exactly that ring, even when it
  ends at a less privileged one; a caller outside the enum counts as APPLICATION.
\<close>

definition ring_bounds_ok :: "atarix_capability_record_v1 \<Rightarrow> bool" where
  "ring_bounds_ok cap \<longleftrightarrow>
     (let low = sint (minimum_ring cap); high = sint (maximum_ring cap) in
      -2 \<le> low \<and> low \<le> high \<and> high \<le> 3 \<and> (low = -2 \<longrightarrow> high = -2))"

definition ring_admitted :: "atarix_capability_record_v1 \<Rightarrow> atarix_ring \<Rightarrow> bool" where
  "ring_admitted cap r \<longleftrightarrow>
     (let low = sint (minimum_ring cap); high = sint (maximum_ring cap);
          caller = (if -2 \<le> r \<and> r \<le> 4 then r else 3) in
      if low < 0 then caller = low else low \<le> caller \<and> caller \<le> high)"

lemma u16_less: "unat (w :: u16) < 65536"
  using unsigned_less [of w, where 'a = nat] by simp

lemma sint_u16: "sint (w :: u16) = (if unat w < 2 ^ 15 then int (unat w) else int (unat w) - 2 ^ 16)"
proof -
  define n where "n = unat w"
  have n: "n < 65536" by (simp add: n_def u16_less)
  have fold: "(int n + 32768) mod 65536 = (int n - 32768) mod 65536"
    using mod_add_self2 [of "int n - 32768" 65536] by (simp add: add.commute)
  have "sint w = (int n + 32768) mod 65536 - 32768"
    by (simp add: n_def sint_uint signed_take_bit_eq_take_bit_shift take_bit_eq_mod)
  also have "\<dots> = (if n < 32768 then int n else int n - 65536)" using n
  proof (cases "n < 32768")
    case False
    with n show ?thesis unfolding fold by (simp add: mod_pos_pos_trivial)
  qed (simp add: mod_pos_pos_trivial)
  finally show ?thesis by (simp add: n_def)
qed

lemma ring_bounds_iff: "capability_ring_range_valid cap \<longleftrightarrow> ring_bounds_ok cap"
proof -
  note u16_less [of "minimum_ring cap"] u16_less [of "maximum_ring cap"]
  moreover have "(w = 0xFFFE) = (unat w = 0xFFFE)" "(w = 0xFFFF) = (unat w = 0xFFFF)" for w :: u16
    by (simp_all add: word_unat_eq_iff)
  ultimately show ?thesis
    by (auto simp: capability_ring_range_valid_def ring_bounds_ok_def Let_def sint_u16 word_le_nat_alt
        simp del: of_nat_unat split: if_splits)
qed

lemma sint_ring_to_wire: "sint (ring_to_wire r) = (if -2 \<le> r \<and> r \<le> 4 then r else 3)"
  by (auto simp: ring_to_wire_def atarix_ring_to_wire_def sint_u16)

lemma ring_in_range_iff:
  assumes "ring_bounds_ok cap"
  shows "ring_in_capability_range r cap \<longleftrightarrow> ring_admitted cap r"
proof -
  define c where "c = ring_to_wire r"
  note u16_less [of "minimum_ring cap"] u16_less [of "maximum_ring cap"] u16_less [of c]
  moreover have "(w = 0xFFFE) = (unat w = 0xFFFE)" "(w = 0xFFFF) = (unat w = 0xFFFF)" for w :: u16
    by (simp_all add: word_unat_eq_iff)
  ultimately show ?thesis
    using assms
    by (auto simp: ring_in_capability_range_def ring_admitted_def ring_bounds_ok_def Let_def
        sint_ring_to_wire [symmetric] sint_u16 word_le_nat_alt simp flip: c_def simp del: of_nat_unat split: if_splits)
qed

text \<open>The fields of a capability that no check reads.\<close>

lemma ignored_fields:
  fixes cap :: atarix_capability_record_v1 and t z :: u32 and m :: u64
  defines "cap' \<equiv> cap\<lparr>trust_requirement := t, delegation_mask := m, cap_reserved := z\<rparr>"
  shows "atarix_capability_record_validate (Some cap') = atarix_capability_record_validate (Some cap)"
    and "policy_checks (req\<lparr>capability := c\<rparr>) cap' = policy_checks req cap"
  by (simp_all add: cap'_def atarix_capability_record_validate_def capability_ring_range_valid_def policy_checks_def
      request_capability_revoked_def request_capability_expired_def ring_in_capability_range_def
      atarix_capability_record_allows_operation_def)

section \<open>Delegation\<close>

locale attenuation =
  fixes delegated :: "'c \<Rightarrow> 'c \<Rightarrow> bool"
    and granted :: "'c \<Rightarrow> 'q \<Rightarrow> bool"
  assumes attenuates: "delegated p c \<Longrightarrow> granted c q \<Longrightarrow> granted p q"
begin

lemma attenuates_chain: "delegated\<^sup>*\<^sup>* p c \<Longrightarrow> granted c q \<Longrightarrow> granted p q"
  by (induction rule: converse_rtranclp_induct) (auto intro: attenuates)

end

definition delegates :: "atarix_capability_record_v1 \<Rightarrow> atarix_capability_record_v1 \<Rightarrow> bool" where
  "delegates p c \<longleftrightarrow> atarix_capability_delegation_validate (Some p) (Some c) = ATARIX_POLICY_STATUS_OK"

lemma flags_subset: "(c :: u32) AND NOT p = 0 \<longleftrightarrow> (\<forall>n. bit c n \<longrightarrow> bit p n)"
  using bit_imp_le_length [of c] by (auto simp: bit_eq_iff bit_simps)

lemma delegates_iff:
  "delegates p c \<longleftrightarrow>
     well_formed_capability p \<and> well_formed_capability c \<and> bit (cap_flags p) 3 \<and>
     \<not> capability_uses_supervisor_authority p \<and> \<not> capability_uses_supervisor_authority c \<and>
     cap_target_handle c = cap_target_handle p \<and> cap_operation_id c = cap_operation_id p \<and>
     (\<forall>n. bit (cap_flags c) n \<longrightarrow> bit (cap_flags p) n) \<and>
     minimum_ring p \<le> minimum_ring c \<and> minimum_ring p \<le> maximum_ring c \<and>
     maximum_ring c \<le> maximum_ring p"
  by (auto simp: delegates_def atarix_capability_delegation_validate_def Let_def record_validate_iff
      and_flag_bit flags_subset not_less not_le)

lemma u16_top: "(0xFFFF :: u16) \<le> x \<longleftrightarrow> x = 0xFFFF"
proof -
  have top: "(- 1 :: u16) = 0xFFFF" by simp
  show ?thesis using word_order.extremum_unique [of x] unfolding top .
qed

lemma wire_fabric_iff: "atarix_ring_to_wire r = ATARIX_RING_WIRE_FABRIC \<longleftrightarrow> r = ATARIX_RING_FABRIC"
  by (auto simp: atarix_ring_to_wire_def)

lemma delegated_range:
  assumes "delegates p c" "ring_in_capability_range r c" "r \<noteq> ATARIX_RING_FABRIC"
  shows "ring_in_capability_range r p"
proof -
  from assms have c: "minimum_ring c \<noteq> ATARIX_RING_WIRE_SUPERVISOR" "minimum_ring c \<noteq> ATARIX_RING_WIRE_FABRIC"
    and p: "minimum_ring p \<noteq> ATARIX_RING_WIRE_SUPERVISOR" "minimum_ring p \<noteq> ATARIX_RING_WIRE_FABRIC"
    by (auto simp: delegates_iff capability_uses_supervisor_authority_def ring_in_capability_range_def
        ring_to_wire_def wire_fabric_iff u16_top Let_def split: if_splits)
  with assms show ?thesis
    by (auto simp: delegates_iff ring_in_capability_range_def Let_def)
qed

lemma delegated_grants:
  "\<lbrakk>delegates p c; grants c r t op; r \<noteq> ATARIX_RING_FABRIC\<rbrakk> \<Longrightarrow> grants p r t op"
  using delegated_range [of p c r] by (simp add: grants_def delegates_iff)

interpretation delegation: attenuation delegates
    "\<lambda>cap (r, t, op). r \<noteq> ATARIX_RING_FABRIC \<and> grants cap r t op"
  by unfold_locales (auto intro: delegated_grants)

interpretation delegation_flags: attenuation delegates "\<lambda>cap n. bit (cap_flags cap) n"
  by unfold_locales (simp add: delegates_iff)


section \<open>Concrete records\<close>

definition sample_capability :: atarix_capability_record_v1 where
  "sample_capability =
     \<lparr>capability_id = 1, cap_operation_id = ATARIX_OPERATION_READ, cap_target_handle = 0x100,
      minimum_ring = ATARIX_RING_WIRE_KERNEL, maximum_ring = ATARIX_RING_WIRE_APPLICATION,
      cap_flags = 0x29, delegation_mask = 0, expiration_or_lifetime = 100, issuer_handle = 0x200,
      trust_requirement = ATARIX_TRUST_PRIVILEGED, cap_reserved = 0\<rparr>"

definition sample_request :: "atarix_ring \<Rightarrow> u64 \<Rightarrow> atarix_capability_record_v1 \<Rightarrow> atarix_policy_request" where
  "sample_request ring now cap =
     \<lparr>caller_principal_id = 9, owner_principal_id = 9, issuer_principal_id = 2, caller_ring = ring,
      issuer_trust = ATARIX_TRUST_TRUSTED, owner_trust = ATARIX_TRUST_TRUSTED,
      pr_target_handle = 0x100, pr_operation_id = ATARIX_OPERATION_READ, current_time = now,
      pr_request_flags = 0, capability = Some cap\<rparr>"

definition blank_result :: atarix_policy_result where
  "blank_result = \<lparr>policy_decision = ATARIX_POLICY_DECISION_ALLOW,
     policy_status = ATARIX_POLICY_STATUS_OK, policy_matched = None\<rparr>"

lemmas policy_eval_defs =
  atarix_policy_evaluate_def atarix_capability_record_validate_def capability_ring_range_valid_def
  policy_checks_def request_capability_revoked_def request_capability_expired_def
  trust_is_usable_def ring_in_capability_range_def ring_to_wire_def atarix_ring_to_wire_def
  atarix_capability_record_allows_operation_def sample_request_def sample_capability_def
  blank_result_def

section \<open>Properties\<close>

text \<open>
  C6. The policy engine fails closed and allows exactly the following: whatever the result struct holds
  before the call, the decision is ALLOW if and only if the returned and stored status is OK, and DENY
  otherwise. The status is OK exactly when the request carries a capability with nonzero identifier,
  operation, target and issuer and ring bounds in order; it is not marked revoked; issuer and owner are
  neither untrusted nor revoked; the caller is the owner; the caller's ring is in the bounds (a lower bound
  below KERNEL admits that ring only, and a number that is no ring counts as APPLICATION); a time-limited capability has a nonzero expiration that has not passed; and target and operation are the
  granted ones, with the flag that READ, WRITE and CONTROL need. The trust requirement, the delegation
  mask and the reserved word of the capability have no influence.
\<close>

theorem policy_allows_exactly:
  fixes res :: atarix_policy_result
  shows "\<exists>status res'. atarix_policy_evaluate (Some req) (Some res) = (status, Some res') \<and>
    policy_status res' = status \<and>
    policy_decision res' = (if status = ATARIX_POLICY_STATUS_OK
      then ATARIX_POLICY_DECISION_ALLOW else ATARIX_POLICY_DECISION_DENY) \<and>
    (status = ATARIX_POLICY_STATUS_OK \<longleftrightarrow>
      (\<exists>cap. capability req = Some cap \<and> policy_matched res' = Some cap \<and>
        capability_id cap \<noteq> 0 \<and> cap_operation_id cap \<noteq> 0 \<and> cap_target_handle cap \<noteq> 0 \<and>
        issuer_handle cap \<noteq> 0 \<and> ring_bounds_ok cap \<and>
        \<not> bit (pr_request_flags req) 0 \<and> issuer_trust req \<notin> {0, 7} \<and> owner_trust req \<notin> {0, 7} \<and>
        caller_principal_id req = owner_principal_id req \<and> ring_admitted cap (caller_ring req) \<and>
        (bit (cap_flags cap) 5 \<longrightarrow>
          expiration_or_lifetime cap \<noteq> 0 \<and> current_time req \<le> expiration_or_lifetime cap) \<and>
        pr_target_handle req = cap_target_handle cap \<and> pr_operation_id req = cap_operation_id cap \<and>
        (\<forall>op \<in> {1, 2, 3}. pr_operation_id req = op \<longrightarrow> bit (cap_flags cap) (unat op - 1)))) \<and>
    (\<forall>cap t m z. capability req = Some cap \<longrightarrow>
      fst (atarix_policy_evaluate (Some (req\<lparr>capability := Some (cap\<lparr>trust_requirement := t,
        delegation_mask := m, cap_reserved := z\<rparr>)\<rparr>)) (Some res)) = status)"
proof (cases "capability req")
  case None
  then show ?thesis by (simp add: atarix_policy_evaluate_def)
next
  case (Some cap)
  have allowed: "fst (atarix_policy_evaluate (Some req) (Some res)) = ATARIX_POLICY_STATUS_OK \<longleftrightarrow>
      well_formed_capability cap \<and> vouched req \<and> live req cap \<and>
      grants cap (caller_ring req) (pr_target_handle req) (pr_operation_id req)"
    using Some by (simp add: policy_status_iff)
  have spec: "well_formed_capability cap \<and> vouched req \<and> live req cap \<and>
      grants cap (caller_ring req) (pr_target_handle req) (pr_operation_id req) \<longleftrightarrow>
      capability_id cap \<noteq> 0 \<and> cap_operation_id cap \<noteq> 0 \<and> cap_target_handle cap \<noteq> 0 \<and>
      issuer_handle cap \<noteq> 0 \<and> ring_bounds_ok cap \<and>
      \<not> bit (pr_request_flags req) 0 \<and> issuer_trust req \<notin> {0, 7} \<and> owner_trust req \<notin> {0, 7} \<and>
      caller_principal_id req = owner_principal_id req \<and> ring_admitted cap (caller_ring req) \<and>
      (bit (cap_flags cap) 5 \<longrightarrow>
        expiration_or_lifetime cap \<noteq> 0 \<and> current_time req \<le> expiration_or_lifetime cap) \<and>
      pr_target_handle req = cap_target_handle cap \<and> pr_operation_id req = cap_operation_id cap \<and>
      (\<forall>op \<in> {1, 2, 3}. pr_operation_id req = op \<longrightarrow> bit (cap_flags cap) (unat op - 1))"
    using ring_in_range_iff [of cap "caller_ring req"]
    by (auto simp: well_formed_capability_def vouched_def live_def grants_def ring_bounds_iff)
  have same: "fst (atarix_policy_evaluate (Some (req\<lparr>capability := Some (cap\<lparr>trust_requirement := t,
      delegation_mask := m, cap_reserved := z\<rparr>)\<rparr>)) (Some res)) = fst (atarix_policy_evaluate (Some req) (Some res))"
    for t m z
    using Some by (simp add: atarix_policy_evaluate_def Let_def ignored_fields)
  have "\<exists>status res'. atarix_policy_evaluate (Some req) (Some res) = (status, Some res') \<and>
    policy_status res' = status \<and>
    policy_decision res' = (if status = ATARIX_POLICY_STATUS_OK
      then ATARIX_POLICY_DECISION_ALLOW else ATARIX_POLICY_DECISION_DENY) \<and>
    (status = ATARIX_POLICY_STATUS_OK \<longrightarrow> policy_matched res' = Some cap)"
    using Some by (simp add: atarix_policy_evaluate_def Let_def)
  then obtain status res' where r: "atarix_policy_evaluate (Some req) (Some res) = (status, Some res')"
    "policy_status res' = status"
    "policy_decision res' = (if status = ATARIX_POLICY_STATUS_OK
      then ATARIX_POLICY_DECISION_ALLOW else ATARIX_POLICY_DECISION_DENY)"
    "status = ATARIX_POLICY_STATUS_OK \<longrightarrow> policy_matched res' = Some cap"
    by blast
  from allowed [unfolded spec] same r Some show ?thesis by auto
qed

theorem policy_allows_exactly_witness:
  "fst (atarix_policy_evaluate (Some (sample_request ATARIX_RING_SERVICE 50 sample_capability
     \<lparr>capability := Some (sample_capability\<lparr>trust_requirement := 0, delegation_mask := 5, cap_reserved := 1\<rparr>)\<rparr>))
     (Some blank_result)) = ATARIX_POLICY_STATUS_OK"
proof -
  let ?req = "sample_request ATARIX_RING_SERVICE 50 sample_capability"
  have "capability ?req = Some sample_capability" by (simp add: sample_request_def)
  moreover have "fst (atarix_policy_evaluate (Some ?req) (Some blank_result)) = ATARIX_POLICY_STATUS_OK"
    by (simp add: policy_eval_defs)
  ultimately show ?thesis using policy_allows_exactly [of ?req blank_result] by (metis fst_conv)
qed

text \<open>
  C7. Delegation attenuates: along any chain of accepted delegations, a request the policy allows
  with the last capability from a ring other than FABRIC is also allowed with the first, unless the
  first has expired; the flags only shrink, and no capability of the chain carries supervisor
  authority.
\<close>

theorem delegation_attenuates:
  assumes "delegates\<^sup>+\<^sup>+ p c" "caller_ring req \<noteq> ATARIX_RING_FABRIC"
    "fst (atarix_policy_evaluate (Some (req\<lparr>capability := Some c\<rparr>)) (Some res))
      = ATARIX_POLICY_STATUS_OK"
  shows "fst (atarix_policy_evaluate (Some (req\<lparr>capability := Some p\<rparr>)) (Some res))
      = (if live req p then ATARIX_POLICY_STATUS_OK else ATARIX_POLICY_STATUS_EXPIRED) \<and>
    (\<forall>n. bit (cap_flags c) n \<longrightarrow> bit (cap_flags p) n) \<and>
    \<not> capability_uses_supervisor_authority p \<and> \<not> capability_uses_supervisor_authority c"
proof -
  from assms(1) have chain: "delegates\<^sup>*\<^sup>* p c" by (rule tranclp_into_rtranclp)
  from assms(1) obtain x y where "delegates p x" "delegates y c"
    by (metis tranclp.cases tranclpD)
  then have p: "well_formed_capability p" "\<not> capability_uses_supervisor_authority p"
    and c: "\<not> capability_uses_supervisor_authority c"
    by (auto simp: delegates_iff)
  from assms(3) have ok: "vouched req"
    "grants c (caller_ring req) (pr_target_handle req) (pr_operation_id req)"
    by (simp_all add: policy_status_iff vouched_def)
  with delegation.attenuates_chain [OF chain, of "(caller_ring req, pr_target_handle req, pr_operation_id req)"]
    assms(2) have g: "grants p (caller_ring req) (pr_target_handle req) (pr_operation_id req)" by simp
  have "live (req\<lparr>capability := Some p\<rparr>) p = live req p" "vouched (req\<lparr>capability := Some p\<rparr>) = vouched req"
    by (simp_all add: live_def vouched_def)
  then have "fst (atarix_policy_evaluate (Some (req\<lparr>capability := Some p\<rparr>)) (Some res))
      = (if live req p then ATARIX_POLICY_STATUS_OK else ATARIX_POLICY_STATUS_EXPIRED)"
    using p(1) ok g policy_checks_iff [of "req\<lparr>capability := Some p\<rparr>" p]
      live_iff [of "req\<lparr>capability := Some p\<rparr>" p]
    by (auto simp: atarix_policy_evaluate_def record_validate_iff policy_checks_def
        request_capability_revoked_def vouched_def and_flag_bit)
  with delegation_flags.attenuates_chain [OF chain] p(2) c show ?thesis by blast
qed

theorem delegation_attenuates_witness:
  "fst (atarix_policy_evaluate (Some (sample_request ATARIX_RING_SERVICE 200 sample_capability)) (Some blank_result))
     = ATARIX_POLICY_STATUS_EXPIRED"
proof -
  let ?c = "sample_capability\<lparr>cap_flags := 0x09, maximum_ring := ATARIX_RING_WIRE_SERVICE\<rparr>"
  let ?req = "sample_request ATARIX_RING_SERVICE 200 ?c"
  have "delegates\<^sup>+\<^sup>+ sample_capability ?c"
    by (rule tranclp.r_into_trancl) (simp add: delegates_def policy_eval_defs
        atarix_capability_delegation_validate_def capability_uses_supervisor_authority_def)
  moreover have "fst (atarix_policy_evaluate (Some (?req\<lparr>capability := Some ?c\<rparr>)) (Some blank_result))
      = ATARIX_POLICY_STATUS_OK"
    by (simp add: policy_eval_defs)
  moreover have "\<not> live ?req sample_capability"
    by (simp add: live_def sample_request_def sample_capability_def and_flag_bit [symmetric]
        bit_iff_odd_drop_bit)
  moreover have "sample_request ATARIX_RING_SERVICE 200 sample_capability
      = ?req\<lparr>capability := Some sample_capability\<rparr>"
    by (simp add: sample_request_def)
  ultimately show ?thesis
    using delegation_attenuates [of sample_capability ?c ?req blank_result]
    by (simp add: sample_request_def)
qed

text \<open>
  C33. The FABRIC exception is real, for every parent: a well-formed capability that may be delegated and
  whose range lies within KERNEL to APPLICATION may be delegated to the same capability with its lower
  bound moved to FABRIC; every request from the FABRIC ring that is otherwise in order is denied with the
  parent, for its ring, and allowed with that child.
\<close>

theorem delegation_escalates_to_fabric:
  assumes "well_formed_capability p" "bit (cap_flags p) 3" "0 \<le> sint (minimum_ring p)"
    and "child = p\<lparr>minimum_ring := ATARIX_RING_WIRE_FABRIC\<rparr>"
    and "vouched req" "live req p" "caller_ring req = ATARIX_RING_FABRIC" "pr_target_handle req = cap_target_handle p"
    and "atarix_capability_record_allows_operation (Some p) (pr_operation_id req)"
  shows "atarix_capability_delegation_validate (Some p) (Some child) = ATARIX_POLICY_STATUS_OK \<and>
    fst (atarix_policy_evaluate (Some (req\<lparr>capability := Some p\<rparr>)) (Some res)) = ATARIX_POLICY_STATUS_RING_DENIED \<and>
    fst (atarix_policy_evaluate (Some (req\<lparr>capability := Some child\<rparr>)) (Some res)) = ATARIX_POLICY_STATUS_OK"
proof -
  have low: "unat (minimum_ring p) < 2 ^ 15" using assms(3) u16_less [of "minimum_ring p"]
    by (auto simp: sint_u16 simp del: of_nat_unat split: if_splits)
  then have kernel: "minimum_ring p \<noteq> ATARIX_RING_WIRE_FABRIC" "minimum_ring p \<noteq> ATARIX_RING_WIRE_SUPERVISOR"
    by (auto simp: word_unat_eq_iff)
  with assms(1) have range: "minimum_ring p \<le> maximum_ring p" "maximum_ring p \<le> ATARIX_RING_WIRE_APPLICATION"
    by (simp_all add: well_formed_capability_def capability_ring_range_valid_def)
  then have high: "maximum_ring p \<noteq> ATARIX_RING_WIRE_SUPERVISOR" "\<not> 0xFFFF \<le> maximum_ring p"
    by (auto simp: word_le_nat_alt word_unat_eq_iff)
  have child: "well_formed_capability child"
    using assms(1,4) range by (simp add: well_formed_capability_def capability_ring_range_valid_def)
  have "delegates p child"
    unfolding delegates_iff using assms(1,2,4) child kernel high range
    by (simp add: capability_uses_supervisor_authority_def word_le_nat_alt)
  moreover have "\<not> ring_in_capability_range ATARIX_RING_FABRIC p"
    using kernel high by (simp add: ring_in_capability_range_def ring_to_wire_def atarix_ring_to_wire_def)
  with assms(1,5-9) have "policy_checks (req\<lparr>capability := Some p\<rparr>) p = ATARIX_POLICY_STATUS_RING_DENIED"
    using live_iff [of req p]
    by (auto simp: policy_checks_def vouched_def trust_is_usable_def request_capability_revoked_def and_flag_bit
        request_capability_expired_def split: if_splits)
  with assms(1) have "fst (atarix_policy_evaluate (Some (req\<lparr>capability := Some p\<rparr>)) (Some res))
      = ATARIX_POLICY_STATUS_RING_DENIED"
    by (simp add: atarix_policy_evaluate_def Let_def record_validate_iff)
  moreover have "grants child ATARIX_RING_FABRIC (pr_target_handle req) (pr_operation_id req)"
    using assms(4,8,9) by (simp add: grants_def allows_operation_iff ring_in_capability_range_def ring_to_wire_def
        atarix_ring_to_wire_def)
  with child assms(4-7) have "fst (atarix_policy_evaluate (Some (req\<lparr>capability := Some child\<rparr>)) (Some res))
      = ATARIX_POLICY_STATUS_OK"
    by (simp add: policy_status_iff vouched_def live_def)
  ultimately show ?thesis by (simp add: delegates_def)
qed

theorem delegation_escalates_to_fabric_witness:
  "fst (atarix_policy_evaluate (Some (sample_request ATARIX_RING_FABRIC 50
     (sample_capability\<lparr>minimum_ring := ATARIX_RING_WIRE_FABRIC\<rparr>))) (Some blank_result)) = ATARIX_POLICY_STATUS_OK"
proof -
  let ?req = "sample_request ATARIX_RING_FABRIC 50 sample_capability"
  have "well_formed_capability sample_capability" "bit (cap_flags sample_capability) 3"
    "0 \<le> sint (minimum_ring sample_capability)"
    by (simp_all add: well_formed_capability_def capability_ring_range_valid_def sample_capability_def
        bit_iff_odd_drop_bit)
  moreover have "vouched ?req" "live ?req sample_capability"
    "atarix_capability_record_allows_operation (Some sample_capability) (pr_operation_id ?req)"
    by (simp_all add: vouched_def live_def sample_request_def sample_capability_def
        atarix_capability_record_allows_operation_def)
  ultimately show ?thesis
    using delegation_escalates_to_fabric [of sample_capability _ ?req blank_result, OF _ _ _ refl]
    by (simp add: sample_request_def sample_capability_def)
qed

text \<open>
  C29. The evaluator decides by the first match: it stays inside the table and answers with the verdict
  of the first capability for the requested target and operation, and DENY with reason 3 when there is
  none; it allows exactly when that first match asks for no more trust than the requester has, admits
  the requester's ring and is not reserved for recovery.
\<close>

theorem evaluate_first_match:
  fixes ev :: atarix_capability_evaluation
  assumes "count \<le> length caps"
  shows "\<exists>ev'. atarix_capability_evaluate (Some caps) count (Some req) (Some ev) = Some (0, Some ev') \<and>
    ev' = first_match_evaluation req (take count caps) \<and>
    (decision ev' = ATARIX_DECISION_ALLOW \<longleftrightarrow>
      (\<exists>i < count. matches req (caps ! i) \<and> (\<forall>j < i. \<not> matches req (caps ! j)) \<and>
        trust_requirement (caps ! i) \<le> trust_level req \<and>
        ring_allows (minimum_ring (caps ! i)) (maximum_ring (caps ! i)) (requester_ring req) \<and>
        \<not> bit (cap_flags (caps ! i)) 7))"
proof (cases "find_index (matches req) (take count caps)")
  case None
  then have "\<forall>j < count. \<not> matches req (caps ! j)"
    using assms by (simp add: find_index_None)
  with None evaluate_eq [OF assms, of req ev] show ?thesis
    by (auto simp: first_match_evaluation_def)
next
  case (Some i)
  note f = find_index_Some [OF Some]
  then have only: "i' = i" if "i' < count" "matches req (caps ! i')" "\<forall>j < i'. \<not> matches req (caps ! j)" for i'
    using that assms by (metis length_take linorder_neqE_nat min.absorb2 nth_take)
  have "i < count" "matches req (caps ! i)" "\<forall>j < i. \<not> matches req (caps ! j)" "take count caps ! i = caps ! i"
    using f assms by simp_all
  then have ex: "(\<exists>k < count. matches req (caps ! k) \<and> (\<forall>j < k. \<not> matches req (caps ! j)) \<and> Q (caps ! k))
      \<longleftrightarrow> Q (caps ! i)" for Q
    using only by blast
  show ?thesis
    using evaluate_eq [OF assms, of req ev] Some \<open>take count caps ! i = caps ! i\<close>
      ex [of "\<lambda>cap. fst (verdict req cap) = ATARIX_DECISION_ALLOW"]
    by (simp add: first_match_evaluation_def verdict_allow_iff)
qed

theorem evaluate_first_match_witness:
  "\<exists>ev'. atarix_capability_evaluate (Some [sample_capability]) 1
      (Some \<lparr>rq_target_handle = 0x100, rq_operation_id = ATARIX_OPERATION_READ,
             requester_ring = ATARIX_RING_DRIVER, trust_level = ATARIX_TRUST_VALIDATED,
             rq_request_flags = 0\<rparr>)
      (Some \<lparr>decision = ATARIX_DECISION_ALLOW, matched_capability = None, reason_code = 0\<rparr>)
    = Some (0, Some ev') \<and> decision ev' = ATARIX_DECISION_RESTRICT"
  using evaluate_first_match [of 1 "[sample_capability]"
      "\<lparr>rq_target_handle = 0x100, rq_operation_id = ATARIX_OPERATION_READ,
        requester_ring = ATARIX_RING_DRIVER, trust_level = ATARIX_TRUST_VALIDATED,
        rq_request_flags = 0\<rparr>"
      "\<lparr>decision = ATARIX_DECISION_ALLOW, matched_capability = None, reason_code = 0\<rparr>"]
  by (simp add: first_match_evaluation_def find_index_def matches_def sample_capability_def verdict_def)

text \<open>The ring check of the evaluator is that of the policy, but for supervisors on FABRIC capabilities.\<close>

lemma ring_allows_iff:
  "ring_allows (minimum_ring cap) (maximum_ring cap) r \<longleftrightarrow> ring_in_capability_range r cap \<or>
     minimum_ring cap = ATARIX_RING_WIRE_FABRIC \<and> r = ATARIX_RING_SUPERVISOR"
  by (auto simp: ring_allows_def ring_in_capability_range_def ring_to_wire_def atarix_ring_to_wire_def)

lemma evaluate_first:
  fixes ev :: atarix_capability_evaluation
  assumes "count \<le> length caps" "i < count" "matches req (caps ! i)" "\<forall>j < i. \<not> matches req (caps ! j)"
  shows "atarix_capability_evaluate (Some caps) count (Some req) (Some ev) = Some (0, Some
    \<lparr>decision = fst (verdict req (caps ! i)), matched_capability = Some i,
     reason_code = snd (verdict req (caps ! i))\<rparr>)"
proof -
  have "find_index (matches req) (take count caps) = Some i"
  proof (cases "find_index (matches req) (take count caps)")
    case None
    with assms show ?thesis by (auto simp: find_index_None)
  next
    case (Some k)
    from find_index_Some [OF this] assms have "k < count" "matches req (caps ! k)" "\<forall>j < k. \<not> matches req (caps ! j)"
      by simp_all
    with assms Some show ?thesis by (metis linorder_neqE_nat)
  qed
  with assms show ?thesis by (simp add: evaluate_eq first_match_evaluation_def)
qed

text \<open>
  C28. The two engines compared. For one requester, target and operation, when the first matching
  capability of the table is one the policy engine allows the request with, the evaluator
  finds that capability and does not deny: it restricts when the trust level is below the requirement,
  reports a capability reserved for recovery, and allows otherwise. The evaluator alone is weaker, because it compares
  trust levels as numbers and REVOKED is the highest one: a requester whose trust has been revoked is
  allowed what a trusted requester is restricted from.
\<close>

theorem engines_compared:
  fixes ev :: atarix_capability_evaluation and res :: atarix_policy_result
  assumes "count \<le> length caps" "i < count" "\<forall>j < i. \<not> matches rq (caps ! j)"
    and "fst (atarix_policy_evaluate (Some (req\<lparr>capability := Some (caps ! i)\<rparr>)) (Some res))
      = ATARIX_POLICY_STATUS_OK"
    and "rq_target_handle rq = pr_target_handle req" "rq_operation_id rq = pr_operation_id req"
    and "requester_ring rq = caller_ring req"
  shows "(\<exists>ev'. atarix_capability_evaluate (Some caps) count (Some rq) (Some ev) = Some (0, Some ev') \<and>
      matched_capability ev' = Some i \<and>
      decision ev' = (if trust_level rq < trust_requirement (caps ! i) then ATARIX_DECISION_RESTRICT
        else if bit (cap_flags (caps ! i)) 7 then ATARIX_DECISION_RECOVERY_ONLY
        else ATARIX_DECISION_ALLOW)) \<and>
    (let probe = (\<lambda>trust. atarix_capability_evaluate (Some [sample_capability]) 1
       (Some \<lparr>rq_target_handle = 0x100, rq_operation_id = ATARIX_OPERATION_READ,
         requester_ring = ATARIX_RING_DRIVER, trust_level = trust, rq_request_flags = 0\<rparr>) (Some ev)) in
     (\<exists>ev'. probe ATARIX_TRUST_TRUSTED = Some (0, Some ev') \<and> decision ev' = ATARIX_DECISION_RESTRICT) \<and>
     (\<exists>ev'. probe ATARIX_TRUST_REVOKED = Some (0, Some ev') \<and> decision ev' = ATARIX_DECISION_ALLOW))"
proof (rule conjI)
  have "grants (caps ! i) (requester_ring rq) (rq_target_handle rq) (rq_operation_id rq)"
    using assms(4-7) by (auto simp: policy_status_iff)
  then have "matches rq (caps ! i)" "ring_allows (minimum_ring (caps ! i)) (maximum_ring (caps ! i)) (requester_ring rq)"
    by (auto simp: grants_def matches_def ring_allows_iff)
  with evaluate_first [OF assms(1,2) _ assms(3), of ev] show "\<exists>ev'.
      atarix_capability_evaluate (Some caps) count (Some rq) (Some ev) = Some (0, Some ev') \<and>
      matched_capability ev' = Some i \<and>
      decision ev' = (if trust_level rq < trust_requirement (caps ! i) then ATARIX_DECISION_RESTRICT
        else if bit (cap_flags (caps ! i)) 7 then ATARIX_DECISION_RECOVERY_ONLY
        else ATARIX_DECISION_ALLOW)"
    by (simp add: verdict_def)
qed (simp add: Let_def evaluate_eq first_match_evaluation_def find_index_def matches_def verdict_def
      sample_capability_def ring_allows_def atarix_ring_to_wire_def bit_iff_odd_drop_bit)

theorem engines_compared_witness:
  "\<exists>ev'. atarix_capability_evaluate (Some [sample_capability]) 1
      (Some \<lparr>rq_target_handle = 0x100, rq_operation_id = ATARIX_OPERATION_READ,
        requester_ring = ATARIX_RING_SERVICE, trust_level = ATARIX_TRUST_PRIVILEGED, rq_request_flags = 0\<rparr>)
      (Some \<lparr>decision = ATARIX_DECISION_DENY, matched_capability = None, reason_code = 9\<rparr>)
    = Some (0, Some ev') \<and> decision ev' = ATARIX_DECISION_ALLOW"
proof -
  let ?req = "sample_request ATARIX_RING_SERVICE 50 sample_capability"
  have "fst (atarix_policy_evaluate (Some (?req\<lparr>capability := Some ([sample_capability] ! 0)\<rparr>)) (Some blank_result))
      = ATARIX_POLICY_STATUS_OK"
    by (simp add: policy_eval_defs)
  from engines_compared [of 1 "[sample_capability]" 0 "\<lparr>rq_target_handle = 0x100,
        rq_operation_id = ATARIX_OPERATION_READ, requester_ring = ATARIX_RING_SERVICE,
        trust_level = ATARIX_TRUST_PRIVILEGED, rq_request_flags = 0\<rparr>", OF _ _ _ this,
      of "\<lparr>decision = ATARIX_DECISION_DENY, matched_capability = None, reason_code = 9\<rparr>", THEN conjunct1]
  show ?thesis by (auto simp: sample_request_def sample_capability_def bit_iff_odd_drop_bit)
qed

end
