(* ===== verification/Memory_Descriptor.thy ===== *)
theory Memory_Descriptor
  imports Packed_Struct
begin

text \<open>
  The memory movement descriptor: \<open>include/atarix/memory.h\<close> and \<open>src/memory.c\<close>. A descriptor names a
  movement between two objects; validation is a pure function of its fields.
\<close>

section \<open>Data\<close>

abbreviation ATARIX_MEMORY_DESCRIPTOR_MAGIC_V1 :: u32 where
  "ATARIX_MEMORY_DESCRIPTOR_MAGIC_V1 \<equiv> 0x584D454D"
abbreviation ATARIX_MEMORY_DESCRIPTOR_VERSION_V1 :: u16 where
  "ATARIX_MEMORY_DESCRIPTOR_VERSION_V1 \<equiv> 1"
abbreviation ATARIX_MEMORY_DESCRIPTOR_MAX_LENGTH_V1 :: u32 where
  "ATARIX_MEMORY_DESCRIPTOR_MAX_LENGTH_V1 \<equiv> 0x00100000"

datatype atarix_memory_status =
    ATARIX_MEMORY_STATUS_OK
  | ATARIX_MEMORY_STATUS_NULL_DESCRIPTOR
  | ATARIX_MEMORY_STATUS_BAD_MAGIC
  | ATARIX_MEMORY_STATUS_BAD_VERSION
  | ATARIX_MEMORY_STATUS_ZERO_LENGTH
  | ATARIX_MEMORY_STATUS_MISSING_CAPABILITY
  | ATARIX_MEMORY_STATUS_MISSING_SOURCE
  | ATARIX_MEMORY_STATUS_MISSING_DESTINATION
  | ATARIX_MEMORY_STATUS_BAD_FLAGS
  | ATARIX_MEMORY_STATUS_LENGTH_EXCEEDED

abbreviation ATARIX_MEMORY_MOVE_COPY :: u32 where "ATARIX_MEMORY_MOVE_COPY \<equiv> 0x01"
abbreviation ATARIX_MEMORY_MOVE_MOVE :: u32 where "ATARIX_MEMORY_MOVE_MOVE \<equiv> 0x02"
abbreviation ATARIX_MEMORY_MOVE_MAP :: u32 where "ATARIX_MEMORY_MOVE_MAP \<equiv> 0x04"
abbreviation ATARIX_MEMORY_MOVE_SHARE :: u32 where "ATARIX_MEMORY_MOVE_SHARE \<equiv> 0x08"
abbreviation ATARIX_MEMORY_MOVE_FABRIC :: u32 where "ATARIX_MEMORY_MOVE_FABRIC \<equiv> 0x10"
abbreviation ATARIX_MEMORY_MOVE_ZERO_COPY :: u32 where "ATARIX_MEMORY_MOVE_ZERO_COPY \<equiv> 0x20"

definition ATARIX_MEMORY_MOVE_FORM_MASK :: u32 where
  "ATARIX_MEMORY_MOVE_FORM_MASK =
     ATARIX_MEMORY_MOVE_COPY OR ATARIX_MEMORY_MOVE_MOVE OR ATARIX_MEMORY_MOVE_MAP OR
     ATARIX_MEMORY_MOVE_SHARE OR ATARIX_MEMORY_MOVE_FABRIC OR ATARIX_MEMORY_MOVE_ZERO_COPY"

record atarix_memory_descriptor_v1 =
  md_magic :: u32
  md_version :: u16
  md_reserved :: u16
  md_flags :: u32
  md_source_object :: u32
  md_source_offset :: u32
  md_destination_object :: u32
  md_destination_offset :: u32
  md_length :: u32
  md_capability_id :: u32
  md_generation :: u32
  md_audit_hint :: u32

definition atarix_memory_descriptor_v1_layout :: layout where
  "atarix_memory_descriptor_v1_layout =
     [(''magic'', 4), (''version'', 2), (''reserved'', 2), (''flags'', 4), (''source_object'', 4),
      (''source_offset'', 4), (''destination_object'', 4), (''destination_offset'', 4),
      (''length'', 4), (''capability_id'', 4), (''generation'', 4), (''audit_hint'', 4)]"

section \<open>Validation\<close>

definition atarix_memory_exactly_one_move_form :: "u32 \<Rightarrow> bool" where
  "atarix_memory_exactly_one_move_form flags =
     (let forms = flags AND ATARIX_MEMORY_MOVE_FORM_MASK in
      forms \<noteq> 0 \<and> forms AND (forms - 1) = 0 \<and> flags AND NOT ATARIX_MEMORY_MOVE_FORM_MASK = 0)"

definition atarix_memory_descriptor_validate ::
  "atarix_memory_descriptor_v1 option \<Rightarrow> atarix_memory_status" where
  "atarix_memory_descriptor_validate descriptor =
     (case descriptor of
        None \<Rightarrow> ATARIX_MEMORY_STATUS_NULL_DESCRIPTOR
      | Some d \<Rightarrow>
          if md_magic d \<noteq> ATARIX_MEMORY_DESCRIPTOR_MAGIC_V1 then ATARIX_MEMORY_STATUS_BAD_MAGIC
          else if md_version d \<noteq> ATARIX_MEMORY_DESCRIPTOR_VERSION_V1
          then ATARIX_MEMORY_STATUS_BAD_VERSION
          else if md_length d = 0 then ATARIX_MEMORY_STATUS_ZERO_LENGTH
          else if md_length d > ATARIX_MEMORY_DESCRIPTOR_MAX_LENGTH_V1
          then ATARIX_MEMORY_STATUS_LENGTH_EXCEEDED
          else if md_capability_id d = 0 then ATARIX_MEMORY_STATUS_MISSING_CAPABILITY
          else if md_source_object d = 0 then ATARIX_MEMORY_STATUS_MISSING_SOURCE
          else if md_destination_object d = 0 then ATARIX_MEMORY_STATUS_MISSING_DESTINATION
          else if \<not> atarix_memory_exactly_one_move_form (md_flags d)
          then ATARIX_MEMORY_STATUS_BAD_FLAGS
          else ATARIX_MEMORY_STATUS_OK)"

definition atarix_validate_descriptor ::
  "atarix_memory_descriptor_v1 option \<Rightarrow> atarix_memory_status" where
  "atarix_validate_descriptor descriptor = atarix_memory_descriptor_validate descriptor"

section \<open>Lemmas\<close>

lemma form_mask: "ATARIX_MEMORY_MOVE_FORM_MASK = mask 6"
  by (simp add: ATARIX_MEMORY_MOVE_FORM_MASK_def mask_eq_exp_minus_1)

lemma memory_descriptor_size: "size_of atarix_memory_descriptor_v1_layout = 44"
  by (simp add: atarix_memory_descriptor_v1_layout_def size_of_def)

text \<open>Clearing the lowest set bit: \<open>w & (w - 1)\<close> is zero exactly when at most one bit is set.\<close>

lemma and_minus_one_power_of_two: "(2 :: 'a::len word) ^ n AND (2 ^ n - 1) = 0"
  unfolding mask_eq_exp_minus_1 [symmetric]
  by (rule bit_word_eqI) (auto simp: bit_simps)

lemma and_minus_one_low_bit:
  fixes w :: "'a::len word"
  assumes "bit w m" "\<forall>k < m. \<not> bit w k" "bit w n" "m < n"
  shows "bit (w AND (w - 1)) n"
proof -
  define h where "h = w AND NOT (mask (Suc m))"
  have w: "w = h + 2 ^ m"
  proof -
    have "w = h OR 2 ^ m"
      by (rule bit_word_eqI) (use assms in \<open>auto simp: bit_simps h_def less_Suc_eq not_less\<close>)
    moreover have "h AND 2 ^ m = 0"
      by (rule bit_word_eqI) (auto simp: bit_simps h_def)
    ultimately show ?thesis by (simp add: disjunctive_add_eq_or)
  qed
  have "h AND mask m = 0" by (rule bit_word_eqI) (auto simp: bit_simps h_def)
  then have "w - 1 = h OR mask m"
    by (simp add: w flip: disjunctive_add_eq_or) (simp add: mask_eq_exp_minus_1)
  then have "bit (w - 1) n"
    using assms bit_imp_le_length [of w n] by (simp add: h_def bit_simps)
  with assms show ?thesis by (simp add: bit_simps)
qed

lemma single_bit_iff:
  fixes w :: "'a::len word"
  shows "w \<noteq> 0 \<and> w AND (w - 1) = 0 \<longleftrightarrow> (\<exists>n < LENGTH('a). w = 2 ^ n)"
proof
  assume "w \<noteq> 0 \<and> w AND (w - 1) = 0"
  then have ne: "w \<noteq> 0" and z: "w AND (w - 1) = 0" by simp_all
  from ne obtain b where "bit w b" by (auto simp: bit_eq_iff)
  define m where "m = (LEAST b. bit w b)"
  have m: "bit w m" and low: "\<forall>k < m. \<not> bit w k"
    unfolding m_def using \<open>bit w b\<close> by (auto intro: LeastI dest: not_less_Least)
  have only: "n = m" if "bit w n" for n
  proof (rule ccontr)
    assume "n \<noteq> m"
    with that low have "m < n" by (metis linorder_neqE_nat)
    with and_minus_one_low_bit [OF m low that] z show False by simp
  qed
  have "w = 2 ^ m"
  proof (rule bit_word_eqI)
    fix n :: nat
    assume "n < LENGTH('a)"
    moreover have "bit w n \<longleftrightarrow> n = m" using m only by blast
    ultimately show "bit w n = bit (2 ^ m :: 'a word) n" by (simp add: bit_exp_iff)
  qed
  then show "\<exists>n < LENGTH('a). w = 2 ^ n" using m bit_imp_le_length by blast
next
  assume "\<exists>n < LENGTH('a). w = 2 ^ n"
  then show "w \<noteq> 0 \<and> w AND (w - 1) = 0"
    by (auto simp: and_minus_one_power_of_two)
qed

lemma exactly_one_form_iff:
  "atarix_memory_exactly_one_move_form flags \<longleftrightarrow> (\<exists>n < 6. flags = 2 ^ n)"
proof
  assume one: "atarix_memory_exactly_one_move_form flags"
  then have "flags AND NOT (mask 6) = 0"
    by (simp add: atarix_memory_exactly_one_move_form_def form_mask Let_def)
  then have in_mask: "n < 6" if "bit flags n" for n
    using that by (metis bit_0_eq bit_and_iff bit_not_iff bit_mask_iff bot_apply bot_bool_def
        bit_imp_possible_bit)
  have "flags AND mask 6 = flags"
    by (rule bit_word_eqI) (auto simp: bit_simps dest: in_mask)
  with one obtain n where n: "flags = 2 ^ n" "n < 32"
    using single_bit_iff [of flags]
    by (auto simp: atarix_memory_exactly_one_move_form_def form_mask Let_def)
  with in_mask [of n] show "\<exists>n < 6. flags = 2 ^ n" by (auto simp: bit_simps)
next
  assume "\<exists>n < 6. flags = 2 ^ n"
  then obtain n where n: "n < 6" "flags = 2 ^ n" by blast
  then have "flags AND mask 6 = flags" "flags AND NOT (mask 6) = 0"
    by (auto simp: bit_simps intro!: bit_word_eqI)
  moreover from n have "\<exists>n < LENGTH(32). flags = 2 ^ n" by (intro exI [of _ n]) simp
  ultimately show "atarix_memory_exactly_one_move_form flags"
    using single_bit_iff [of flags]
    by (simp add: atarix_memory_exactly_one_move_form_def form_mask Let_def)
qed

section \<open>Properties\<close>

text \<open>
  C36. A descriptor is valid exactly when it carries the magic and version, a length between 1 and
  1 MiB, a capability, a source and a destination, and exactly one of the six move forms and no other
  flag; the bit trick of the code decides the last condition. The compatibility entry point agrees.
\<close>

theorem memory_descriptor_valid_iff:
  "(atarix_memory_descriptor_validate (Some d) = ATARIX_MEMORY_STATUS_OK \<longleftrightarrow>
     md_magic d = ATARIX_MEMORY_DESCRIPTOR_MAGIC_V1 \<and> md_version d = 1 \<and>
     1 \<le> unat (md_length d) \<and> unat (md_length d) \<le> 2 ^ 20 \<and>
     md_capability_id d \<noteq> 0 \<and> md_source_object d \<noteq> 0 \<and> md_destination_object d \<noteq> 0 \<and>
     md_flags d \<in> {ATARIX_MEMORY_MOVE_COPY, ATARIX_MEMORY_MOVE_MOVE, ATARIX_MEMORY_MOVE_MAP,
       ATARIX_MEMORY_MOVE_SHARE, ATARIX_MEMORY_MOVE_FABRIC, ATARIX_MEMORY_MOVE_ZERO_COPY}) \<and>
   atarix_validate_descriptor (Some d) = atarix_memory_descriptor_validate (Some d)"
proof -
  have "(\<exists>n < 6. P n) \<longleftrightarrow> P 0 \<or> P 1 \<or> P 2 \<or> P 3 \<or> P 4 \<or> P 5" for P :: "nat \<Rightarrow> bool"
    by (simp add: numeral_eq_Suc less_Suc_eq ex_disj_distrib conj_disj_distribR)
  from this [of "\<lambda>n. flags = 2 ^ n" for flags :: u32]
  have forms: "(\<exists>n < 6. flags = 2 ^ n) \<longleftrightarrow> flags \<in> {1, 2, 4, 8, 16, 32}" for flags :: u32
    by simp
  have len: "1 \<le> unat w \<longleftrightarrow> w \<noteq> 0" for w :: u32
    by (simp add: Suc_le_eq unat_gt_0)
  show ?thesis
    unfolding len
    by (auto simp: atarix_memory_descriptor_validate_def atarix_validate_descriptor_def
        exactly_one_form_iff forms word_less_nat_alt not_less)
qed

end
