(* ===== verification/Crc.thy ===== *)
theory Crc
  imports Le_Bytes
begin

text \<open>
  The checksum routines. The sources hold five bitwise CRC-32 loops: \<open>crc32c\<close> of the BIB
  builder, \<open>crc32c_with_zeroed_field\<close> of the BIB reader, \<open>crc32_update\<close> under
  \<open>atarix_mailbox_crc32\<close>, \<open>atarix_crc32_iso_hdlc\<close> of the discovery validator and
  \<open>crc32_iso_hdlc\<close> of the image tool. Each is translated as it is written (the loops read one
  checked byte at a time), then related to one reference, \<open>crc_bytes\<close>.

  The locale \<open>reflected_crc\<close> holds what every reflected CRC-32 with a polynomial of degree 32
  guarantees: one bit step is linear and injective, so the checksum tells apart any two messages
  that differ only inside one window of up to four bytes. It is interpreted on the two
  polynomials of the sources, once for every spelling of the bit step.
\<close>

section \<open>One bit step, in the three spellings of the sources\<close>

abbreviation CRC32_POLY :: u32 where
  "CRC32_POLY \<equiv> 0xEDB88320"

abbreviation CRC32C_POLY :: u32 where
  "CRC32C_POLY \<equiv> 0x82F63B78"

definition crc32c_bit :: "u32 \<Rightarrow> u32" where
  "crc32c_bit crc = drop_bit 1 crc XOR (if crc AND 1 \<noteq> 0 then 0x82F63B78 else 0)"

definition mailbox_crc_bit :: "u32 \<Rightarrow> u32" where
  "mailbox_crc_bit crc =
     (if crc AND 1 \<noteq> 0 then drop_bit 1 crc XOR 0xEDB88320 else drop_bit 1 crc)"

definition hdlc_crc_bit :: "u32 \<Rightarrow> u32" where
  "hdlc_crc_bit crc =
     (let mask = 0 - (crc AND 1) in drop_bit 1 crc XOR (0xEDB88320 AND mask))"

section \<open>The loops\<close>

text \<open>\<open>src/bib/bib_builder.c\<close>\<close>

function crc32c_loop :: "bytes \<Rightarrow> nat \<Rightarrow> nat \<Rightarrow> u32 \<Rightarrow> u32 option" where
  "crc32c_loop data n i crc =
     (if i < n
      then do {
        b \<leftarrow> load8 data i;
        crc32c_loop data n (i + 1) ((crc32c_bit ^^ 8) (crc XOR ucast b))
      }
      else Some crc)"
  by pat_completeness auto
termination
  by (relation "measure (\<lambda>(data, n, i, crc). n - i)") auto

definition crc32c :: "bytes \<Rightarrow> nat \<Rightarrow> u32 option" where
  "crc32c data n = do {
     crc \<leftarrow> crc32c_loop data n 0 UINT32_MAX;
     Some (crc XOR UINT32_MAX)
   }"

text \<open>\<open>src/bib/bib_reader.c\<close>: the bytes 20 to 23 count as zero.\<close>

function crc32c_zeroed_loop :: "bytes \<Rightarrow> nat \<Rightarrow> nat \<Rightarrow> u32 \<Rightarrow> u32 option" where
  "crc32c_zeroed_loop data n i crc =
     (if i < n
      then do {
        byte \<leftarrow> (if i \<ge> 20 \<and> i < 24 then Some 0 else load8 data i);
        crc32c_zeroed_loop data n (i + 1) ((crc32c_bit ^^ 8) (crc XOR ucast byte))
      }
      else Some crc)"
  by pat_completeness auto
termination
  by (relation "measure (\<lambda>(data, n, i, crc). n - i)") auto

definition crc32c_with_zeroed_field :: "bytes \<Rightarrow> u32 \<Rightarrow> u32 option" where
  "crc32c_with_zeroed_field data len = do {
     crc \<leftarrow> crc32c_zeroed_loop data (unat len) 0 UINT32_MAX;
     Some (crc XOR UINT32_MAX)
   }"

text \<open>\<open>src/mailbox/mailbox.c\<close>\<close>

function crc32_update_loop :: "bytes \<Rightarrow> nat \<Rightarrow> nat \<Rightarrow> u32 \<Rightarrow> u32 option" where
  "crc32_update_loop data n i crc =
     (if i < n
      then do {
        b \<leftarrow> load8 data i;
        crc32_update_loop data n (i + 1) ((mailbox_crc_bit ^^ 8) (crc XOR ucast b))
      }
      else Some crc)"
  by pat_completeness auto
termination
  by (relation "measure (\<lambda>(data, n, i, crc). n - i)") auto

definition crc32_update :: "u32 \<Rightarrow> bytes \<Rightarrow> nat \<Rightarrow> u32 option" where
  "crc32_update crc data n = crc32_update_loop data n 0 crc"

text \<open>A \<open>NULL\<close> pointer with length 0 is never dereferenced: the loop does not run.\<close>

definition atarix_mailbox_crc32 :: "bytes option \<Rightarrow> nat \<Rightarrow> u32 option" where
  "atarix_mailbox_crc32 data n =
     (case data of
        None \<Rightarrow> (if n \<noteq> 0 then Some 0 else Some (UINT32_MAX XOR 0xFFFFFFFF))
      | Some d \<Rightarrow> do {
          crc \<leftarrow> crc32_update 0xFFFFFFFF d n;
          Some (crc XOR 0xFFFFFFFF)
        })"

text \<open>\<open>src/discovery/discovery_validate.c\<close>\<close>

function hdlc_loop :: "bytes \<Rightarrow> nat \<Rightarrow> nat \<Rightarrow> u32 \<Rightarrow> u32 option" where
  "hdlc_loop data n i crc =
     (if i < n
      then do {
        b \<leftarrow> load8 data i;
        hdlc_loop data n (i + 1) ((hdlc_crc_bit ^^ 8) (crc XOR ucast b))
      }
      else Some crc)"
  by pat_completeness auto
termination
  by (relation "measure (\<lambda>(data, n, i, crc). n - i)") auto

definition atarix_crc32_iso_hdlc :: "bytes \<Rightarrow> nat \<Rightarrow> u32 option" where
  "atarix_crc32_iso_hdlc data n = do {
     crc \<leftarrow> hdlc_loop data n 0 0xFFFFFFFF;
     Some (NOT crc)
   }"

text \<open>\<open>tools/mkdiscovery/mkdiscovery.c\<close>: the byte is widened before it is used.\<close>

definition mkdiscovery_crc_bit :: "u32 \<Rightarrow> u32" where
  "mkdiscovery_crc_bit crc =
     (let mask = 0 - (crc AND 1) in drop_bit 1 crc XOR (0xEDB88320 AND mask))"

function mkdiscovery_crc_loop :: "bytes \<Rightarrow> nat \<Rightarrow> nat \<Rightarrow> u32 \<Rightarrow> u32 option" where
  "mkdiscovery_crc_loop data n i crc =
     (if i < n
      then do {
        b \<leftarrow> load8 data i;
        let byte = (ucast b :: u32);
        let crc = crc XOR byte;
        mkdiscovery_crc_loop data n (i + 1) ((mkdiscovery_crc_bit ^^ 8) crc)
      }
      else Some crc)"
  by pat_completeness auto
termination
  by (relation "measure (\<lambda>(data, n, i, crc). n - i)") auto

definition crc32_iso_hdlc :: "bytes \<Rightarrow> nat \<Rightarrow> u32 option" where
  "crc32_iso_hdlc data n = do {
     crc \<leftarrow> mkdiscovery_crc_loop data n 0 0xFFFFFFFF;
     Some (NOT crc)
   }"

declare crc32c_loop.simps [simp del] crc32c_zeroed_loop.simps [simp del]
  crc32_update_loop.simps [simp del] hdlc_loop.simps [simp del] mkdiscovery_crc_loop.simps [simp del]

section \<open>The reference\<close>

definition crc_bytes :: "(u32 \<Rightarrow> u32) \<Rightarrow> bytes \<Rightarrow> u32 \<Rightarrow> u32" where
  "crc_bytes step bs s = foldl (\<lambda>s b. (step ^^ 8) (s XOR ucast b)) s bs"

definition crc_of :: "(u32 \<Rightarrow> u32) \<Rightarrow> bytes \<Rightarrow> u32" where
  "crc_of step bs = crc_bytes step bs UINT32_MAX XOR UINT32_MAX"

lemma crc_bytes_simps [simp]:
  "crc_bytes step [] s = s"
  "crc_bytes step (b # bs) s = crc_bytes step bs ((step ^^ 8) (s XOR ucast b))"
  by (simp_all add: crc_bytes_def)

lemma crc_bytes_append:
  "crc_bytes step (as @ bs) s = crc_bytes step bs (crc_bytes step as s)"
  by (simp add: crc_bytes_def)

section \<open>What a reflected CRC-32 guarantees\<close>

lemma funpow_8: "(f ^^ 8) x = f (f (f (f (f (f (f (f x)))))))"
  by (simp add: numeral_eq_Suc)

text \<open>The little-endian number of a byte string of at most four bytes.\<close>

fun le_word :: "bytes \<Rightarrow> u32" where
  "le_word [] = 0"
| "le_word (b # bs) = ucast b OR push_bit 8 (le_word bs)"

lemma bit_le_word_beyond: "8 * length bs \<le> n \<Longrightarrow> \<not> bit (le_word bs) n"
  by (induction bs arbitrary: n) (auto simp: bit_simps bit_word_beyond)

lemma le_word_inj:
  "\<lbrakk>length xs = length ys; length xs \<le> 4; le_word xs = le_word ys\<rbrakk> \<Longrightarrow> xs = ys"
proof (induction xs ys rule: list_induct2)
  case Nil
  then show ?case by simp
next
  case (Cons x xs y ys)
  have eq: "bit (ucast x OR push_bit 8 (le_word xs)) n = bit (ucast y OR push_bit 8 (le_word ys)) n"
    for n using Cons.prems(2) by simp
  have "x = y"
  proof (rule bit_word_eqI)
    fix n :: nat
    assume "n < LENGTH(8)"
    then show "bit x n = bit y n" using eq [of n] by (simp add: bit_simps)
  qed
  moreover have "le_word xs = le_word ys"
  proof (rule bit_word_eqI)
    fix n :: nat
    assume n: "n < LENGTH(32)"
    show "bit (le_word xs) n = bit (le_word ys) n"
    proof (cases "n < 24")
      case True
      then show ?thesis using eq [of "n + 8"] by (simp add: bit_simps bit_word_beyond)
    next
      case False
      then show ?thesis
        using Cons.prems(1) Cons.hyps bit_le_word_beyond [of xs n] bit_le_word_beyond [of ys n] by simp
    qed
  qed
  ultimately show ?case using Cons.IH Cons.prems(1) by simp
qed

locale reflected_crc =
  fixes poly :: u32
    and step :: "u32 \<Rightarrow> u32"
  assumes step_eq: "step c = drop_bit 1 c XOR (if bit c 0 then poly else 0)"
    and poly_top: "bit poly 31"
begin

lemma step_xor: "step (a XOR b) = step a XOR step b"
  by (rule bit_word_eqI) (auto simp: step_eq bit_simps)

lemma step_inj: "step a = step b \<longleftrightarrow> a = b"
proof
  assume eq: "step a = step b"
  have top: "bit (step c) 31 \<longleftrightarrow> bit c 0" for c
    using poly_top by (auto simp: step_eq bit_simps bit_word_beyond)
  then have b0: "bit a 0 = bit b 0" using eq by metis
  with eq have "drop_bit 1 a = drop_bit 1 b"
    by (auto simp: step_eq split: if_splits)
  then have rest: "bit a (Suc n) = bit b (Suc n)" for n
    by (metis bit_drop_bit_eq comp_apply plus_1_eq_Suc)
  show "a = b"
  proof (rule bit_word_eqI)
    fix n :: nat
    show "bit a n = bit b n" using b0 rest by (cases n) auto
  qed
qed simp

lemma steps_inj: "(step ^^ n) a = (step ^^ n) b \<longleftrightarrow> a = b"
  by (induction n) (simp_all add: step_inj)

lemma steps_xor: "(step ^^ n) (a XOR b) = (step ^^ n) a XOR (step ^^ n) b"
  by (induction n) (simp_all add: step_xor)

text \<open>Zero low bits are only shifted out.\<close>

lemma steps_push_bit: "(\<And>i. 32 - n \<le> i \<Longrightarrow> \<not> bit w i) \<Longrightarrow> (step ^^ n) (push_bit n w) = w"
proof (induction n arbitrary: w)
  case 0
  then show ?case by simp
next
  case (Suc n)
  have "step (push_bit (Suc n) w) = push_bit n w"
  proof (rule bit_word_eqI)
    fix m :: nat
    assume "m < LENGTH(32)"
    then show "bit (step (push_bit (Suc n) w)) m \<longleftrightarrow> bit (push_bit n w) m"
      using Suc.prems [of "m - n"]
      by (cases "m = 31") (auto simp: step_eq bit_simps bit_word_beyond simp del: push_bit_Suc)
  qed
  moreover have "(step ^^ n) (push_bit n w) = w"
    using Suc.prems by (intro Suc.IH) auto
  ultimately show ?case by (simp add: funpow_Suc_right del: funpow.simps)
qed

lemma crc_bytes_inj: "crc_bytes step bs a = crc_bytes step bs b \<longleftrightarrow> a = b"
  by (induction bs arbitrary: a b) (simp_all add: steps_inj)

text \<open>Up to four bytes enter the register as one word.\<close>

lemma crc_bytes_word:
  "length bs \<le> 4 \<Longrightarrow> crc_bytes step bs s = (step ^^ (8 * length bs)) (s XOR le_word bs)"
proof (induction bs arbitrary: s)
  case Nil
  then show ?case by simp
next
  case (Cons b bs)
  have shift: "(step ^^ 8) (push_bit 8 (le_word bs)) = le_word bs"
    using Cons.prems by (intro steps_push_bit) (auto simp: bit_le_word_beyond)
  have or: "ucast b OR push_bit 8 (le_word bs) = ucast b XOR push_bit 8 (le_word bs)"
    by (rule bit_word_eqI) (auto simp: bit_simps bit_word_beyond)
  have "crc_bytes step (b # bs) s
      = (step ^^ (8 * length bs)) ((step ^^ 8) (s XOR ucast b) XOR le_word bs)"
    using Cons.IH Cons.prems by simp
  also have "\<dots> = (step ^^ (8 * length bs)) ((step ^^ 8) (s XOR ucast b XOR push_bit 8 (le_word bs)))"
    by (simp only: steps_xor shift xor.assoc)
  also have "\<dots> = (step ^^ (8 * length bs + 8)) (s XOR le_word (b # bs))"
    by (simp only: funpow_add comp_apply le_word.simps or xor.assoc)
  finally show ?case by (simp add: add.commute)
qed

text \<open>A change inside a window of at most four bytes always changes the checksum.\<close>

lemma burst_detected:
  assumes "length xs = length ys" "length xs \<le> 4" "xs \<noteq> ys"
  shows "crc_of step (pre @ xs @ post) \<noteq> crc_of step (pre @ ys @ post)"
proof
  let ?s = "crc_bytes step pre UINT32_MAX"
  assume "crc_of step (pre @ xs @ post) = crc_of step (pre @ ys @ post)"
  then have "crc_bytes step xs ?s = crc_bytes step ys ?s"
    by (simp add: crc_of_def crc_bytes_append crc_bytes_inj)
  then have "le_word xs = le_word ys"
    using assms(1,2) by (simp add: crc_bytes_word steps_inj)
  with assms show False using le_word_inj by blast
qed

end

lemma and_1_neq_0: "(c :: u32) AND 1 \<noteq> 0 \<longleftrightarrow> bit c 0"
  by (simp add: bit_0 and_one_eq mod_2_eq_odd)

lemma mailbox_crc_bit_eq:
  "mailbox_crc_bit c = drop_bit 1 c XOR (if bit c 0 then CRC32_POLY else 0)"
  by (simp add: mailbox_crc_bit_def and_1_neq_0)

lemma hdlc_crc_bit_eq: "hdlc_crc_bit = mailbox_crc_bit" "mkdiscovery_crc_bit = mailbox_crc_bit"
proof -
  have "c AND 1 = (if bit c 0 then 1 else 0)" for c :: u32
    by (simp add: bit_0 and_one_eq mod_2_eq_odd)
  then show "hdlc_crc_bit = mailbox_crc_bit" "mkdiscovery_crc_bit = mailbox_crc_bit"
    by (simp_all add: fun_eq_iff hdlc_crc_bit_def mkdiscovery_crc_bit_def mailbox_crc_bit_eq)
qed

interpretation iso: reflected_crc CRC32_POLY mailbox_crc_bit
  by unfold_locales (simp_all add: mailbox_crc_bit_eq)

interpretation castagnoli: reflected_crc CRC32C_POLY crc32c_bit
  by unfold_locales (simp_all add: crc32c_bit_def and_1_neq_0)

section \<open>The loops compute the reference\<close>

lemma take_drop_Suc: "i < n \<Longrightarrow> n \<le> length xs \<Longrightarrow>
    take (n - i) (drop i xs) = xs ! i # take (n - Suc i) (drop (Suc i) xs)"
  by (simp add: Cons_nth_drop_Suc [symmetric] Suc_diff_Suc [symmetric])

lemma crc32c_loop_eq:
  "n \<le> length data \<Longrightarrow>
    crc32c_loop data n i crc = Some (crc_bytes crc32c_bit (take (n - i) (drop i data)) crc)"
  by (induction data n i crc rule: crc32c_loop.induct)
     (subst crc32c_loop.simps, simp add: c_mem take_drop_Suc)

lemma crc32_update_loop_eq:
  "n \<le> length data \<Longrightarrow>
    crc32_update_loop data n i crc
      = Some (crc_bytes mailbox_crc_bit (take (n - i) (drop i data)) crc)"
  by (induction data n i crc rule: crc32_update_loop.induct)
     (subst crc32_update_loop.simps, simp add: c_mem take_drop_Suc)

lemma hdlc_loop_eq:
  "n \<le> length data \<Longrightarrow>
    hdlc_loop data n i crc = Some (crc_bytes mailbox_crc_bit (take (n - i) (drop i data)) crc)"
  by (induction data n i crc rule: hdlc_loop.induct)
     (subst hdlc_loop.simps, simp add: c_mem take_drop_Suc hdlc_crc_bit_eq)

lemma mkdiscovery_crc_loop_eq:
  "n \<le> length data \<Longrightarrow>
    mkdiscovery_crc_loop data n i crc = Some (crc_bytes mailbox_crc_bit (take (n - i) (drop i data)) crc)"
  by (induction data n i crc rule: mkdiscovery_crc_loop.induct)
     (subst mkdiscovery_crc_loop.simps, simp add: c_mem take_drop_Suc hdlc_crc_bit_eq)

text \<open>The bytes the reader's variant sees.\<close>

definition zeroed_field :: "bytes \<Rightarrow> bytes" where
  "zeroed_field p = map (\<lambda>i. if 20 \<le> i \<and> i < 24 then 0 else p ! i) [0..<length p]"

lemma length_zeroed_field [simp]: "length (zeroed_field p) = length p"
  by (simp add: zeroed_field_def)

lemma zeroed_field_eq: "24 \<le> length p \<Longrightarrow> zeroed_field p = overwrite p 20 (replicate 4 0)"
  by (intro overwrite_eq_nthI) (auto simp: zeroed_field_def)

lemma crc32c_zeroed_loop_eq:
  "n \<le> length data \<Longrightarrow>
    crc32c_zeroed_loop data n i crc
      = Some (crc_bytes crc32c_bit (take (n - i) (drop i (zeroed_field data))) crc)"
proof (induction data n i crc rule: crc32c_zeroed_loop.induct)
  case (1 data n i crc)
  show ?case
  proof (cases "i < n")
    case True
    then have byte: "(if i \<ge> 20 \<and> i < 24 then Some 0 else load8 data i) = Some (zeroed_field data ! i)"
      using "1.prems" by (simp add: c_mem zeroed_field_def)
    with True "1.prems" show ?thesis
      using "1.IH" [OF True byte "1.prems"]
      by (subst crc32c_zeroed_loop.simps) (simp add: take_drop_Suc)
  next
    case False
    then show ?thesis by (subst crc32c_zeroed_loop.simps) simp
  qed
qed

lemma crc32c_eq: "n \<le> length data \<Longrightarrow> crc32c data n = Some (crc_of crc32c_bit (take n data))"
  by (simp add: crc32c_def crc32c_loop_eq crc_of_def)

lemma crc32c_with_zeroed_field_eq:
  "unat n \<le> length data \<Longrightarrow>
    crc32c_with_zeroed_field data n = Some (crc_of crc32c_bit (take (unat n) (zeroed_field data)))"
  by (simp add: crc32c_with_zeroed_field_def crc32c_zeroed_loop_eq crc_of_def)

lemma atarix_mailbox_crc32_eq:
  "n \<le> length d \<Longrightarrow>
    atarix_mailbox_crc32 (Some d) n = Some (crc_of mailbox_crc_bit (take n d))"
  by (simp add: atarix_mailbox_crc32_def crc32_update_def crc32_update_loop_eq crc_of_def)

lemma NOT_eq_XOR_max: "NOT (w :: u32) = w XOR UINT32_MAX"
proof -
  have "UINT32_MAX = - 1" by simp
  then show ?thesis by (simp only:) (rule bit_word_eqI, simp add: bit_simps)
qed

lemma atarix_crc32_iso_hdlc_eq:
  "n \<le> length d \<Longrightarrow> atarix_crc32_iso_hdlc d n = Some (crc_of mailbox_crc_bit (take n d))"
  by (simp add: atarix_crc32_iso_hdlc_def hdlc_loop_eq crc_of_def NOT_eq_XOR_max)

lemma crc32_iso_hdlc_eq:
  "n \<le> length d \<Longrightarrow> crc32_iso_hdlc d n = Some (crc_of mailbox_crc_bit (take n d))"
  by (simp add: crc32_iso_hdlc_def mkdiscovery_crc_loop_eq crc_of_def NOT_eq_XOR_max)

end
