(* ===== verification/Mailbox.thy ===== *)
theory Mailbox
  imports Crc Packed_Struct Ring_Model
begin

text \<open>
  The mailbox protocol: \<open>include/atarix/mailbox.h\<close> and \<open>src/mailbox/mailbox.c\<close>. A header is the
  struct as a record; a payload pointer is the byte list it may access, or \<open>None\<close> for \<open>NULL\<close>.

  A built header validates with its payload and rejects every payload that differs in one window of at
  most four bytes; the sequence window accepts exactly a run of consecutive numbers; the ring check is
  a \<open>ring_gate\<close>.
\<close>

section \<open>Data\<close>

abbreviation ATARIX_MAILBOX_MAGIC_V1 :: u32 where "ATARIX_MAILBOX_MAGIC_V1 \<equiv> 0x58424D41"
abbreviation ATARIX_MAILBOX_HEADER_SIZE_V1 :: nat where "ATARIX_MAILBOX_HEADER_SIZE_V1 \<equiv> 16"
abbreviation ATARIX_MAILBOX_MAX_PAYLOAD_V1 :: u16 where "ATARIX_MAILBOX_MAX_PAYLOAD_V1 \<equiv> 4096"

datatype atarix_mailbox_status =
    ATARIX_MAILBOX_STATUS_OK
  | ATARIX_MAILBOX_STATUS_NULL
  | ATARIX_MAILBOX_STATUS_INVALID_HEADER
  | ATARIX_MAILBOX_STATUS_INVALID_LENGTH
  | ATARIX_MAILBOX_STATUS_CRC_MISMATCH
  | ATARIX_MAILBOX_STATUS_SEQUENCE_ERROR
  | ATARIX_MAILBOX_STATUS_DUPLICATE
  | ATARIX_MAILBOX_STATUS_OUT_OF_ORDER
  | ATARIX_MAILBOX_STATUS_UNKNOWN_TYPE
  | ATARIX_MAILBOX_STATUS_RING_DENIED
  | ATARIX_MAILBOX_STATUS_POLICY_DENIED
  | ATARIX_MAILBOX_STATUS_CAPABILITY_DENIED
  | ATARIX_MAILBOX_STATUS_QUARANTINED
  | ATARIX_MAILBOX_STATUS_BUSY
  | ATARIX_MAILBOX_STATUS_TIMEOUT

abbreviation ATARIX_MAILBOX_MESSAGE_PING :: u16 where "ATARIX_MAILBOX_MESSAGE_PING \<equiv> 0x0001"
abbreviation ATARIX_MAILBOX_MESSAGE_PONG :: u16 where "ATARIX_MAILBOX_MESSAGE_PONG \<equiv> 0x0002"
abbreviation ATARIX_MAILBOX_MESSAGE_VERSION_QUERY :: u16 where
  "ATARIX_MAILBOX_MESSAGE_VERSION_QUERY \<equiv> 0x0003"
abbreviation ATARIX_MAILBOX_MESSAGE_VERSION_REPLY :: u16 where
  "ATARIX_MAILBOX_MESSAGE_VERSION_REPLY \<equiv> 0x0004"
abbreviation ATARIX_MAILBOX_MESSAGE_STATUS_QUERY :: u16 where
  "ATARIX_MAILBOX_MESSAGE_STATUS_QUERY \<equiv> 0x0005"
abbreviation ATARIX_MAILBOX_MESSAGE_STATUS_REPLY :: u16 where
  "ATARIX_MAILBOX_MESSAGE_STATUS_REPLY \<equiv> 0x0006"
abbreviation ATARIX_MAILBOX_MESSAGE_READ_REGISTER :: u16 where
  "ATARIX_MAILBOX_MESSAGE_READ_REGISTER \<equiv> 0x0007"
abbreviation ATARIX_MAILBOX_MESSAGE_WRITE_REGISTER :: u16 where
  "ATARIX_MAILBOX_MESSAGE_WRITE_REGISTER \<equiv> 0x0008"
abbreviation ATARIX_MAILBOX_MESSAGE_RESET_REQUEST :: u16 where
  "ATARIX_MAILBOX_MESSAGE_RESET_REQUEST \<equiv> 0x0009"
abbreviation ATARIX_MAILBOX_MESSAGE_FAULT_REPORT :: u16 where
  "ATARIX_MAILBOX_MESSAGE_FAULT_REPORT \<equiv> 0x000A"
abbreviation ATARIX_MAILBOX_MESSAGE_DISCOVERY_RECORD_PUSH :: u16 where
  "ATARIX_MAILBOX_MESSAGE_DISCOVERY_RECORD_PUSH \<equiv> 0x000B"
abbreviation ATARIX_MAILBOX_MESSAGE_CAPABILITY_EVALUATE :: u16 where
  "ATARIX_MAILBOX_MESSAGE_CAPABILITY_EVALUATE \<equiv> 0x000C"
abbreviation ATARIX_MAILBOX_MESSAGE_INDEX_QUERY :: u16 where
  "ATARIX_MAILBOX_MESSAGE_INDEX_QUERY \<equiv> 0x0020"
abbreviation ATARIX_MAILBOX_MESSAGE_INDEX_MUTATE :: u16 where
  "ATARIX_MAILBOX_MESSAGE_INDEX_MUTATE \<equiv> 0x0021"
abbreviation ATARIX_MAILBOX_MESSAGE_INDEX_RECOVER :: u16 where
  "ATARIX_MAILBOX_MESSAGE_INDEX_RECOVER \<equiv> 0x0022"
abbreviation ATARIX_MAILBOX_MESSAGE_INDEX_STATUS :: u16 where
  "ATARIX_MAILBOX_MESSAGE_INDEX_STATUS \<equiv> 0x0023"

record atarix_mailbox_header_v1 =
  mh_magic :: u32
  mh_type :: u16
  mh_length :: u16
  mh_sequence :: u32
  mh_crc32 :: u32

definition atarix_mailbox_header_v1_layout :: layout where
  "atarix_mailbox_header_v1_layout =
     [(''magic'', 4), (''type'', 2), (''length'', 2), (''sequence'', 4), (''crc32'', 4)]"

record atarix_mailbox_sequence_window =
  last_sequence :: u32
  initialized :: int

section \<open>Operations\<close>

definition atarix_mailbox_message_type_known :: "u16 \<Rightarrow> bool" where
  "atarix_mailbox_message_type_known type \<longleftrightarrow>
     type = ATARIX_MAILBOX_MESSAGE_PING \<or> type = ATARIX_MAILBOX_MESSAGE_PONG \<or>
     type = ATARIX_MAILBOX_MESSAGE_VERSION_QUERY \<or> type = ATARIX_MAILBOX_MESSAGE_VERSION_REPLY \<or>
     type = ATARIX_MAILBOX_MESSAGE_STATUS_QUERY \<or> type = ATARIX_MAILBOX_MESSAGE_STATUS_REPLY \<or>
     type = ATARIX_MAILBOX_MESSAGE_READ_REGISTER \<or> type = ATARIX_MAILBOX_MESSAGE_WRITE_REGISTER \<or>
     type = ATARIX_MAILBOX_MESSAGE_RESET_REQUEST \<or> type = ATARIX_MAILBOX_MESSAGE_FAULT_REPORT \<or>
     type = ATARIX_MAILBOX_MESSAGE_DISCOVERY_RECORD_PUSH \<or>
     type = ATARIX_MAILBOX_MESSAGE_CAPABILITY_EVALUATE"

definition atarix_mailbox_build_header ::
  "atarix_mailbox_header_v1 option \<Rightarrow> u16 \<Rightarrow> u32 \<Rightarrow> bytes option \<Rightarrow> u16
    \<Rightarrow> (atarix_mailbox_status \<times> atarix_mailbox_header_v1 option) option" where
  "atarix_mailbox_build_header header type sequence payload payload_length =
     (case header of
        None \<Rightarrow> Some (ATARIX_MAILBOX_STATUS_NULL, None)
      | Some h \<Rightarrow>
          if payload = None \<and> payload_length \<noteq> 0 then Some (ATARIX_MAILBOX_STATUS_NULL, Some h)
          else if \<not> atarix_mailbox_message_type_known type
          then Some (ATARIX_MAILBOX_STATUS_UNKNOWN_TYPE, Some h)
          else if payload_length > ATARIX_MAILBOX_MAX_PAYLOAD_V1
          then Some (ATARIX_MAILBOX_STATUS_INVALID_LENGTH, Some h)
          else do {
            crc \<leftarrow> atarix_mailbox_crc32 payload (unat payload_length);
            Some (ATARIX_MAILBOX_STATUS_OK,
                  Some (h\<lparr>mh_magic := ATARIX_MAILBOX_MAGIC_V1, mh_type := type,
                          mh_length := payload_length, mh_sequence := sequence, mh_crc32 := crc\<rparr>))
          })"

definition atarix_mailbox_validate_header ::
  "atarix_mailbox_header_v1 option \<Rightarrow> bytes option \<Rightarrow> nat \<Rightarrow> atarix_mailbox_status option" where
  "atarix_mailbox_validate_header header payload payload_length =
     (case header of
        None \<Rightarrow> Some ATARIX_MAILBOX_STATUS_NULL
      | Some h \<Rightarrow>
          if payload = None \<and> payload_length \<noteq> 0 then Some ATARIX_MAILBOX_STATUS_NULL
          else if mh_magic h \<noteq> ATARIX_MAILBOX_MAGIC_V1
          then Some ATARIX_MAILBOX_STATUS_INVALID_HEADER
          else if \<not> atarix_mailbox_message_type_known (mh_type h)
          then Some ATARIX_MAILBOX_STATUS_UNKNOWN_TYPE
          else if mh_length h > ATARIX_MAILBOX_MAX_PAYLOAD_V1 \<or> unat (mh_length h) \<noteq> payload_length
          then Some ATARIX_MAILBOX_STATUS_INVALID_LENGTH
          else do {
            crc \<leftarrow> atarix_mailbox_crc32 payload payload_length;
            if crc \<noteq> mh_crc32 h then Some ATARIX_MAILBOX_STATUS_CRC_MISMATCH
            else Some ATARIX_MAILBOX_STATUS_OK
          })"

definition atarix_mailbox_sequence_accept ::
  "atarix_mailbox_sequence_window option \<Rightarrow> u32
    \<Rightarrow> atarix_mailbox_status \<times> atarix_mailbox_sequence_window option" where
  "atarix_mailbox_sequence_accept window sequence =
     (case window of
        None \<Rightarrow> (ATARIX_MAILBOX_STATUS_NULL, None)
      | Some w \<Rightarrow>
          if initialized w = 0
          then (ATARIX_MAILBOX_STATUS_OK, Some (w\<lparr>last_sequence := sequence, initialized := 1\<rparr>))
          else if sequence = last_sequence w then (ATARIX_MAILBOX_STATUS_DUPLICATE, Some w)
          else if sequence < last_sequence w then (ATARIX_MAILBOX_STATUS_OUT_OF_ORDER, Some w)
          else if sequence \<noteq> last_sequence w + 1 then (ATARIX_MAILBOX_STATUS_SEQUENCE_ERROR, Some w)
          else (ATARIX_MAILBOX_STATUS_OK, Some (w\<lparr>last_sequence := sequence\<rparr>)))"

definition atarix_mailbox_ring_authorize ::
  "atarix_ring \<Rightarrow> atarix_ring \<Rightarrow> u16 \<Rightarrow> atarix_mailbox_status" where
  "atarix_mailbox_ring_authorize source_ring target_ring message_type =
     (if \<not> atarix_mailbox_message_type_known message_type then ATARIX_MAILBOX_STATUS_UNKNOWN_TYPE
      else if atarix_ring_can_access source_ring target_ring ATARIX_RING_OPERATION_REQUEST
              \<noteq> ATARIX_RING_STATUS_ALLOW
      then ATARIX_MAILBOX_STATUS_RING_DENIED
      else ATARIX_MAILBOX_STATUS_OK)"

section \<open>Headers\<close>

text \<open>The bytes of a payload pointer; \<open>NULL\<close> has none.\<close>

definition payload_bytes :: "bytes option \<Rightarrow> bytes" where
  "payload_bytes p = (case p of None \<Rightarrow> [] | Some d \<Rightarrow> d)"

lemma mailbox_crc_eq:
  "n \<le> length (payload_bytes p) \<Longrightarrow>
    atarix_mailbox_crc32 p n = Some (crc_of mailbox_crc_bit (take n (payload_bytes p)))"
  by (cases p) (simp_all add: payload_bytes_def atarix_mailbox_crc32_eq, simp add: atarix_mailbox_crc32_def crc_of_def)

lemma build_header_ok:
  assumes "atarix_mailbox_message_type_known type" "n \<le> ATARIX_MAILBOX_MAX_PAYLOAD_V1"
    "unat n \<le> length (payload_bytes p)"
  shows "atarix_mailbox_build_header (Some h) type sequence p n =
    Some (ATARIX_MAILBOX_STATUS_OK,
      Some (h\<lparr>mh_magic := ATARIX_MAILBOX_MAGIC_V1, mh_type := type, mh_length := n,
              mh_sequence := sequence, mh_crc32 := crc_of mailbox_crc_bit (take (unat n) (payload_bytes p))\<rparr>))"
  using assms mailbox_crc_eq [OF assms(3)]
  by (cases p) (auto simp: atarix_mailbox_build_header_def payload_bytes_def unat_eq_zero)

lemma validate_header_iff:
  assumes "n \<le> length (payload_bytes p)"
  shows "\<exists>status. atarix_mailbox_validate_header (Some h) p n = Some status \<and>
    (status = ATARIX_MAILBOX_STATUS_OK \<longleftrightarrow>
      mh_magic h = ATARIX_MAILBOX_MAGIC_V1 \<and> atarix_mailbox_message_type_known (mh_type h) \<and>
      n \<le> 4096 \<and> unat (mh_length h) = n \<and>
      mh_crc32 h = crc_of mailbox_crc_bit (take n (payload_bytes p)))"
  using assms mailbox_crc_eq [OF assms]
  by (auto simp: atarix_mailbox_validate_header_def payload_bytes_def word_less_nat_alt)

section \<open>The sequence window\<close>

text \<open>The numbers a window accepts out of a stream, in order, and the window at the end.\<close>

fun accept_stream ::
  "atarix_mailbox_sequence_window \<Rightarrow> u32 list \<Rightarrow> u32 list \<times> atarix_mailbox_sequence_window" where
  "accept_stream w [] = ([], w)"
| "accept_stream w (s # ss) =
     (case atarix_mailbox_sequence_accept (Some w) s of
        (status, w') \<Rightarrow>
          (case accept_stream (the w') ss of
             (acc, w'') \<Rightarrow> (if status = ATARIX_MAILBOX_STATUS_OK then s # acc else acc, w'')))"

lemma accept_initialized:
  assumes "initialized w \<noteq> 0"
  shows "atarix_mailbox_sequence_accept (Some w) s = (status, Some w') \<Longrightarrow>
    initialized w' = initialized w \<and>
    (if status = ATARIX_MAILBOX_STATUS_OK
     then last_sequence w' = s \<and> unat s = Suc (unat (last_sequence w)) else w' = w)"
proof -
  have succ: "unat (last_sequence w + 1) = Suc (unat (last_sequence w))"
    if "\<not> last_sequence w + 1 < last_sequence w" "last_sequence w + 1 \<noteq> last_sequence w"
  proof -
    have "last_sequence w + 1 \<noteq> 0" using that by (metis word_gt_0)
    then show ?thesis using unatSuc [of "last_sequence w"] by (simp add: add.commute)
  qed
  assume "atarix_mailbox_sequence_accept (Some w) s = (status, Some w')"
  then show ?thesis
    using assms succ by (auto simp: atarix_mailbox_sequence_accept_def split: if_splits)
qed


lemma accept_Some: "\<exists>status w'. atarix_mailbox_sequence_accept (Some w) s = (status, Some w')"
  by (simp add: atarix_mailbox_sequence_accept_def)

lemma accept_stream_run:
  "initialized w \<noteq> 0 \<Longrightarrow> accept_stream w ss = (acc, w') \<Longrightarrow>
    map unat acc = [Suc (unat (last_sequence w))..<Suc (unat (last_sequence w)) + length acc] \<and>
    initialized w' = initialized w \<and>
    unat (last_sequence w') = unat (last_sequence w) + length acc"
proof (induction ss arbitrary: w acc)
  case Nil
  then show ?case by simp
next
  case (Cons s ss)
  obtain status w1 where a: "atarix_mailbox_sequence_accept (Some w) s = (status, Some w1)"
    using accept_Some by blast
  obtain acc1 where r: "accept_stream w1 ss = (acc1, w')"
    using Cons.prems(2) by (auto simp: a split: prod.splits if_splits)
  note one = accept_initialized [OF Cons.prems(1) a]
  have ih: "map unat acc1 = [Suc (unat (last_sequence w1))..<Suc (unat (last_sequence w1)) + length acc1]"
    "initialized w' = initialized w" "unat (last_sequence w') = unat (last_sequence w1) + length acc1"
    using Cons.IH [OF _ r] one Cons.prems(1) by auto
  show ?case
  proof (cases "status = ATARIX_MAILBOX_STATUS_OK")
    case True
    with one have s: "last_sequence w1 = s" "unat s = Suc (unat (last_sequence w))" by simp_all
    from True Cons.prems(2) have "acc = s # acc1" by (simp add: a r)
    with s ih show ?thesis by (simp add: upt_rec)
  next
    case False
    with one have "w1 = w" by simp
    moreover from False Cons.prems(2) have "acc = acc1" by (simp add: a r)
    ultimately show ?thesis using ih by blast
  qed
qed

lemma accept_in_order:
  assumes "initialized w \<noteq> 0" "last_sequence w \<noteq> UINT32_MAX"
  shows "atarix_mailbox_sequence_accept (Some w) (last_sequence w + 1)
    = (ATARIX_MAILBOX_STATUS_OK, Some (w\<lparr>last_sequence := last_sequence w + 1\<rparr>))"
proof -
  have "last_sequence w + 1 \<noteq> 0"
  proof
    assume "last_sequence w + 1 = 0"
    then have "last_sequence w = - 1" by (simp add: eq_neg_iff_add_eq_0)
    with assms(2) show False by simp
  qed
  then have "unat (last_sequence w + 1) = Suc (unat (last_sequence w))"
    using unatSuc [of "last_sequence w"] by (simp add: add.commute)
  then show ?thesis
    using assms(1) by (auto simp: atarix_mailbox_sequence_accept_def word_less_nat_alt)
qed

section \<open>The ring check\<close>

interpretation mailbox: ring_gate
    "\<lambda>r t. atarix_mailbox_ring_authorize r t message_type = ATARIX_MAILBOX_STATUS_OK" for message_type
proof unfold_locales
  note simps = atarix_mailbox_ring_authorize_def
  fix r t u :: atarix_ring
  show "atarix_mailbox_ring_authorize r t message_type = ATARIX_MAILBOX_STATUS_OK \<Longrightarrow> r \<le> t"
    by (auto simp: simps dest: access.gate_down split: if_splits)
  show "atarix_mailbox_ring_authorize ATARIX_RING_QUARANTINE t message_type \<noteq> ATARIX_MAILBOX_STATUS_OK"
    using access.gate_quarantine by (simp add: simps)
  show "atarix_mailbox_ring_authorize r ATARIX_RING_QUARANTINE message_type = ATARIX_MAILBOX_STATUS_OK \<Longrightarrow>
      r = ATARIX_RING_SUPERVISOR"
    by (auto simp: simps dest: access.gate_into_quarantine split: if_splits)
  show "atarix_mailbox_ring_authorize r t message_type = ATARIX_MAILBOX_STATUS_OK \<Longrightarrow>
      atarix_mailbox_ring_authorize t u message_type = ATARIX_MAILBOX_STATUS_OK \<Longrightarrow>
      atarix_mailbox_ring_authorize r u message_type = ATARIX_MAILBOX_STATUS_OK"
    by (auto simp: simps dest: access.gate_trans split: if_splits)
qed


section \<open>Properties\<close>

text \<open>
  C12. A header validates exactly with the payload it was built for: building a header for a known type
  and a payload of up to 4096 bytes succeeds and the result validates with that payload; validation
  accepts a header only with the magic, a known type, the true length and the payload's checksum; and
  when any window of up to four bytes of the payload is changed on the way, validation reports
  CRC_MISMATCH.
\<close>

theorem mailbox_header_round_trip:
  assumes "atarix_mailbox_message_type_known type" "length (pre @ xs @ post) \<le> 4096"
    "length ys = length xs" "length xs \<le> 4"
  shows "\<exists>h'. atarix_mailbox_build_header (Some h) type sequence (Some (pre @ xs @ post))
        (of_nat (length (pre @ xs @ post))) = Some (ATARIX_MAILBOX_STATUS_OK, Some h') \<and>
    mh_sequence h' = sequence \<and> mh_type h' = type \<and>
    atarix_mailbox_validate_header (Some h') (Some (pre @ ys @ post)) (length (pre @ ys @ post)) =
      Some (if ys = xs then ATARIX_MAILBOX_STATUS_OK else ATARIX_MAILBOX_STATUS_CRC_MISMATCH) \<and>
    (\<forall>h2 n. n \<le> length (pre @ xs @ post) \<longrightarrow>
      (atarix_mailbox_validate_header (Some h2) (Some (pre @ xs @ post)) n = Some ATARIX_MAILBOX_STATUS_OK \<longrightarrow>
        mh_magic h2 = ATARIX_MAILBOX_MAGIC_V1 \<and> atarix_mailbox_message_type_known (mh_type h2) \<and>
        unat (mh_length h2) = n \<and> mh_crc32 h2 = crc_of mailbox_crc_bit (take n (pre @ xs @ post))))"
proof -
  let ?p = "pre @ xs @ post" and ?q = "pre @ ys @ post"
  let ?n = "of_nat (length ?p) :: u16"
  have n: "unat ?n = length ?p" using assms(2) by (simp add: unat_of_nat_small del: of_nat_add length_append)
  with assms(2) have le: "?n \<le> 4096" by (simp add: word_le_nat_alt del: of_nat_add)
  have len: "length ?q = length ?p" using assms(3) by simp
  have crc: "crc_of mailbox_crc_bit ?q = crc_of mailbox_crc_bit ?p \<longleftrightarrow> ys = xs"
    using iso.burst_detected [of ys xs pre post] assms(3,4) by auto
  have "atarix_mailbox_build_header (Some h) type sequence (Some ?p) ?n = Some (ATARIX_MAILBOX_STATUS_OK,
      Some (h\<lparr>mh_magic := ATARIX_MAILBOX_MAGIC_V1, mh_type := type, mh_length := ?n,
              mh_sequence := sequence, mh_crc32 := crc_of mailbox_crc_bit ?p\<rparr>))"
    using build_header_ok [OF assms(1) le, of "Some ?p" h sequence] n by (simp add: payload_bytes_def)
  moreover have "atarix_mailbox_crc32 (Some ?q) (length ?q) = Some (crc_of mailbox_crc_bit ?q)"
    using atarix_mailbox_crc32_eq [of "length ?q" ?q] by simp
  ultimately have "\<exists>h'. atarix_mailbox_build_header (Some h) type sequence (Some ?p) ?n
        = Some (ATARIX_MAILBOX_STATUS_OK, Some h') \<and> mh_sequence h' = sequence \<and> mh_type h' = type \<and>
      atarix_mailbox_validate_header (Some h') (Some ?q) (length ?q) =
        Some (if ys = xs then ATARIX_MAILBOX_STATUS_OK else ATARIX_MAILBOX_STATUS_CRC_MISMATCH)"
    using assms(1) n le len crc
    by (simp add: atarix_mailbox_validate_header_def not_less del: of_nat_add length_append)
  moreover have "mh_magic h2 = ATARIX_MAILBOX_MAGIC_V1 \<and> atarix_mailbox_message_type_known (mh_type h2) \<and>
      unat (mh_length h2) = m \<and> mh_crc32 h2 = crc_of mailbox_crc_bit (take m ?p)"
    if "m \<le> length ?p" "atarix_mailbox_validate_header (Some h2) (Some ?p) m = Some ATARIX_MAILBOX_STATUS_OK"
    for h2 m
    using validate_header_iff [of m "Some ?p" h2] that by (simp add: payload_bytes_def)
  ultimately show ?thesis by blast
qed

theorem mailbox_header_round_trip_witness:
  "\<exists>h'. atarix_mailbox_build_header
        (Some \<lparr>mh_magic = 0, mh_type = 0, mh_length = 0, mh_sequence = 0, mh_crc32 = 0\<rparr>)
        ATARIX_MAILBOX_MESSAGE_PING 7 (Some [1, 2, 3]) 3 = Some (ATARIX_MAILBOX_STATUS_OK, Some h') \<and>
    atarix_mailbox_validate_header (Some h') (Some [1, 9, 3]) 3 = Some ATARIX_MAILBOX_STATUS_CRC_MISMATCH"
  using mailbox_header_round_trip [of ATARIX_MAILBOX_MESSAGE_PING "[1]" "[2]" "[3]" "[9]"
      "\<lparr>mh_magic = 0, mh_type = 0, mh_length = 0, mh_sequence = 0, mh_crc32 = 0\<rparr>" 7]
  by (auto simp: atarix_mailbox_message_type_known_def numeral_3_eq_3)

text \<open>
  C21. Validation is memory safe and exact: with a payload of at least the stated length it returns, and
  it returns OK exactly for a header with the magic, a known message type, a length field equal to the
  payload's length and at most 4096, and the payload's checksum.
\<close>

theorem mailbox_validate_exact:
  assumes "n \<le> length payload"
  shows "\<exists>status. atarix_mailbox_validate_header (Some h) (Some payload) n = Some status \<and>
    (status = ATARIX_MAILBOX_STATUS_OK \<longleftrightarrow>
      mh_magic h = ATARIX_MAILBOX_MAGIC_V1 \<and> atarix_mailbox_message_type_known (mh_type h) \<and>
      n \<le> 4096 \<and> unat (mh_length h) = n \<and>
      mh_crc32 h = crc_of mailbox_crc_bit (take n payload))"
  using validate_header_iff [of n "Some payload" h] assms by (simp add: payload_bytes_def)

theorem mailbox_validate_exact_witness:
  "\<exists>status. atarix_mailbox_validate_header
      (Some \<lparr>mh_magic = ATARIX_MAILBOX_MAGIC_V1, mh_type = 0x20, mh_length = 1, mh_sequence = 0, mh_crc32 = 0\<rparr>)
      (Some [7]) 1 = Some status \<and> status \<noteq> ATARIX_MAILBOX_STATUS_OK"
  using mailbox_validate_exact [of 1 "[7]"
      "\<lparr>mh_magic = ATARIX_MAILBOX_MAGIC_V1, mh_type = 0x20, mh_length = 1, mh_sequence = 0, mh_crc32 = 0\<rparr>"]
  by (auto simp: atarix_mailbox_message_type_known_def)

text \<open>
  C18. The sequence window accepts exactly a run: out of any stream, a fresh window accepts the first
  number and from then on only the immediate successors, without wrap-around, so that no number is
  ever accepted twice and the accepted numbers are consecutive and in order.
\<close>

theorem sequence_window_run:
  assumes "initialized w = 0" "accept_stream w (s # ss) = (acc, w')"
  shows "map unat acc = [unat s..<unat s + length acc] \<and> acc \<noteq> [] \<and> distinct acc \<and>
    initialized w' = 1 \<and> last_sequence w' = last acc"
proof -
  let ?w = "w\<lparr>last_sequence := s, initialized := 1\<rparr>"
  have "atarix_mailbox_sequence_accept (Some w) s = (ATARIX_MAILBOX_STATUS_OK, Some ?w)"
    using assms(1) by (simp add: atarix_mailbox_sequence_accept_def)
  with assms(2) obtain acc1 where acc: "acc = s # acc1" and r: "accept_stream ?w ss = (acc1, w')"
    by (auto split: prod.splits)
  have run: "map unat acc1 = [Suc (unat s)..<Suc (unat s) + length acc1]" "initialized w' = 1"
    "unat (last_sequence w') = unat s + length acc1"
    using accept_stream_run [OF _ r] by simp_all
  have all: "map unat acc = [unat s..<unat s + length acc]"
    using run(1) acc by (simp add: upt_rec)
  then have "distinct (map unat acc)" by simp
  then have "distinct acc" by (simp add: distinct_map)
  moreover have "unat (last acc) = last (map unat acc)" using acc by (simp add: last_map)
  then have "unat (last acc) = unat (last_sequence w')"
    unfolding all run(3) using acc by (simp add: last_upt)
  then have "last_sequence w' = last acc" by (simp add: word_unat_eq_iff)
  ultimately show ?thesis using all acc run(2) by simp
qed

theorem sequence_window_run_witness:
  "fst (accept_stream \<lparr>last_sequence = 0, initialized = 0\<rparr> [5, 5, 6, 8, 4, 7]) = [5, 6, 7] \<and>
   distinct (fst (accept_stream \<lparr>last_sequence = 0, initialized = 0\<rparr> [5, 5, 6, 8, 4, 7]))"
proof -
  have e: "accept_stream \<lparr>last_sequence = 0, initialized = 0\<rparr> [5, 5, 6, 8, 4, 7]
      = ([5, 6, 7], \<lparr>last_sequence = 7, initialized = 1\<rparr>)"
    by (simp add: atarix_mailbox_sequence_accept_def)
  have "distinct [5, 6, 7 :: u32]"
    using sequence_window_run [OF _ e] by simp
  with e show ?thesis by simp
qed

text \<open>
  C19. The window makes progress until it wedges: it accepts the successor of the last number as long as
  that is below the largest 32-bit number, and after the largest number it accepts nothing any more.
\<close>

theorem sequence_window_wedges:
  assumes "initialized w \<noteq> 0"
  shows "if last_sequence w = UINT32_MAX
    then \<forall>s. fst (atarix_mailbox_sequence_accept (Some w) s) \<noteq> ATARIX_MAILBOX_STATUS_OK
    else atarix_mailbox_sequence_accept (Some w) (last_sequence w + 1)
      = (ATARIX_MAILBOX_STATUS_OK, Some (w\<lparr>last_sequence := last_sequence w + 1\<rparr>))"
proof (cases "last_sequence w = UINT32_MAX")
  case True
  have "fst (atarix_mailbox_sequence_accept (Some w) s) \<noteq> ATARIX_MAILBOX_STATUS_OK" for s
  proof
    obtain status w' where a: "atarix_mailbox_sequence_accept (Some w) s = (status, Some w')"
      using accept_Some by blast
    assume "fst (atarix_mailbox_sequence_accept (Some w) s) = ATARIX_MAILBOX_STATUS_OK"
    with accept_initialized [OF assms a] a True have "unat s = 2 ^ 32" by simp
    moreover have "unat s < 2 ^ LENGTH(32)" by (rule unsigned_less)
    ultimately show False by simp
  qed
  with True show ?thesis by simp
next
  case False
  with accept_in_order [OF assms] show ?thesis by simp
qed

theorem sequence_window_wedges_witness:
  "fst (atarix_mailbox_sequence_accept (Some \<lparr>last_sequence = UINT32_MAX, initialized = 1\<rparr>) 0)
    \<noteq> ATARIX_MAILBOX_STATUS_OK"
  using sequence_window_wedges [of "\<lparr>last_sequence = UINT32_MAX, initialized = 1\<rparr>"] by simp

text \<open>
  C20. Messages flow down the ring order only: a message authorised from one ring to another, directly
  or relayed through any chain of rings, goes to the same or a less privileged ring, never starts in quarantine, and enters quarantine only from the
  supervisor; messages of unknown type are never authorised.
\<close>

theorem mailbox_ring_flow:
  assumes "(\<lambda>r t. atarix_mailbox_ring_authorize r t message_type = ATARIX_MAILBOX_STATUS_OK)\<^sup>+\<^sup>+ r t"
  shows "atarix_mailbox_ring_authorize r t message_type = ATARIX_MAILBOX_STATUS_OK \<and> r \<le> t \<and>
    r \<noteq> ATARIX_RING_QUARANTINE \<and> (t = ATARIX_RING_QUARANTINE \<longrightarrow> r = ATARIX_RING_SUPERVISOR) \<and>
    atarix_mailbox_message_type_known message_type"
proof -
  from assms have g: "atarix_mailbox_ring_authorize r t message_type = ATARIX_MAILBOX_STATUS_OK"
    by (rule mailbox.chain_gate)
  moreover from g have "r \<le> t" by (rule mailbox.gate_down)
  moreover from g have "r \<noteq> ATARIX_RING_QUARANTINE" using mailbox.gate_quarantine by blast
  moreover have "t = ATARIX_RING_QUARANTINE \<longrightarrow> r = ATARIX_RING_SUPERVISOR"
    using g mailbox.gate_into_quarantine by blast
  ultimately show ?thesis
    by (simp add: atarix_mailbox_ring_authorize_def split: if_splits)
qed

theorem mailbox_ring_flow_witness:
  "atarix_mailbox_ring_authorize ATARIX_RING_SUPERVISOR ATARIX_RING_SERVICE ATARIX_MAILBOX_MESSAGE_PING
     = ATARIX_MAILBOX_STATUS_OK"
proof -
  have "(\<lambda>r t. atarix_mailbox_ring_authorize r t ATARIX_MAILBOX_MESSAGE_PING = ATARIX_MAILBOX_STATUS_OK)\<^sup>+\<^sup>+
      ATARIX_RING_SUPERVISOR ATARIX_RING_SERVICE"
    by (rule tranclp.trancl_into_trancl [OF tranclp.r_into_trancl [of _ _ ATARIX_RING_KERNEL]])
       (simp_all add: atarix_mailbox_ring_authorize_def atarix_mailbox_message_type_known_def ring_defs)
  from mailbox_ring_flow [OF this] show ?thesis by blast
qed

end
