(* ===== verification/Platform_Records.thy ===== *)
theory Platform_Records
  imports Packed_Struct
begin

text \<open>
  Binary records of the platform that other components only store or transmit:
  \<open>include/atarix/identity_eeprom.h\<close>, \<open>include/atarix/directory.h\<close> and \<open>include/atarix/index.h\<close>.
  Each header declares a packed layout, enumerations and a few predicates. The layouts are compared
  with the offset tables of \<open>docs/identity-eeprom-v1.md\<close> and \<open>docs/service-directory-format-v1.md\<close>.
\<close>

section \<open>Identity EEPROM\<close>

abbreviation ATARIX_IDENTITY_MAGIC_ATIX :: u32 where "ATARIX_IDENTITY_MAGIC_ATIX \<equiv> 0x58495441"
abbreviation ATARIX_IDENTITY_FORMAT_VERSION_V1 :: u16 where "ATARIX_IDENTITY_FORMAT_VERSION_V1 \<equiv> 1"
abbreviation ATARIX_IDENTITY_BLOCK_SIZE_V1 :: nat where "ATARIX_IDENTITY_BLOCK_SIZE_V1 \<equiv> 512"
abbreviation ATARIX_FACTORY_TEST_SIGNATURE_NONE :: u64 where "ATARIX_FACTORY_TEST_SIGNATURE_NONE \<equiv> 0"
abbreviation ATARIX_FACTORY_TEST_SIGNATURE_PASS :: u64 where
  "ATARIX_FACTORY_TEST_SIGNATURE_PASS \<equiv> 0x4154495854455354"
abbreviation ATARIX_VENDOR_INVALID :: u32 where "ATARIX_VENDOR_INVALID \<equiv> 0"
abbreviation ATARIX_VENDOR_RESERVED :: u32 where "ATARIX_VENDOR_RESERVED \<equiv> 1"
abbreviation ATARIX_VENDOR_HOMEBREW_BASE :: u32 where "ATARIX_VENDOR_HOMEBREW_BASE \<equiv> 0xFFF00000"
abbreviation ATARIX_VENDOR_HOMEBREW_END :: u32 where "ATARIX_VENDOR_HOMEBREW_END \<equiv> 0xFFFFFFFF"

definition atarix_board_class :: "(string \<times> u16) list" where
  "atarix_board_class =
     [(''INVALID'', 0x0000), (''CPU_CARD'', 0x0001), (''MEMORY_CARD'', 0x0002), (''NETWORK_CARD'', 0x0003),
      (''STORAGE_CARD'', 0x0004), (''SUPERVISOR_CARD'', 0x0005), (''BACKPLANE_CONTROLLER'', 0x0006),
      (''DEVELOPMENT_CARD'', 0x0007), (''HOMEBREW_CARD'', 0x0008), (''PROTOTYPE_CARD'', 0x0009),
      (''UNPROVISIONED_CARD'', 0x000A), (''VENDOR_SPECIFIC'', 0xFFFF)]"

definition atarix_trust_class :: "(string \<times> u16) list" where
  "atarix_trust_class =
     [(''INVALID'', 0x0000), (''UNKNOWN'', 0x0001), (''HOMEBREW'', 0x0002), (''DEVELOPMENT'', 0x0003),
      (''FACTORY'', 0x0004), (''PLATFORM_CRITICAL'', 0x0005), (''VENDOR_SPECIFIC'', 0xFFFF)]"

text \<open>A flag enumeration is the list of its names; the flag at position \<open>i\<close> is \<open>1 << i\<close>.\<close>

definition atarix_identity_status_flags :: "string list" where
  "atarix_identity_status_flags =
     [''PRESENT'', ''READABLE'', ''HEADER_VALID'', ''CRC_VALID'', ''IDENTITY_VALID'', ''POLICY_ACCEPTED'',
      ''VALID'', ''ERROR'']"

definition atarix_identity_capability_flags :: "string list" where
  "atarix_identity_capability_flags =
     [''MAILBOX_ENDPOINT'', ''DISCOVERY_ROM'', ''DMA_HARDWARE'', ''INTERRUPT_HARDWARE'', ''BOOT_CAPABLE'',
      ''RECOVERY_CAPABLE'', ''SUPERVISOR_FACING'', ''FABRIC_MEMORY'', ''NETWORK'', ''STORAGE'',
      ''INSTRUMENTATION'', ''DEVELOPMENT_EXPERIMENTAL'']"

definition atarix_identity_eeprom_v1 :: layout where
  "atarix_identity_eeprom_v1 =
     [(''magic'', 4), (''format_version'', 2), (''header_length'', 2), (''total_record_length'', 4),
      (''vendor_id'', 4), (''device_id'', 4), (''serial_number'', 8), (''board_revision'', 2),
      (''board_class'', 2), (''trust_class'', 2), (''reserved_alignment'', 2),
      (''manufacture_timestamp'', 8), (''boot_firmware_revision'', 4),
      (''provisioning_tool_revision'', 4), (''capability_flags'', 8), (''board_name'', 32),
      (''provisioning_revision'', 4), (''provisioning_timestamp'', 8),
      (''factory_test_signature'', 8), (''crc32'', 4), (''reserved'', 396)]"

definition atarix_identity_vendor_is_homebrew :: "u32 \<Rightarrow> bool" where
  "atarix_identity_vendor_is_homebrew vendor_id \<longleftrightarrow> vendor_id \<ge> ATARIX_VENDOR_HOMEBREW_BASE"

definition atarix_identity_magic_is_valid :: "u32 \<Rightarrow> bool" where
  "atarix_identity_magic_is_valid magic \<longleftrightarrow> magic = ATARIX_IDENTITY_MAGIC_ATIX"

section \<open>Service directory\<close>

abbreviation ATARIX_DIRECTORY_MAGIC_ATDR :: u32 where "ATARIX_DIRECTORY_MAGIC_ATDR \<equiv> 0x52445441"
abbreviation ATARIX_DIRECTORY_VERSION_MAJOR_V1 :: u16 where "ATARIX_DIRECTORY_VERSION_MAJOR_V1 \<equiv> 1"
abbreviation ATARIX_DIRECTORY_VERSION_MINOR_V0 :: u16 where "ATARIX_DIRECTORY_VERSION_MINOR_V0 \<equiv> 0"
abbreviation ATARIX_DIRECTORY_HEADER_SIZE_V1 :: nat where "ATARIX_DIRECTORY_HEADER_SIZE_V1 \<equiv> 32"
abbreviation ATARIX_DIRECTORY_ENTRY_SIZE_V1 :: nat where "ATARIX_DIRECTORY_ENTRY_SIZE_V1 \<equiv> 56"
abbreviation ATARIX_DIRECTORY_FLAG_AVAILABLE :: u32 where "ATARIX_DIRECTORY_FLAG_AVAILABLE \<equiv> 1"
abbreviation ATARIX_DIRECTORY_FLAG_AUTHORIZED :: u32 where "ATARIX_DIRECTORY_FLAG_AUTHORIZED \<equiv> 2"

definition atarix_directory_binding_type :: "(string \<times> u32) list" where
  "atarix_directory_binding_type =
     [(''INVALID'', 0), (''MAILBOX'', 1), (''TRANSPORT_HANDLE'', 2), (''SHARED_MEMORY'', 3),
      (''SUPERVISOR_CALL'', 4), (''FABRIC_SERVICE'', 5), (''NETWORK_ENDPOINT'', 6),
      (''STORAGE_ENDPOINT'', 7)]"

definition atarix_directory_entry_flags :: "string list" where
  "atarix_directory_entry_flags =
     [''AVAILABLE'', ''AUTHORIZED'', ''RESTRICTED'', ''RECOVERY_ONLY'', ''DEVELOPMENT_ONLY'',
      ''HOTPLUG_CAPABLE'', ''INSTRUMENTED'']"

definition atarix_directory_header_v1 :: layout where
  "atarix_directory_header_v1 =
     [(''magic'', 4), (''version_major'', 2), (''version_minor'', 2), (''total_length'', 4),
      (''entry_count'', 4), (''flags'', 4), (''header_crc32'', 4), (''directory_crc32'', 4),
      (''reserved'', 4)]"

definition atarix_directory_entry_v1 :: layout where
  "atarix_directory_entry_v1 =
     [(''service_handle'', 8), (''provider_handle'', 8), (''service_id'', 4), (''provider_id'', 4),
      (''flags'', 4), (''binding_type'', 4), (''binding_handle'', 8),
      (''required_capability_handle'', 8), (''minimum_ring'', 4), (''reserved'', 4)]"

definition atarix_directory_magic_is_valid :: "u32 \<Rightarrow> bool" where
  "atarix_directory_magic_is_valid magic \<longleftrightarrow> magic = ATARIX_DIRECTORY_MAGIC_ATDR"

definition atarix_directory_entry_is_available :: "u32 \<Rightarrow> bool" where
  "atarix_directory_entry_is_available flags \<longleftrightarrow> flags AND ATARIX_DIRECTORY_FLAG_AVAILABLE \<noteq> 0"

definition atarix_directory_entry_is_authorized :: "u32 \<Rightarrow> bool" where
  "atarix_directory_entry_is_authorized flags \<longleftrightarrow> flags AND ATARIX_DIRECTORY_FLAG_AUTHORIZED \<noteq> 0"

section \<open>Index queries\<close>

abbreviation ATARIX_INDEX_ABI_VERSION_1 :: nat where "ATARIX_INDEX_ABI_VERSION_1 \<equiv> 1"
abbreviation ATARIX_INDEX_QUERY_PAYLOAD_SIZE_V1 :: nat where "ATARIX_INDEX_QUERY_PAYLOAD_SIZE_V1 \<equiv> 16"
abbreviation ATARIX_INDEX_REPLY_PAYLOAD_SIZE_V1 :: nat where "ATARIX_INDEX_REPLY_PAYLOAD_SIZE_V1 \<equiv> 16"
abbreviation ATARIX_INDEX_QUERY_EXACT :: u8 where "ATARIX_INDEX_QUERY_EXACT \<equiv> 0"
abbreviation ATARIX_INDEX_QUERY_RANGE :: u8 where "ATARIX_INDEX_QUERY_RANGE \<equiv> 1"
abbreviation ATARIX_INDEX_QUERY_FILTER :: u8 where "ATARIX_INDEX_QUERY_FILTER \<equiv> 2"
abbreviation ATARIX_INDEX_QUERY_BITMAP :: u8 where "ATARIX_INDEX_QUERY_BITMAP \<equiv> 3"
abbreviation ATARIX_INDEX_QUERY_ORDERED :: u8 where "ATARIX_INDEX_QUERY_ORDERED \<equiv> 4"
abbreviation ATARIX_INDEX_PROJECTION_AUDIT_WINDOW :: u8 where "ATARIX_INDEX_PROJECTION_AUDIT_WINDOW \<equiv> 1"
abbreviation ATARIX_INDEX_PROJECTION_HUMAN_READABLE :: u8 where "ATARIX_INDEX_PROJECTION_HUMAN_READABLE \<equiv> 2"
abbreviation ATARIX_INDEX_PROJECTION_DIAGNOSTIC :: u8 where "ATARIX_INDEX_PROJECTION_DIAGNOSTIC \<equiv> 4"

definition atarix_payload_index_query_v1 :: layout where
  "atarix_payload_index_query_v1 =
     [(''registry_id'', 4), (''key_hash'', 4), (''expected_generation'', 4), (''query_type'', 1),
      (''probe_limit'', 1), (''projection_flags'', 1), (''reserved'', 1)]"

definition atarix_payload_index_reply_v1 :: layout where
  "atarix_payload_index_reply_v1 =
     [(''resolved_id'', 4), (''resolved_generation'', 4), (''status'', 1), (''match_offset'', 1),
      (''audit_window_id'', 2), (''reserved'', 4)]"

definition atarix_index_query_type_known :: "u8 \<Rightarrow> bool" where
  "atarix_index_query_type_known query_type \<longleftrightarrow>
     query_type \<in> {ATARIX_INDEX_QUERY_EXACT, ATARIX_INDEX_QUERY_RANGE, ATARIX_INDEX_QUERY_FILTER,
       ATARIX_INDEX_QUERY_BITMAP, ATARIX_INDEX_QUERY_ORDERED}"

definition atarix_index_projection_flags_valid :: "u8 \<Rightarrow> bool" where
  "atarix_index_projection_flags_valid flags \<longleftrightarrow>
     (let known = ATARIX_INDEX_PROJECTION_AUDIT_WINDOW OR ATARIX_INDEX_PROJECTION_HUMAN_READABLE OR
        ATARIX_INDEX_PROJECTION_DIAGNOSTIC
      in flags AND NOT known = 0)"

section \<open>Lemmas\<close>

text \<open>The offsets of all fields of a layout, in order.\<close>

definition offsets :: "layout \<Rightarrow> nat list" where
  "offsets L = map (offset_of L) (map fst L)"

lemma platform_sizes:
  "size_of atarix_identity_eeprom_v1 = ATARIX_IDENTITY_BLOCK_SIZE_V1"
  "size_of atarix_directory_header_v1 = ATARIX_DIRECTORY_HEADER_SIZE_V1"
  "size_of atarix_directory_entry_v1 = ATARIX_DIRECTORY_ENTRY_SIZE_V1"
  "size_of atarix_payload_index_query_v1 = ATARIX_INDEX_QUERY_PAYLOAD_SIZE_V1"
  "size_of atarix_payload_index_reply_v1 = ATARIX_INDEX_REPLY_PAYLOAD_SIZE_V1"
  by (simp_all add: size_of_def atarix_identity_eeprom_v1_def atarix_directory_header_v1_def
      atarix_directory_entry_v1_def atarix_payload_index_query_v1_def atarix_payload_index_reply_v1_def)

text \<open>The offset tables of the documents.\<close>

lemma identity_offsets:
  "offsets atarix_identity_eeprom_v1 =
     [0x00, 0x04, 0x06, 0x08, 0x0C, 0x10, 0x14, 0x1C, 0x1E, 0x20, 0x22, 0x24, 0x2C, 0x30, 0x34, 0x3C,
      0x5C, 0x60, 0x68, 0x70, 0x74]"
  by (simp add: offsets_def atarix_identity_eeprom_v1_def)

lemma directory_offsets:
  "offsets atarix_directory_header_v1 = [0x00, 0x04, 0x06, 0x08, 0x0C, 0x10, 0x14, 0x18, 0x1C]"
  "offsets atarix_directory_entry_v1 = [0x00, 0x08, 0x10, 0x14, 0x18, 0x1C, 0x20, 0x28, 0x30, 0x34]"
  by (simp_all add: offsets_def atarix_directory_header_v1_def atarix_directory_entry_v1_def)

text \<open>The magic numbers are the ASCII signatures, stored little-endian.\<close>

lemma magic_bytes:
  "le32_bytes ATARIX_IDENTITY_MAGIC_ATIX = [0x41, 0x54, 0x49, 0x58]"
  "le32_bytes ATARIX_DIRECTORY_MAGIC_ATDR = [0x41, 0x54, 0x44, 0x52]"
  by (simp_all add: le32_bytes_def)

lemma index_query_types: "atarix_index_query_type_known t \<longleftrightarrow> unat t \<le> 4"
proof -
  have "unat t \<le> 4 \<longleftrightarrow> unat t \<in> {0, 1, 2, 3, 4}" by auto
  also have "\<dots> \<longleftrightarrow> atarix_index_query_type_known t"
    by (auto simp: atarix_index_query_type_known_def word_unat_eq_iff)
  finally show ?thesis by simp
qed

lemma index_projection_flags: "atarix_index_projection_flags_valid f \<longleftrightarrow> unat f < 8"
proof -
  have "f AND NOT 7 = 0 \<longleftrightarrow> take_bit 3 f = f"
  proof -
    have "f AND NOT 7 = 0 \<longleftrightarrow> f AND 7 = f"
    proof
      assume "f AND NOT 7 = 0"
      have "f = (f AND 7) OR (f AND NOT 7)" by (rule bit_word_eqI) (auto simp: bit_simps)
      with \<open>f AND NOT 7 = 0\<close> show "f AND 7 = f" by simp
    next
      assume "f AND 7 = f"
      moreover have "(f AND 7) AND NOT 7 = 0" by (rule bit_word_eqI) (auto simp: bit_simps)
      ultimately show "f AND NOT 7 = 0" by simp
    qed
    moreover have "f AND 7 = take_bit 3 f" by (simp add: take_bit_eq_mask mask_eq_exp_minus_1)
    ultimately show ?thesis by simp
  qed
  moreover have "take_bit 3 f = f \<longleftrightarrow> unat f < 8"
  proof -
    have "take_bit 3 f = f \<longleftrightarrow> unat (take_bit 3 f) = unat f" by (simp only: word_unat_eq_iff)
    also have "\<dots> \<longleftrightarrow> unat f mod 8 = unat f" by (simp only: unsigned_take_bit_eq) (simp add: take_bit_eq_mod)
    also have "\<dots> \<longleftrightarrow> unat f < 8" by (rule mod_eq_self_iff_div_eq_0 [THEN trans]) (simp add: div_eq_0_iff)
    finally show ?thesis .
  qed
  ultimately show ?thesis by (simp add: atarix_index_projection_flags_valid_def)
qed

text \<open>Homebrew vendors are the documented range.\<close>

lemma homebrew_range:
  "atarix_identity_vendor_is_homebrew v \<longleftrightarrow> ATARIX_VENDOR_HOMEBREW_BASE \<le> v \<and> v \<le> ATARIX_VENDOR_HOMEBREW_END"
proof -
  have "ATARIX_VENDOR_HOMEBREW_END = - 1" by simp
  then have "v \<le> ATARIX_VENDOR_HOMEBREW_END" by (simp only: word_order.extremum)
  then show ?thesis by (simp add: atarix_identity_vendor_is_homebrew_def)
qed

lemma directory_flags:
  "atarix_directory_entry_is_available f \<longleftrightarrow> bit f 0" "atarix_directory_entry_is_authorized f \<longleftrightarrow> bit f 1"
  by (simp_all add: atarix_directory_entry_is_available_def atarix_directory_entry_is_authorized_def and_flag_bit)

section \<open>The formats together\<close>

text \<open>
  The record formats of the headers are the documented ones: the identity EEPROM block, the
  directory header and the directory entry have every field at the offset of the documents' tables and
  the documented total size, the magic numbers are the ASCII signatures ATIX and ATDR in memory, and
  the homebrew vendor predicate is the documented vendor range. The predicates on index queries and
  directory flags accept exactly the declared values: query types 0 to 4, any combination of the three
  projection flags, and the availability and authorisation bits, each independently of the other.
\<close>

lemma platform_formats:
  "offsets atarix_identity_eeprom_v1 =
     [0x00, 0x04, 0x06, 0x08, 0x0C, 0x10, 0x14, 0x1C, 0x1E, 0x20, 0x22, 0x24, 0x2C, 0x30, 0x34, 0x3C,
      0x5C, 0x60, 0x68, 0x70, 0x74] \<and> size_of atarix_identity_eeprom_v1 = 512 \<and>
   offsets atarix_directory_header_v1 = [0x00, 0x04, 0x06, 0x08, 0x0C, 0x10, 0x14, 0x18, 0x1C] \<and>
   size_of atarix_directory_header_v1 = 32 \<and>
   offsets atarix_directory_entry_v1 = [0x00, 0x08, 0x10, 0x14, 0x18, 0x1C, 0x20, 0x28, 0x30, 0x34] \<and>
   size_of atarix_directory_entry_v1 = 56 \<and>
   (atarix_identity_magic_is_valid m \<longleftrightarrow> le32_bytes m = map (of_nat \<circ> of_char) ''ATIX'') \<and>
   (atarix_directory_magic_is_valid m \<longleftrightarrow> le32_bytes m = map (of_nat \<circ> of_char) ''ATDR'') \<and>
   (atarix_identity_vendor_is_homebrew v \<longleftrightarrow> 0xFFF00000 \<le> v \<and> v \<le> 0xFFFFFFFF) \<and>
   (atarix_index_query_type_known t \<longleftrightarrow> unat t \<le> 4) \<and>
   (atarix_index_projection_flags_valid f \<longleftrightarrow> unat f < 8) \<and>
   (atarix_directory_entry_is_available d \<longleftrightarrow> bit d 0) \<and>
   (atarix_directory_entry_is_authorized d \<longleftrightarrow> bit d 1)"
proof -
  have inj: "m = k \<longleftrightarrow> le32_bytes m = le32_bytes k" for k by (metis le32.dec_enc)
  show ?thesis
    by (simp add: identity_offsets directory_offsets platform_sizes homebrew_range
        atarix_identity_magic_is_valid_def atarix_directory_magic_is_valid_def inj magic_bytes
        index_query_types index_projection_flags directory_flags)
qed

end
