(* ===== verification/Bib_Format.thy ===== *)
theory Bib_Format
  imports Crc Packed_Struct
begin

text \<open>
  The Boot Information Block format, \<open>include/atarix/bib.h\<close>: constants, error codes, packed layouts and
  the inline predicates. A BIB is a 64-byte header followed by type-length-value records, all
  little-endian and aligned to eight bytes, under a CRC-32C.
\<close>

section \<open>Constants\<close>

abbreviation ATARIX_BIB_VERSION_MAJOR_V1 :: u16 where "ATARIX_BIB_VERSION_MAJOR_V1 \<equiv> 1"
abbreviation ATARIX_BIB_VERSION_MINOR_V0 :: u16 where "ATARIX_BIB_VERSION_MINOR_V0 \<equiv> 0"
abbreviation ATARIX_BIB_HEADER_SIZE_V1 :: nat where "ATARIX_BIB_HEADER_SIZE_V1 \<equiv> 64"
abbreviation ATARIX_BIB_TLV_HEADER_SIZE_V1 :: nat where "ATARIX_BIB_TLV_HEADER_SIZE_V1 \<equiv> 16"
abbreviation ATARIX_BIB_REFERENCE_FIXED_SIZE_V1 :: nat where "ATARIX_BIB_REFERENCE_FIXED_SIZE_V1 \<equiv> 40"
abbreviation ATARIX_BIB_IDENTITY_FIXED_SIZE_V1 :: nat where "ATARIX_BIB_IDENTITY_FIXED_SIZE_V1 \<equiv> 16"
abbreviation ATARIX_BIB_ALIGNMENT_V1 :: u32 where "ATARIX_BIB_ALIGNMENT_V1 \<equiv> 8"
abbreviation ATARIX_BIB_RECOMMENDED_MAX_SIZE_V1 :: nat where
  "ATARIX_BIB_RECOMMENDED_MAX_SIZE_V1 \<equiv> 65536"
abbreviation ATARIX_BIB_HEADER_KNOWN_FLAGS_V1 :: u16 where "ATARIX_BIB_HEADER_KNOWN_FLAGS_V1 \<equiv> 0x000F"
abbreviation ATARIX_BIB_TLV_KNOWN_FLAGS_V1 :: u16 where "ATARIX_BIB_TLV_KNOWN_FLAGS_V1 \<equiv> 0x0003"

text \<open>The bytes of \<open>ATARXBIB\<close>.\<close>

definition ATARIX_BIB_MAGIC :: bytes where
  "ATARIX_BIB_MAGIC = [0x41, 0x54, 0x41, 0x52, 0x58, 0x42, 0x49, 0x42]"

abbreviation ATARIX_BIB_FLAG_RECOVERY_BOOT :: u16 where "ATARIX_BIB_FLAG_RECOVERY_BOOT \<equiv> 1"
abbreviation ATARIX_BIB_FLAG_DEGRADED_BOOT :: u16 where "ATARIX_BIB_FLAG_DEGRADED_BOOT \<equiv> 2"
abbreviation ATARIX_BIB_FLAG_SECURE_POLICY_ACTIVE :: u16 where "ATARIX_BIB_FLAG_SECURE_POLICY_ACTIVE \<equiv> 4"
abbreviation ATARIX_BIB_FLAG_DIAGNOSTIC_BOOT :: u16 where "ATARIX_BIB_FLAG_DIAGNOSTIC_BOOT \<equiv> 8"

abbreviation ATARIX_BIB_TLV_FLAG_MANDATORY :: u16 where "ATARIX_BIB_TLV_FLAG_MANDATORY \<equiv> 1"
abbreviation ATARIX_BIB_TLV_FLAG_SENSITIVE :: u16 where "ATARIX_BIB_TLV_FLAG_SENSITIVE \<equiv> 2"

abbreviation ATARIX_BIB_TLV_RESERVED :: u16 where "ATARIX_BIB_TLV_RESERVED \<equiv> 0x0000"
abbreviation ATARIX_BIB_TLV_SERVICE_DIRECTORY_REFERENCE :: u16 where
  "ATARIX_BIB_TLV_SERVICE_DIRECTORY_REFERENCE \<equiv> 0x0001"
abbreviation ATARIX_BIB_TLV_MEMORY_MAP_REFERENCE :: u16 where
  "ATARIX_BIB_TLV_MEMORY_MAP_REFERENCE \<equiv> 0x0002"
abbreviation ATARIX_BIB_TLV_BOOT_DEVICE_IDENTITY :: u16 where
  "ATARIX_BIB_TLV_BOOT_DEVICE_IDENTITY \<equiv> 0x0003"
abbreviation ATARIX_BIB_TLV_BOOT_IMAGE_IDENTITY :: u16 where
  "ATARIX_BIB_TLV_BOOT_IMAGE_IDENTITY \<equiv> 0x0004"
abbreviation ATARIX_BIB_TLV_BOOT_ARGUMENTS :: u16 where "ATARIX_BIB_TLV_BOOT_ARGUMENTS \<equiv> 0x0005"
abbreviation ATARIX_BIB_TLV_CONSOLE_SERVICE_IDENTITY :: u16 where
  "ATARIX_BIB_TLV_CONSOLE_SERVICE_IDENTITY \<equiv> 0x0006"
abbreviation ATARIX_BIB_TLV_SUPERVISOR_SERVICE_IDENTITY :: u16 where
  "ATARIX_BIB_TLV_SUPERVISOR_SERVICE_IDENTITY \<equiv> 0x0007"
abbreviation ATARIX_BIB_TLV_AUDIT_LOG_REFERENCE :: u16 where
  "ATARIX_BIB_TLV_AUDIT_LOG_REFERENCE \<equiv> 0x0008"
abbreviation ATARIX_BIB_TLV_FIRMWARE_BUILD_IDENTITY :: u16 where
  "ATARIX_BIB_TLV_FIRMWARE_BUILD_IDENTITY \<equiv> 0x0009"
abbreviation ATARIX_BIB_TLV_ENTROPY_SEED_REFERENCE :: u16 where
  "ATARIX_BIB_TLV_ENTROPY_SEED_REFERENCE \<equiv> 0x000A"
abbreviation ATARIX_BIB_TLV_EXPERIMENTAL_BEGIN :: u16 where
  "ATARIX_BIB_TLV_EXPERIMENTAL_BEGIN \<equiv> 0x8000"

datatype atarix_bib_error =
    ATARIX_BIB_OK
  | ATARIX_BIB_E_WINDOW
  | ATARIX_BIB_E_MAGIC
  | ATARIX_BIB_E_VERSION
  | ATARIX_BIB_E_HEADER_LENGTH
  | ATARIX_BIB_E_TOTAL_LENGTH
  | ATARIX_BIB_E_CRC
  | ATARIX_BIB_E_HEADER_RESERVED
  | ATARIX_BIB_E_TLV_BOUNDS
  | ATARIX_BIB_E_TLV_RESERVED
  | ATARIX_BIB_E_UNKNOWN_MANDATORY
  | ATARIX_BIB_E_REQUIRED_RECORD
  | ATARIX_BIB_E_REFERENCE_OVERFLOW
  | ATARIX_BIB_E_REFERENCE_AUTHORITY
  | ATARIX_BIB_E_REFERENCE_INTEGRITY

section \<open>Layouts\<close>

definition atarix_bib_header_v1 :: layout where
  "atarix_bib_header_v1 =
     [(''magic'', 8), (''version_major'', 2), (''version_minor'', 2), (''header_length'', 2),
      (''flags'', 2), (''total_length'', 4), (''crc32c'', 4), (''boot_id'', 8), (''producer_id'', 8),
      (''created_counter'', 8), (''tlv_offset'', 4), (''tlv_count'', 4), (''reserved'', 8)]"

definition atarix_bib_tlv_header_v1 :: layout where
  "atarix_bib_tlv_header_v1 =
     [(''type'', 2), (''flags'', 2), (''length'', 4), (''payload_length'', 4), (''reserved'', 4)]"

definition atarix_bib_reference_fixed_v1 :: layout where
  "atarix_bib_reference_fixed_v1 =
     [(''object_id'', 8), (''address'', 8), (''length'', 8), (''format_major'', 4),
      (''format_minor'', 4), (''integrity_kind'', 4), (''integrity_length'', 4)]"

definition atarix_bib_identity_fixed_v1 :: layout where
  "atarix_bib_identity_fixed_v1 = [(''object_id'', 8), (''identity_kind'', 4), (''identity_length'', 4)]"

section \<open>Predicates\<close>

text \<open>The comparison stops at the first byte that differs.\<close>

fun bytes_match :: "bytes \<Rightarrow> nat \<Rightarrow> bytes \<Rightarrow> bool option" where
  "bytes_match p i [] = Some True"
| "bytes_match p i (e # es) = do {
     b \<leftarrow> load8 p i;
     if b = e then bytes_match p (i + 1) es else Some False
   }"

definition atarix_bib_magic_is_valid :: "bytes option \<Rightarrow> bool option" where
  "atarix_bib_magic_is_valid magic =
     (case magic of None \<Rightarrow> Some False | Some p \<Rightarrow> bytes_match p 0 ATARIX_BIB_MAGIC)"

definition atarix_bib_length_is_aligned :: "u32 \<Rightarrow> bool" where
  "atarix_bib_length_is_aligned len \<longleftrightarrow> len AND (ATARIX_BIB_ALIGNMENT_V1 - 1) = 0"

definition atarix_bib_header_flags_are_known :: "u16 \<Rightarrow> bool" where
  "atarix_bib_header_flags_are_known flags \<longleftrightarrow> flags AND NOT ATARIX_BIB_HEADER_KNOWN_FLAGS_V1 = 0"

definition atarix_bib_tlv_flags_are_known :: "u16 \<Rightarrow> bool" where
  "atarix_bib_tlv_flags_are_known flags \<longleftrightarrow> flags AND NOT ATARIX_BIB_TLV_KNOWN_FLAGS_V1 = 0"

definition atarix_bib_tlv_type_is_experimental :: "u16 \<Rightarrow> bool" where
  "atarix_bib_tlv_type_is_experimental type \<longleftrightarrow> type \<ge> ATARIX_BIB_TLV_EXPERIMENTAL_BEGIN"

section \<open>Lemmas\<close>

lemma bytes_match_eq:
  "i + length es \<le> length p \<Longrightarrow> bytes_match p i es = Some (take (length es) (drop i p) = es)"
proof (induction es arbitrary: i)
  case Nil
  then show ?case by simp
next
  case (Cons e es)
  then show ?case by (auto simp: c_mem take_Suc_conv_app_nth Cons_nth_drop_Suc [symmetric])
qed

lemma length_magic [simp]: "length ATARIX_BIB_MAGIC = 8"
  by (simp add: ATARIX_BIB_MAGIC_def)

lemma magic_valid_eq:
  "8 \<le> length p \<Longrightarrow> atarix_bib_magic_is_valid (Some p) = Some (take 8 p = ATARIX_BIB_MAGIC)"
  using bytes_match_eq [of 0 ATARIX_BIB_MAGIC p]
  by (simp add: atarix_bib_magic_is_valid_def)

lemma word_and_7: "unat (w AND 7 :: u32) = unat w mod 8"
proof -
  have "w AND 7 = take_bit 3 w" by (simp only: take_bit_eq_mask) (simp add: mask_eq_exp_minus_1)
  then have "unat (w AND 7) = take_bit 3 (unat w)" by (simp only: unsigned_take_bit_eq)
  then show ?thesis by (simp add: take_bit_eq_mod)
qed

lemma aligned_iff: "atarix_bib_length_is_aligned w \<longleftrightarrow> unat w mod 8 = 0"
proof -
  have "w AND 7 = 0 \<longleftrightarrow> unat (w AND 7) = 0" by (simp only: unat_eq_zero)
  then show ?thesis unfolding word_and_7 by (simp add: atarix_bib_length_is_aligned_def)
qed

lemma bib_layout_sizes:
  "size_of atarix_bib_header_v1 = ATARIX_BIB_HEADER_SIZE_V1"
  "size_of atarix_bib_tlv_header_v1 = ATARIX_BIB_TLV_HEADER_SIZE_V1"
  "size_of atarix_bib_reference_fixed_v1 = ATARIX_BIB_REFERENCE_FIXED_SIZE_V1"
  "size_of atarix_bib_identity_fixed_v1 = ATARIX_BIB_IDENTITY_FIXED_SIZE_V1"
  by (simp_all add: size_of_def atarix_bib_header_v1_def atarix_bib_tlv_header_v1_def
      atarix_bib_reference_fixed_v1_def atarix_bib_identity_fixed_v1_def)

lemma bib_header_offsets:
  "map (offset_of atarix_bib_header_v1) (map fst atarix_bib_header_v1)
    = [0, 8, 10, 12, 14, 16, 20, 24, 32, 40, 48, 52, 56]"
  "map (offset_of atarix_bib_tlv_header_v1) (map fst atarix_bib_tlv_header_v1) = [0, 2, 4, 8, 12]"
  "map (offset_of atarix_bib_reference_fixed_v1) (map fst atarix_bib_reference_fixed_v1)
    = [0, 8, 16, 24, 28, 32, 36]"
  by (simp_all add: atarix_bib_header_v1_def atarix_bib_tlv_header_v1_def
      atarix_bib_reference_fixed_v1_def)

end
