(* ===== verification/Bib_Builder.thy ===== *)
theory Bib_Builder
  imports Bib_Format
begin

text \<open>
  The BIB builder: \<open>include/atarix/bib_builder.h\<close> and \<open>src/bib/bib_builder.c\<close>. The builder keeps a pointer
  to the caller's buffer; \<open>bld_buffer\<close> is the buffer's contents, threaded through the operations.

  The abstraction is a list of records: \<open>building h ts b\<close> says that the builder \<open>b\<close> holds the header
  fields \<open>h\<close> and the records \<open>ts\<close>, and the operations refine starting with the empty list, appending a
  record and closing the image \<open>bib_image h ts\<close>.
\<close>

section \<open>State\<close>

datatype atarix_bib_builder_result =
    ATARIX_BIB_BUILDER_OK
  | ATARIX_BIB_BUILDER_E_ARGUMENT
  | ATARIX_BIB_BUILDER_E_CAPACITY
  | ATARIX_BIB_BUILDER_E_STATE
  | ATARIX_BIB_BUILDER_E_FLAGS
  | ATARIX_BIB_BUILDER_E_LENGTH

record atarix_bib_builder =
  bld_buffer :: "bytes option"
  bld_capacity :: nat
  bld_length :: u32
  bld_tlv_count :: u32
  bld_sealed :: int

section \<open>Operations\<close>

text \<open>\<open>None\<close> is the return value 0, \<open>Some\<close> the return value 1 with \<open>*aligned\<close>.\<close>

definition align8_u32 :: "u32 \<Rightarrow> u32 option" where
  "align8_u32 value = (if value > UINT32_MAX - 7 then None else Some ((value + 7) AND NOT 7))"

definition atarix_bib_builder_init ::
  "atarix_bib_builder option \<Rightarrow> bytes option \<Rightarrow> nat \<Rightarrow> u16 \<Rightarrow> u64 \<Rightarrow> u64 \<Rightarrow> u64
    \<Rightarrow> (atarix_bib_builder_result \<times> atarix_bib_builder option) option" where
  "atarix_bib_builder_init builder buffer capacity header_flags boot_id producer_id created_counter =
     (if builder = None \<or> buffer = None \<or> capacity < ATARIX_BIB_HEADER_SIZE_V1 \<or>
         capacity > unat UINT32_MAX
      then Some (ATARIX_BIB_BUILDER_E_ARGUMENT, builder)
      else if \<not> atarix_bib_header_flags_are_known header_flags
      then Some (ATARIX_BIB_BUILDER_E_FLAGS, builder)
      else do {
        p \<leftarrow> memset_at (the buffer) 0 0 capacity;
        p \<leftarrow> memcpy_at p 0 ATARIX_BIB_MAGIC 8;
        p \<leftarrow> write_le16 p 8 ATARIX_BIB_VERSION_MAJOR_V1;
        p \<leftarrow> write_le16 p 10 ATARIX_BIB_VERSION_MINOR_V0;
        p \<leftarrow> write_le16 p 12 (of_nat ATARIX_BIB_HEADER_SIZE_V1);
        p \<leftarrow> write_le16 p 14 header_flags;
        p \<leftarrow> write_le64 p 24 boot_id;
        p \<leftarrow> write_le64 p 32 producer_id;
        p \<leftarrow> write_le64 p 40 created_counter;
        p \<leftarrow> write_le32 p 48 (of_nat ATARIX_BIB_HEADER_SIZE_V1);
        Some (ATARIX_BIB_BUILDER_OK,
              Some ((the builder)\<lparr>bld_buffer := Some p, bld_capacity := capacity,
                      bld_length := of_nat ATARIX_BIB_HEADER_SIZE_V1, bld_tlv_count := 0,
                      bld_sealed := 0\<rparr>))
      })"

definition atarix_bib_builder_add_tlv ::
  "atarix_bib_builder option \<Rightarrow> u16 \<Rightarrow> u16 \<Rightarrow> bytes option \<Rightarrow> u32
    \<Rightarrow> (atarix_bib_builder_result \<times> atarix_bib_builder option) option" where
  "atarix_bib_builder_add_tlv builder type flags payload payload_length =
     (case builder of
        None \<Rightarrow> Some (ATARIX_BIB_BUILDER_E_ARGUMENT, builder)
      | Some b \<Rightarrow>
          if bld_buffer b = None \<or> payload_length \<noteq> 0 \<and> payload = None
          then Some (ATARIX_BIB_BUILDER_E_ARGUMENT, builder)
          else if bld_sealed b \<noteq> 0 then Some (ATARIX_BIB_BUILDER_E_STATE, builder)
          else if \<not> atarix_bib_tlv_flags_are_known flags
          then Some (ATARIX_BIB_BUILDER_E_FLAGS, builder)
          else if payload_length > UINT32_MAX - of_nat ATARIX_BIB_TLV_HEADER_SIZE_V1
          then Some (ATARIX_BIB_BUILDER_E_LENGTH, builder)
          else
            let unaligned_length = of_nat ATARIX_BIB_TLV_HEADER_SIZE_V1 + payload_length in
            (case align8_u32 unaligned_length of
               None \<Rightarrow> Some (ATARIX_BIB_BUILDER_E_LENGTH, builder)
             | Some record_length \<Rightarrow>
                 if unat (bld_length b) > bld_capacity b \<or>
                    unat record_length > bld_capacity b - unat (bld_length b)
                 then Some (ATARIX_BIB_BUILDER_E_CAPACITY, builder)
                 else do {
                   let r = unat (bld_length b);
                   p \<leftarrow> memset_at (the (bld_buffer b)) r 0 (unat record_length);
                   p \<leftarrow> write_le16 p (r + 0) type;
                   p \<leftarrow> write_le16 p (r + 2) flags;
                   p \<leftarrow> write_le32 p (r + 4) record_length;
                   p \<leftarrow> write_le32 p (r + 8) payload_length;
                   p \<leftarrow> (if payload_length \<noteq> 0
                        then memcpy_at p (r + ATARIX_BIB_TLV_HEADER_SIZE_V1) (the payload)
                               (unat payload_length)
                        else Some p);
                   Some (ATARIX_BIB_BUILDER_OK,
                         Some (b\<lparr>bld_buffer := Some p, bld_length := bld_length b + record_length,
                                 bld_tlv_count := bld_tlv_count b + 1\<rparr>))
                 }))"

definition atarix_bib_builder_add_reference ::
  "atarix_bib_builder option \<Rightarrow> u16 \<Rightarrow> u16 \<Rightarrow> u64 \<Rightarrow> u64 \<Rightarrow> u64 \<Rightarrow> u32 \<Rightarrow> u32
    \<Rightarrow> (atarix_bib_builder_result \<times> atarix_bib_builder option) option" where
  "atarix_bib_builder_add_reference builder type flags object_id address len format_major format_minor =
   do {
     let size = ATARIX_BIB_REFERENCE_FIXED_SIZE_V1;
     payload \<leftarrow> memset_at (replicate size 0) 0 0 size;
     payload \<leftarrow> write_le64 payload 0 object_id;
     payload \<leftarrow> write_le64 payload 8 address;
     payload \<leftarrow> write_le64 payload 16 len;
     payload \<leftarrow> write_le32 payload 24 format_major;
     payload \<leftarrow> write_le32 payload 28 format_minor;
     atarix_bib_builder_add_tlv builder type flags (Some payload) (of_nat size)
   }"

definition atarix_bib_builder_seal ::
  "atarix_bib_builder option \<Rightarrow> u32 option
    \<Rightarrow> (atarix_bib_builder_result \<times> atarix_bib_builder option \<times> u32 option) option" where
  "atarix_bib_builder_seal builder serialized_length =
     (case builder of
        None \<Rightarrow> Some (ATARIX_BIB_BUILDER_E_ARGUMENT, builder, serialized_length)
      | Some b \<Rightarrow>
          if bld_buffer b = None
          then Some (ATARIX_BIB_BUILDER_E_ARGUMENT, builder, serialized_length)
          else if bld_sealed b \<noteq> 0
          then Some (ATARIX_BIB_BUILDER_E_STATE, builder, serialized_length)
          else do {
            p \<leftarrow> write_le32 (the (bld_buffer b)) 16 (bld_length b);
            p \<leftarrow> write_le32 p 20 0;
            p \<leftarrow> write_le32 p 52 (bld_tlv_count b);
            crc \<leftarrow> crc32c p (unat (bld_length b));
            p \<leftarrow> write_le32 p 20 crc;
            Some (ATARIX_BIB_BUILDER_OK, Some (b\<lparr>bld_buffer := Some p, bld_sealed := 1\<rparr>),
                  map_option (\<lambda>_. bld_length b) serialized_length)
          })"

section \<open>Records and images as byte strings\<close>

record bib_tlv =
  tlv_type :: u16
  tlv_flags :: u16
  tlv_payload :: bytes

record bib_ids =
  ids_flags :: u16
  ids_boot :: u64
  ids_producer :: u64
  ids_counter :: u64

definition align8 :: "nat \<Rightarrow> nat" where
  "align8 n = (n + 7) div 8 * 8"

definition record_length :: "bib_tlv \<Rightarrow> nat" where
  "record_length t = align8 (16 + length (tlv_payload t))"

definition tlv_bytes :: "bib_tlv \<Rightarrow> bytes" where
  "tlv_bytes t =
     le16_bytes (tlv_type t) @ le16_bytes (tlv_flags t) @ le32_bytes (of_nat (record_length t)) @
     le32_bytes (of_nat (length (tlv_payload t))) @ replicate 4 0 @ tlv_payload t @
     replicate (record_length t - 16 - length (tlv_payload t)) 0"

definition tlvs_bytes :: "bib_tlv list \<Rightarrow> bytes" where
  "tlvs_bytes ts = concat (map tlv_bytes ts)"

definition bib_length :: "bib_tlv list \<Rightarrow> nat" where
  "bib_length ts = 64 + sum_list (map record_length ts)"

definition bib_header :: "bib_ids \<Rightarrow> u32 \<Rightarrow> u32 \<Rightarrow> u32 \<Rightarrow> bytes" where
  "bib_header h tot crc count =
     ATARIX_BIB_MAGIC @ le16_bytes 1 @ le16_bytes 0 @ le16_bytes 64 @ le16_bytes (ids_flags h) @
     le32_bytes tot @ le32_bytes crc @ le64_bytes (ids_boot h) @ le64_bytes (ids_producer h) @
     le64_bytes (ids_counter h) @ le32_bytes 64 @ le32_bytes count @ le64_bytes 0"

definition bib_checksum :: "bib_ids \<Rightarrow> bib_tlv list \<Rightarrow> u32" where
  "bib_checksum h ts = crc_of crc32c_bit
     (bib_header h (of_nat (bib_length ts)) 0 (of_nat (length ts)) @ tlvs_bytes ts)"

definition bib_image :: "bib_ids \<Rightarrow> bib_tlv list \<Rightarrow> bytes" where
  "bib_image h ts =
     bib_header h (of_nat (bib_length ts)) (bib_checksum h ts) (of_nat (length ts)) @ tlvs_bytes ts"

text \<open>The payload of a reference record without integrity data.\<close>

definition reference_bytes :: "u64 \<Rightarrow> u64 \<Rightarrow> u64 \<Rightarrow> u32 \<Rightarrow> u32 \<Rightarrow> bytes" where
  "reference_bytes object_id address len format_major format_minor =
     le64_bytes object_id @ le64_bytes address @ le64_bytes len @ le32_bytes format_major @
     le32_bytes format_minor @ replicate 8 0"

lemma align8_bounds: "n \<le> align8 n" "align8 n mod 8 = 0" "align8 n < n + 8"
proof -
  have "n + 7 = align8 n + (n + 7) mod 8"
    unfolding align8_def by (metis div_mult_mod_eq)
  moreover have "(n + 7) mod 8 < 8" by simp
  ultimately show "n \<le> align8 n" "align8 n < n + 8" by linarith+
  show "align8 n mod 8 = 0" by (simp add: align8_def)
qed

lemma record_length_bounds:
  "16 + length (tlv_payload t) \<le> record_length t" "record_length t mod 8 = 0"
  "record_length t < 24 + length (tlv_payload t)" "16 \<le> record_length t"
  using align8_bounds [of "16 + length (tlv_payload t)"] by (simp_all add: record_length_def)

lemma bib_lengths [simp]:
  "length (tlv_bytes t) = record_length t"
  "length (tlvs_bytes ts) = sum_list (map record_length ts)"
  "length (bib_header h tot crc count) = 64"
  "length (reference_bytes object_id address len format_major format_minor) = 40"
proof -
  show t: "length (tlv_bytes t) = record_length t" for t
    using record_length_bounds [of t] by (simp add: tlv_bytes_def)
  show "length (tlvs_bytes ts) = sum_list (map record_length ts)"
    by (induction ts) (simp_all add: tlvs_bytes_def t)
qed (simp_all add: bib_header_def reference_bytes_def)

lemma length_bib_image [simp]: "length (bib_image h ts) = bib_length ts"
  by (simp add: bib_image_def bib_length_def)

lemma bib_length_simps [simp]:
  "bib_length [] = 64" "bib_length (ts @ [t]) = bib_length ts + record_length t"
  by (simp_all add: bib_length_def)

text \<open>Every record takes at least 16 bytes, so the number of records never wraps.\<close>

lemma bib_length_count: "64 + 16 * length ts \<le> bib_length ts"
proof (induction ts rule: rev_induct)
  case (snoc t ts)
  then show ?case using record_length_bounds(4) [of t] by simp
qed simp

lemma bib_length_aligned: "bib_length ts mod 8 = 0"
proof (induction ts rule: rev_induct)
  case (snoc t ts)
  then show ?case using record_length_bounds(2) [of t] by simp presburger
qed simp


section \<open>The abstraction\<close>

definition building :: "bib_ids \<Rightarrow> bib_tlv list \<Rightarrow> atarix_bib_builder \<Rightarrow> bool" where
  "building h ts b \<longleftrightarrow>
     bld_buffer b = Some (bib_header h 0 0 0 @ tlvs_bytes ts @ replicate (bld_capacity b - bib_length ts) 0) \<and>
     bib_length ts \<le> bld_capacity b \<and> bld_capacity b \<le> unat UINT32_MAX \<and>
     unat (bld_length b) = bib_length ts \<and> bld_tlv_count b = of_nat (length ts) \<and> bld_sealed b = 0"

lemma and_not_7: "unat (w AND NOT 7 :: u32) = unat w - unat w mod 8"
proof -
  have "w = (w AND NOT 7) + (w AND 7)"
  proof -
    have "(w AND NOT 7) AND (w AND 7) = 0" by (rule bit_word_eqI) (auto simp: bit_simps)
    then have "(w AND NOT 7) + (w AND 7) = (w AND NOT 7) OR (w AND 7)" by (rule disjunctive_add_eq_or)
    also have "\<dots> = w" by (rule bit_word_eqI) (auto simp: bit_simps)
    finally show ?thesis by simp
  qed
  then have "w AND NOT 7 = w - (w AND 7)" by (simp add: eq_diff_eq)
  moreover have "(w AND 7) \<le> w" by (simp add: word_le_nat_alt word_and_7)
  ultimately show ?thesis by (simp add: unat_sub word_and_7)
qed

lemma align8_u32_eq:
  "align8_u32 v = (if unat v + 7 < 2 ^ 32 then Some (of_nat (align8 (unat v))) else None)"
proof (cases "unat v + 7 < 2 ^ 32")
  case True
  then have "unat (v + 7) = unat v + 7"
    by (simp add: unat_word_ariths)
  moreover have "align8 n = (n + 7) - (n + 7) mod 8" for n
    unfolding align8_def by (metis minus_mod_eq_div_mult)
  ultimately have "unat ((v + 7) AND NOT 7) = align8 (unat v)"
    by (simp only: and_not_7)
  then have "(v + 7) AND NOT 7 = of_nat (align8 (unat v))"
    by (metis of_nat_unat ucast_id)
  with True show ?thesis by (simp add: align8_u32_def word_less_nat_alt)
next
  case False
  then show ?thesis by (simp add: align8_u32_def word_less_nat_alt)
qed

lemma bib_header_fields:
  "overwrite (bib_header h tot crc count @ q) 16 (le32_bytes tot') = bib_header h tot' crc count @ q"
  "overwrite (bib_header h tot crc count @ q) 20 (le32_bytes crc') = bib_header h tot crc' count @ q"
  "overwrite (bib_header h tot crc count @ q) 52 (le32_bytes count') = bib_header h tot crc count' @ q"
  by (simp_all add: overwrite_append_left) (simp_all add: overwrite_def bib_header_def)

lemma bib_header_zero:
  "bib_header h 0 0 0 =
     ATARIX_BIB_MAGIC @ le16_bytes 1 @ le16_bytes 0 @ le16_bytes 64 @ le16_bytes (ids_flags h) @
     replicate 8 0 @ le64_bytes (ids_boot h) @ le64_bytes (ids_producer h) @
     le64_bytes (ids_counter h) @ le32_bytes 64 @ replicate 12 0"
  by (simp add: bib_header_def le32_bytes_def le64_bytes_def numeral_eq_Suc)

lemma init_bytes:
  "overwrite (overwrite (overwrite (overwrite (overwrite (overwrite (overwrite (overwrite (overwrite
      (replicate 64 0) 0 ATARIX_BIB_MAGIC) 8 (le16_bytes 1)) 10 (le16_bytes 0)) 12 (le16_bytes 64))
      14 (le16_bytes f)) 24 (le64_bytes b)) 32 (le64_bytes p)) 40 (le64_bytes c)) 48 (le32_bytes 64)
   = bib_header \<lparr>ids_flags = f, ids_boot = b, ids_producer = p, ids_counter = c\<rparr> 0 0 0"
  by (simp add: bib_header_zero overwrite_def ATARIX_BIB_MAGIC_def le16_bytes_def le32_bytes_def
      le64_bytes_def numeral_eq_Suc)

lemma init_building:
  assumes "64 \<le> cap" "cap \<le> unat UINT32_MAX" "cap = length buf" "atarix_bib_header_flags_are_known f"
  shows "\<exists>b'. atarix_bib_builder_init (Some b) (Some buf) cap f boot producer counter
      = Some (ATARIX_BIB_BUILDER_OK, Some b') \<and> bld_capacity b' = cap \<and>
    building \<lparr>ids_flags = f, ids_boot = boot, ids_producer = producer, ids_counter = counter\<rparr> [] b'"
proof -
  have z: "overwrite buf 0 (replicate (length buf) 0) = replicate 64 0 @ replicate (length buf - 64) 0"
    using assms(1,3) by (simp add: overwrite_def flip: replicate_add)
  have len: "length (bib_header h 0 0 0) = 64" for h by simp
  show ?thesis
    using assms
    by (simp add: atarix_bib_builder_init_def c_mem z overwrite_append_left init_bytes building_def
        tlvs_bytes_def del: replicate_add)
qed


section \<open>Appending a record\<close>

lemma overwrite_append_right:
  "off = length a + k \<Longrightarrow> overwrite (a @ z) off bs = a @ overwrite z k bs"
  by (simp add: overwrite_def)

lemma overwrite_replicate: "k + n \<le> m \<Longrightarrow> overwrite (replicate m x) k (replicate n x) = replicate m x"
  by (simp add: overwrite_def flip: replicate_add)

lemma tlv_struct:
  assumes "record_length t \<le> n"
  shows "overwrite (overwrite (overwrite (overwrite (overwrite (replicate n 0)
      0 (le16_bytes (tlv_type t))) 2 (le16_bytes (tlv_flags t)))
      4 (le32_bytes (of_nat (record_length t)))) 8 (le32_bytes (of_nat (length (tlv_payload t)))))
      16 (tlv_payload t) = tlv_bytes t @ replicate (n - record_length t) 0"
proof -
  let ?k = "length (tlv_payload t)"
  have k: "16 + ?k \<le> record_length t" by (rule record_length_bounds)
  have head: "overwrite (overwrite (overwrite (overwrite (replicate 16 0) 0 (le16_bytes a)) 2 (le16_bytes b))
      4 (le32_bytes c)) 8 (le32_bytes d) =
      le16_bytes a @ le16_bytes b @ le32_bytes c @ le32_bytes d @ replicate 4 0" for a b c d
    by (simp add: overwrite_def le16_bytes_def le32_bytes_def numeral_eq_Suc)
  have n: "replicate n (0 :: u8) = replicate 16 0 @ replicate (n - 16) 0"
    using assms k by (simp flip: replicate_add)
  have tail: "overwrite (replicate (n - 16) 0) 0 (tlv_payload t) =
      tlv_payload t @ replicate (record_length t - 16 - ?k) 0 @ replicate (n - record_length t) 0"
    using assms k by (simp add: overwrite_0_append flip: replicate_add)
  let ?H = "le16_bytes (tlv_type t) @ le16_bytes (tlv_flags t) @ le32_bytes (of_nat (record_length t)) @
    le32_bytes (of_nat ?k) @ replicate 4 0"
  have "overwrite (?H @ replicate (n - 16) 0) 16 (tlv_payload t)
      = ?H @ overwrite (replicate (n - 16) 0) 0 (tlv_payload t)"
    by (rule overwrite_append_right) simp
  then show ?thesis
    unfolding n by (simp add: overwrite_append_left head tail tlv_bytes_def)
qed

lemma tlv_struct_at:
  assumes "record_length t \<le> n" "length A = r"
  shows "overwrite (overwrite (overwrite (overwrite (overwrite (overwrite (A @ replicate n 0)
      r (replicate (record_length t) 0)) r (le16_bytes (tlv_type t))) (r + 2) (le16_bytes (tlv_flags t)))
      (r + 4) (le32_bytes (of_nat (record_length t))))
      (r + 8) (le32_bytes (of_nat (length (tlv_payload t)))))
      (r + 16) (tlv_payload t) = A @ tlv_bytes t @ replicate (n - record_length t) 0"
proof -
  have at: "overwrite (A @ z) (r + k) bs = A @ overwrite z k bs" "overwrite (A @ z) r bs = A @ overwrite z 0 bs"
    for z k bs using assms(2) by (auto intro: overwrite_append_right)
  show ?thesis
    using assms(1) by (simp only: at) (simp add: overwrite_replicate tlv_struct)
qed

lemma tlvs_bytes_snoc: "tlvs_bytes (ts @ [t]) = tlvs_bytes ts @ tlv_bytes t"
  by (simp add: tlvs_bytes_def)

text \<open>
  The length computation of \<open>atarix_bib_builder_add_tlv\<close> on a state that passes the first checks: the
  record's length, unless it needs more than 32 bits.
\<close>

lemma add_tlv_lengths:
  fixes n :: u32
  assumes "length (tlv_payload t) = unat n"
  shows "if 16 + unat n + 7 < 2 ^ 32
    then unat (16 + n) = 16 + unat n \<and> \<not> n > UINT32_MAX - 16 \<and>
      align8_u32 (16 + n) = Some (of_nat (record_length t)) \<and>
      unat (of_nat (record_length t) :: u32) = record_length t
    else n > UINT32_MAX - 16 \<or> align8_u32 (16 + n) = None"
proof -
  have rl: "record_length t = align8 (16 + unat n)" by (simp add: record_length_def assms)
  show ?thesis
  proof (cases "16 + unat n + 7 < 2 ^ 32")
    case True
    then have n16: "unat (16 + n) = 16 + unat n" "\<not> n > UINT32_MAX - 16"
      by (simp_all add: unat_add_small word_less_nat_alt)
    have "align8 (16 + unat n) \<le> 16 + unat n + 7" by (simp only: align8_def div_times_less_eq_dividend)
    with True have "record_length t < 2 ^ 32" unfolding rl by (rule le_less_trans [rotated])
    then show ?thesis using True n16 by (simp add: align8_u32_eq rl unat_of_nat_small)
  next
    case False
    show ?thesis
    proof (cases "n > UINT32_MAX - 16")
      case True
      then show ?thesis unfolding if_not_P [OF False] by (rule disjI1)
    next
      case small: False
      then have "unat (16 + n) = 16 + unat n" by (simp add: unat_add_small word_less_nat_alt)
      with False have "align8_u32 (16 + n) = None" by (simp add: align8_u32_eq)
      then show ?thesis unfolding if_not_P [OF False] by (rule disjI2)
    qed
  qed
qed

text \<open>The bytes of the record that fits.\<close>

lemma add_tlv_bytes:
  fixes type flags :: u16
  assumes b: "building h ts b" and flags: "atarix_bib_tlv_flags_are_known flags"
    and payload: "unat n \<le> length payload"
    and t: "t = \<lparr>tlv_type = type, tlv_flags = flags, tlv_payload = take (unat n) payload\<rparr>"
    and n: "16 + unat n + 7 < 2 ^ 32" and fits: "bib_length ts + record_length t \<le> bld_capacity b"
  shows "atarix_bib_builder_add_tlv (Some b) type flags (Some payload) n
    = Some (ATARIX_BIB_BUILDER_OK, Some (b\<lparr>
        bld_buffer := Some (bib_header h 0 0 0 @ tlvs_bytes (ts @ [t]) @
          replicate (bld_capacity b - bib_length ts - record_length t) 0),
        bld_length := bld_length b + of_nat (record_length t), bld_tlv_count := bld_tlv_count b + 1\<rparr>))"
proof -
  define A where "A = bib_header h 0 0 0 @ tlvs_bytes ts"
  let ?m = "bld_capacity b - bib_length ts" and ?r = "of_nat (record_length t) :: u32"
  let ?q = "A @ tlv_bytes t @ replicate (?m - record_length t) 0"
  have buf: "bld_buffer b = Some (A @ replicate ?m 0)"
    and cap: "bib_length ts \<le> bld_capacity b" "bld_capacity b < 2 ^ 32"
    and len: "unat (bld_length b) = bib_length ts" and seal: "bld_sealed b = 0"
    using b by (simp_all add: building_def A_def)
  have A: "length A = bib_length ts" by (simp add: A_def bib_length_def)
  have plen: "length (tlv_payload t) = unat n" using payload by (simp add: t)
  note lengths = add_tlv_lengths [OF plen, simplified n if_True]
  have room: "bib_length ts + 16 + unat n \<le> bld_capacity b"
    using fits record_length_bounds(1) [of t] plen by linarith
  have fill: "record_length t \<le> ?m" using fits by simp
  have bytes: "overwrite (overwrite (overwrite (overwrite (overwrite (overwrite (A @ replicate ?m 0)
      (bib_length ts) (replicate (record_length t) 0)) (bib_length ts) (le16_bytes type))
      (bib_length ts + 2) (le16_bytes flags)) (bib_length ts + 4) (le32_bytes ?r))
      (bib_length ts + 8) (le32_bytes n)) (bib_length ts + 16) (take (unat n) payload) = ?q"
    using tlv_struct_at [OF fill A] plen by (simp add: t)
  have "atarix_bib_builder_add_tlv (Some b) type flags (Some payload) n
      = Some (ATARIX_BIB_BUILDER_OK, Some (b\<lparr>bld_buffer := Some ?q,
          bld_length := bld_length b + ?r, bld_tlv_count := bld_tlv_count b + 1\<rparr>))"
    unfolding bytes [symmetric]
    using seal flags lengths room fits A cap fill payload
    by (simp add: atarix_bib_builder_add_tlv_def Let_def buf len c_mem)
  then show ?thesis by (simp add: tlvs_bytes_snoc A_def)
qed

text \<open>
  A record is appended exactly when it fits the capacity; otherwise nothing changes. The record is
  \<open>t\<close>, given by its type and flags and the first \<open>n\<close> bytes of the payload pointer. The error is
  LENGTH when the padded record length does not fit 32 bits.
\<close>

lemma add_tlv_building:
  fixes type flags :: u16
  assumes b: "building h ts b" and flags: "atarix_bib_tlv_flags_are_known flags"
    and payload: "unat n \<le> length payload"
  defines "t \<equiv> \<lparr>tlv_type = type, tlv_flags = flags, tlv_payload = take (unat n) payload\<rparr>"
  shows "if bib_length ts + record_length t \<le> bld_capacity b
    then \<exists>b'. atarix_bib_builder_add_tlv (Some b) type flags (Some payload) n
        = Some (ATARIX_BIB_BUILDER_OK, Some b') \<and> building h (ts @ [t]) b' \<and>
        bld_capacity b' = bld_capacity b
    else atarix_bib_builder_add_tlv (Some b) type flags (Some payload) n =
      Some (if 16 + unat n + 7 < 2 ^ 32 then ATARIX_BIB_BUILDER_E_CAPACITY else ATARIX_BIB_BUILDER_E_LENGTH, Some b)"
proof -
  have plen: "length (tlv_payload t) = unat n" using payload by (simp add: t_def)
  have cap: "bib_length ts \<le> bld_capacity b" "bld_capacity b < 2 ^ 32" "bld_buffer b \<noteq> None"
    and len: "unat (bld_length b) = bib_length ts" and seal: "bld_sealed b = 0"
    using b by (simp_all add: building_def)
  note lengths = add_tlv_lengths [OF plen]
  consider (long) "\<not> 16 + unat n + 7 < 2 ^ 32"
    | (full) "16 + unat n + 7 < 2 ^ 32" "\<not> bib_length ts + record_length t \<le> bld_capacity b"
    | (fits) "16 + unat n + 7 < 2 ^ 32" "bib_length ts + record_length t \<le> bld_capacity b" by blast
  then show ?thesis
  proof cases
    case long
    then have "\<not> bib_length ts + record_length t \<le> bld_capacity b"
      using cap record_length_bounds(1) [of t] plen by (auto simp: bib_length_def)
    then show ?thesis
      using lengths long cap seal flags by (auto simp: atarix_bib_builder_add_tlv_def Let_def)
  next
    case full
    with cap lengths len have "unat (of_nat (record_length t) :: u32) > bld_capacity b - unat (bld_length b)"
      by simp
    then show ?thesis
      using full lengths cap seal flags by (auto simp: atarix_bib_builder_add_tlv_def Let_def)
  next
    case fits
    have "unat (bld_length b + of_nat (record_length t)) = bib_length (ts @ [t])"
      using fits cap lengths len by (simp add: unat_add_small)
    then show ?thesis
      using fits b by (auto simp: add_tlv_bytes [OF b flags payload t_def [THEN meta_eq_to_obj_eq] fits] building_def)
  qed
qed

lemma building_states:
  assumes "building h ts b"
  shows "bld_buffer b \<noteq> None" "bld_sealed b = 0" "unat (bld_length b) = bib_length ts"
    "bib_length ts \<le> bld_capacity b"
  using assms by (simp_all add: building_def)

lemma reference_payload:
  "overwrite (overwrite (overwrite (overwrite (overwrite (replicate 40 0)
      0 (le64_bytes object_id)) 8 (le64_bytes address)) 16 (le64_bytes len))
      24 (le32_bytes format_major)) 28 (le32_bytes format_minor)
    = reference_bytes object_id address len format_major format_minor"
  by (simp add: overwrite_def reference_bytes_def le32_bytes_def le64_bytes_def numeral_eq_Suc)

lemma add_reference_eq:
  "atarix_bib_builder_add_reference builder type flags object_id address len format_major format_minor
    = atarix_bib_builder_add_tlv builder type flags
        (Some (reference_bytes object_id address len format_major format_minor)) 40"
  unfolding reference_payload [symmetric]
  by (simp add: atarix_bib_builder_add_reference_def Let_def c_mem overwrite_replicate)

section \<open>Sealing\<close>

lemma seal_building:
  assumes "building h ts b"
  shows "\<exists>b'. atarix_bib_builder_seal (Some b) sl
      = Some (ATARIX_BIB_BUILDER_OK, Some b', map_option (\<lambda>_. of_nat (bib_length ts)) sl) \<and>
    bld_buffer b' = Some (bib_image h ts @ replicate (bld_capacity b - bib_length ts) 0) \<and>
    bld_sealed b' = 1"
proof -
  let ?z = "replicate (bld_capacity b - bib_length ts) (0 :: u8)"
  define Q where "Q = tlvs_bytes ts @ ?z"
  have b: "bld_buffer b = Some (bib_header h 0 0 0 @ Q)" "unat (bld_length b) = bib_length ts"
    "bib_length ts \<le> bld_capacity b" "bld_tlv_count b = of_nat (length ts)" "bld_sealed b = 0"
    using assms by (simp_all add: building_def Q_def)
  have n: "bld_length b = of_nat (bib_length ts)" unfolding b(2) [symmetric] by simp
  have Q: "64 + length Q = bld_capacity b" using b(3) by (simp add: Q_def bib_length_def)
  have t: "take (bib_length ts) (bib_header h a c d @ Q) = bib_header h a c d @ tlvs_bytes ts" for a c d
    by (simp add: Q_def bib_length_def)
  have crc: "crc32c (bib_header h (bld_length b) 0 (of_nat (length ts)) @ Q) (bib_length ts)
      = Some (bib_checksum h ts)"
    using b(3) Q by (simp add: crc32c_eq t bib_checksum_def n del: take_append)
  show ?thesis
    by (simp add: atarix_bib_builder_seal_def b crc c_mem bib_header_fields)
       (simp add: bib_image_def Q_def n)
qed

section \<open>Sequences of calls\<close>

text \<open>
  The calls a client makes between \<open>atarix_bib_builder_init\<close> and \<open>atarix_bib_builder_seal\<close>, with any
  arguments. A payload pointer is \<open>NULL\<close> or covers the length given with it.
\<close>

datatype builder_call =
    Add_Tlv u16 u16 "bytes option" u32
  | Add_Reference u16 u16 u64 u64 u64 u32 u32

fun payload_covered :: "builder_call \<Rightarrow> bool" where
  "payload_covered (Add_Tlv type flags payload n) \<longleftrightarrow>
     (case payload of None \<Rightarrow> True | Some d \<Rightarrow> unat n \<le> length d)"
| "payload_covered (Add_Reference type flags object_id address len major minor) \<longleftrightarrow> True"

fun build_call ::
  "builder_call \<Rightarrow> atarix_bib_builder \<Rightarrow> (atarix_bib_builder_result \<times> atarix_bib_builder) option" where
  "build_call (Add_Tlv type flags payload n) b = do {
     (r, b) \<leftarrow> atarix_bib_builder_add_tlv (Some b) type flags payload n;
     Some (r, the b)
   }"
| "build_call (Add_Reference type flags object_id address len major minor) b = do {
     (r, b) \<leftarrow> atarix_bib_builder_add_reference (Some b) type flags object_id address len major minor;
     Some (r, the b)
   }"

text \<open>The record a call asks for; a \<open>NULL\<close> payload with a length asks for none.\<close>

fun call_record :: "builder_call \<Rightarrow> bib_tlv option" where
  "call_record (Add_Tlv type flags payload n) =
     (case payload of
        None \<Rightarrow> if n = 0 then Some \<lparr>tlv_type = type, tlv_flags = flags, tlv_payload = []\<rparr> else None
      | Some d \<Rightarrow> Some \<lparr>tlv_type = type, tlv_flags = flags, tlv_payload = take (unat n) d\<rparr>)"
| "call_record (Add_Reference type flags object_id address len major minor) =
     Some \<lparr>tlv_type = type, tlv_flags = flags, tlv_payload = reference_bytes object_id address len major minor\<rparr>"

text \<open>What a call returns and the records after it, of a builder of \<open>cap\<close> bytes that holds \<open>ts\<close>.\<close>

definition append_spec ::
  "nat \<Rightarrow> builder_call \<Rightarrow> bib_tlv list \<Rightarrow> atarix_bib_builder_result \<times> bib_tlv list" where
  "append_spec cap c ts =
     (case call_record c of
        None \<Rightarrow> (ATARIX_BIB_BUILDER_E_ARGUMENT, ts)
      | Some t \<Rightarrow>
          if \<not> atarix_bib_tlv_flags_are_known (tlv_flags t) then (ATARIX_BIB_BUILDER_E_FLAGS, ts)
          else if bib_length ts + record_length t \<le> cap then (ATARIX_BIB_BUILDER_OK, ts @ [t])
          else if 16 + length (tlv_payload t) + 7 < 2 ^ 32 then (ATARIX_BIB_BUILDER_E_CAPACITY, ts)
          else (ATARIX_BIB_BUILDER_E_LENGTH, ts))"

lemma add_tlv_null:
  "atarix_bib_builder_add_tlv (Some b) type flags None 0 = atarix_bib_builder_add_tlv (Some b) type flags (Some []) 0"
  by (simp add: atarix_bib_builder_add_tlv_def Let_def split: option.split)

lemma add_tlv_null_argument:
  "n \<noteq> 0 \<Longrightarrow> atarix_bib_builder_add_tlv (Some b) type flags None n = Some (ATARIX_BIB_BUILDER_E_ARGUMENT, Some b)"
  by (simp add: atarix_bib_builder_add_tlv_def)

text \<open>Every call that asks for a record is an \<open>atarix_bib_builder_add_tlv\<close> with a payload.\<close>

lemma build_call_add_tlv:
  assumes "payload_covered c" "call_record c = Some t"
  obtains d n where "unat n \<le> length d" "tlv_payload t = take (unat n) d"
    "\<And>b. build_call c b = do {
       (r, b) \<leftarrow> atarix_bib_builder_add_tlv (Some b) (tlv_type t) (tlv_flags t) (Some d) n; Some (r, the b) }"
proof (cases c)
  case (Add_Tlv type flags payload n)
  show ?thesis
  proof (cases payload)
    case None
    with Add_Tlv assms that [of 0 "[]"] show ?thesis by (auto simp: add_tlv_null split: if_splits)
  next
    case (Some d)
    with Add_Tlv assms that [of n d] show ?thesis by auto
  qed
next
  case (Add_Reference type flags object_id address len major minor)
  with assms that [of 40 "reference_bytes object_id address len major minor"] show ?thesis
    by (auto simp: add_reference_eq)
qed

lemma build_call_building:
  assumes "payload_covered c" "building h ts b \<and> bld_capacity b = cap" "append_spec cap c ts = (r, us)"
  shows "\<exists>b'. build_call c b = Some (r, b') \<and> building h us b' \<and> bld_capacity b' = cap"
proof (cases "call_record c")
  case None
  then obtain type flags n where "c = Add_Tlv type flags None n" "n \<noteq> 0"
    by (cases c) (auto split: option.splits if_splits)
  then show ?thesis using assms(2,3) by (simp add: append_spec_def add_tlv_null_argument)
next
  case (Some t)
  from build_call_add_tlv [OF assms(1) Some] obtain d n where d: "unat n \<le> length d" "tlv_payload t = take (unat n) d"
    "\<And>b. build_call c b = do {
       (r, b) \<leftarrow> atarix_bib_builder_add_tlv (Some b) (tlv_type t) (tlv_flags t) (Some d) n; Some (r, the b) }"
    by blast
  have t: "\<lparr>tlv_type = tlv_type t, tlv_flags = tlv_flags t, tlv_payload = take (unat n) d\<rparr> = t"
    using d(2) by simp
  show ?thesis
  proof (cases "atarix_bib_tlv_flags_are_known (tlv_flags t)")
    case False
    then show ?thesis
      using assms(2,3) Some building_states [of h ts b]
      by (auto simp: d(3) append_spec_def atarix_bib_builder_add_tlv_def)
  next
    case True
    have "length (tlv_payload t) = unat n" using d(1,2) by simp
    with add_tlv_building [of h ts b "tlv_flags t" n d "tlv_type t", unfolded t] True assms(2,3) Some d(1) show ?thesis
      by (auto simp: d(3) append_spec_def split: if_splits)
  qed
qed

interpretation appending: call_refinement payload_covered build_call "append_spec cap"
    "\<lambda>ts b. building h ts b \<and> bld_capacity b = cap" for h cap
  by unfold_locales (rule build_call_building)

text \<open>A sealed builder.\<close>

lemma sealed_call:
  assumes "bld_buffer b \<noteq> None" "bld_sealed b \<noteq> 0" "payload_covered c" "call_record c \<noteq> None"
  shows "build_call c b = Some (ATARIX_BIB_BUILDER_E_STATE, b)"
proof -
  from assms(4) obtain t where "call_record c = Some t" by blast
  from build_call_add_tlv [OF assms(3) this] obtain d n where "\<And>b. build_call c b = do {
       (r, b) \<leftarrow> atarix_bib_builder_add_tlv (Some b) (tlv_type t) (tlv_flags t) (Some d) n; Some (r, the b) }"
    by blast
  with assms(1,2) show ?thesis by (auto simp: atarix_bib_builder_add_tlv_def)
qed

text \<open>A whole run of the builder, from initialisation to the sealed image.\<close>

lemma builder_run:
  assumes "64 \<le> cap" "cap \<le> unat UINT32_MAX" "cap = length buf"
    and "atarix_bib_header_flags_are_known (ids_flags h)" and "list_all payload_covered calls"
    and "run_spec (append_spec cap) calls [] = (results, ts)"
  obtains s b e where
    "atarix_bib_builder_init (Some b0) (Some buf) cap (ids_flags h) (ids_boot h) (ids_producer h) (ids_counter h)
      = Some (ATARIX_BIB_BUILDER_OK, Some s)"
    "run_calls build_call calls s = Some (results, b)"
    "atarix_bib_builder_seal (Some b) (Some len)
      = Some (ATARIX_BIB_BUILDER_OK, Some e, Some (of_nat (bib_length ts)))"
    "bib_length ts \<le> cap" "bld_buffer e = Some (bib_image h ts @ replicate (cap - bib_length ts) 0)"
    "bld_sealed e = 1"
proof -
  have h: "\<lparr>ids_flags = ids_flags h, ids_boot = ids_boot h, ids_producer = ids_producer h,
      ids_counter = ids_counter h\<rparr> = h" by simp
  obtain s where init: "atarix_bib_builder_init (Some b0) (Some buf) cap (ids_flags h) (ids_boot h)
      (ids_producer h) (ids_counter h) = Some (ATARIX_BIB_BUILDER_OK, Some s)"
    and s: "building h [] s \<and> bld_capacity s = cap"
    using init_building [OF assms(1-4), of b0 "ids_boot h" "ids_producer h" "ids_counter h"]
    unfolding h by blast
  obtain b where run: "run_calls build_call calls s = Some (results, b)"
    and b: "building h ts b" "bld_capacity b = cap"
    using appending.rel_calls [OF assms(5) s assms(6)] by blast
  from building_states(4) [OF b(1)] seal_building [OF b(1), of "Some len"] init run b(2) that
  show thesis by auto
qed

section \<open>Properties\<close>

text \<open>
  C22. On a builder holding the records \<open>ts\<close>, \<open>atarix_bib_builder_add_tlv\<close> and
  \<open>atarix_bib_builder_add_reference\<close> with known flags either append the record's exact byte encoding
  (zero padded to eight bytes) or, exactly when it does not fit the capacity, report the length or
  capacity error and leave the builder as it was; unknown flags are refused without change.
\<close>

theorem builder_add_exact:
  assumes "building h ts b" "unat n \<le> length payload"
    and "t = \<lparr>tlv_type = type, tlv_flags = flags, tlv_payload = take (unat n) payload\<rparr>"
  shows "(if \<not> atarix_bib_tlv_flags_are_known flags
      then atarix_bib_builder_add_tlv (Some b) type flags (Some payload) n
        = Some (ATARIX_BIB_BUILDER_E_FLAGS, Some b)
      else if bib_length ts + record_length t \<le> bld_capacity b
      then \<exists>b'. atarix_bib_builder_add_tlv (Some b) type flags (Some payload) n
          = Some (ATARIX_BIB_BUILDER_OK, Some b') \<and> building h (ts @ [t]) b' \<and>
            bld_capacity b' = bld_capacity b
      else \<exists>e. e \<in> {ATARIX_BIB_BUILDER_E_LENGTH, ATARIX_BIB_BUILDER_E_CAPACITY} \<and>
          atarix_bib_builder_add_tlv (Some b) type flags (Some payload) n = Some (e, Some b)) \<and>
    atarix_bib_builder_add_reference (Some b) type flags oid addr len major minor
      = atarix_bib_builder_add_tlv (Some b) type flags
          (Some (reference_bytes oid addr len major minor)) 40"
proof (cases "atarix_bib_tlv_flags_are_known flags")
  case True
  then show ?thesis
    using add_tlv_building [OF assms(1) True assms(2)] unfolding assms(3) by (simp add: add_reference_eq split: if_splits)
next
  case False
  then show ?thesis
    using building_states [OF assms(1)] by (auto simp: atarix_bib_builder_add_tlv_def add_reference_eq)
qed

lemma building_start:
  "building \<lparr>ids_flags = 1, ids_boot = 2, ids_producer = 3, ids_counter = 4\<rparr> []
     \<lparr>bld_buffer = Some (bib_header \<lparr>ids_flags = 1, ids_boot = 2, ids_producer = 3, ids_counter = 4\<rparr> 0 0 0
        @ replicate 64 0), bld_capacity = 128, bld_length = 64, bld_tlv_count = 0, bld_sealed = 0\<rparr>"
  by (simp add: building_def tlvs_bytes_def)

theorem builder_add_exact_witness:
  "\<exists>b'. atarix_bib_builder_add_tlv (Some \<lparr>bld_buffer = Some (bib_header
      \<lparr>ids_flags = 1, ids_boot = 2, ids_producer = 3, ids_counter = 4\<rparr> 0 0 0 @ replicate 64 0),
      bld_capacity = 128, bld_length = 64, bld_tlv_count = 0, bld_sealed = 0\<rparr>) 5 1 (Some [1, 2, 3]) 3
    = Some (ATARIX_BIB_BUILDER_OK, Some b')"
  using builder_add_exact [where n = 3 and payload = "[1, 2, 3]" and type = 5 and flags = 1
      and oid = 0 and addr = 0 and len = 0 and major = 0 and minor = 0, OF building_start _ refl]
  by (auto simp: atarix_bib_tlv_flags_are_known_def record_length_def align8_def)

text \<open>
  C3. Starting a builder on a buffer of the given capacity, making any sequence of calls of
  \<open>atarix_bib_builder_add_tlv\<close> and \<open>atarix_bib_builder_add_reference\<close> and sealing never accesses memory
  outside the buffer or a payload. Each call returns what \<open>append_spec\<close> says (an error exactly for a \<open>NULL\<close>
  payload with a length, unknown flags, or a record that does not fit), and the sealed buffer holds
  exactly the image of the accepted records, in order, followed by zeros, with its length reported.
  A sealed builder refuses to be sealed again and refuses every further record, without change.
\<close>

theorem builder_produces_image:
  assumes "64 \<le> cap" "cap \<le> unat UINT32_MAX" "cap = length buf"
    and "atarix_bib_header_flags_are_known f" and "list_all payload_covered calls"
    and "run_spec (append_spec cap) calls [] = (results, ts)"
    and "h = \<lparr>ids_flags = f, ids_boot = boot, ids_producer = producer, ids_counter = counter\<rparr>"
  shows "\<exists>s b e. atarix_bib_builder_init (Some b0) (Some buf) cap f boot producer counter
        = Some (ATARIX_BIB_BUILDER_OK, Some s) \<and>
      run_calls build_call calls s = Some (results, b) \<and>
      atarix_bib_builder_seal (Some b) (Some len)
        = Some (ATARIX_BIB_BUILDER_OK, Some e, Some (of_nat (bib_length ts))) \<and>
      bib_length ts \<le> cap \<and>
      bld_buffer e = Some (bib_image h ts @ replicate (cap - bib_length ts) 0) \<and>
      (\<forall>sl. atarix_bib_builder_seal (Some e) sl = Some (ATARIX_BIB_BUILDER_E_STATE, Some e, sl)) \<and>
      (\<forall>c. payload_covered c \<and> call_record c \<noteq> None \<longrightarrow>
        build_call c e = Some (ATARIX_BIB_BUILDER_E_STATE, e))"
proof -
  have f: "atarix_bib_header_flags_are_known (ids_flags h)" using assms(4,7) by simp
  show ?thesis
    by (rule builder_run [OF assms(1-3) f assms(5,6), of b0 len])
       (use assms(7) in \<open>auto simp: atarix_bib_builder_seal_def sealed_call\<close>)
qed

text \<open>
  A buffer of 144 bytes: the first record and the reference fit, unknown flags and a \<open>NULL\<close> payload are
  refused, and the last record does not fit.
\<close>

definition sample_calls :: "builder_call list" where
  "sample_calls = [Add_Tlv 5 1 (Some [1, 2, 3]) 3, Add_Tlv 6 0x80 (Some []) 0, Add_Tlv 6 0 None 4,
     Add_Reference 8 0 7 4096 512 1 0, Add_Tlv 6 0 None 0]"

definition sample_records :: "bib_tlv list" where
  "sample_records = [\<lparr>tlv_type = 5, tlv_flags = 1, tlv_payload = [1, 2, 3]\<rparr>,
     \<lparr>tlv_type = 8, tlv_flags = 0, tlv_payload = reference_bytes 7 4096 512 1 0\<rparr>]"

lemma sample_run: "list_all payload_covered sample_calls"
  "run_spec (append_spec 144) sample_calls [] =
    ([ATARIX_BIB_BUILDER_OK, ATARIX_BIB_BUILDER_E_FLAGS, ATARIX_BIB_BUILDER_E_ARGUMENT,
      ATARIX_BIB_BUILDER_OK, ATARIX_BIB_BUILDER_E_CAPACITY], sample_records)"
  by (simp_all add: sample_calls_def sample_records_def append_spec_def atarix_bib_tlv_flags_are_known_def
      record_length_def align8_def bib_length_def)

definition blank_builder :: atarix_bib_builder where
  "blank_builder = \<lparr>bld_buffer = None, bld_capacity = 0, bld_length = 0, bld_tlv_count = 0, bld_sealed = 0\<rparr>"

theorem builder_produces_image_witness:
  "\<exists>s b e. atarix_bib_builder_init (Some blank_builder) (Some (replicate 144 0xAA)) 144 1 2 3 4
        = Some (ATARIX_BIB_BUILDER_OK, Some s) \<and>
      run_calls build_call sample_calls s =
        Some ([ATARIX_BIB_BUILDER_OK, ATARIX_BIB_BUILDER_E_FLAGS, ATARIX_BIB_BUILDER_E_ARGUMENT,
          ATARIX_BIB_BUILDER_OK, ATARIX_BIB_BUILDER_E_CAPACITY], b) \<and>
      atarix_bib_builder_seal (Some b) (Some 0) = Some (ATARIX_BIB_BUILDER_OK, Some e, Some 144) \<and>
      bld_buffer e = Some (bib_image \<lparr>ids_flags = 1, ids_boot = 2, ids_producer = 3, ids_counter = 4\<rparr> sample_records)"
proof -
  have f: "atarix_bib_header_flags_are_known 1" by (simp add: atarix_bib_header_flags_are_known_def)
  have len: "bib_length sample_records = 144"
    by (simp add: sample_records_def bib_length_def record_length_def align8_def)
  have buf: "144 = length (replicate 144 (0xAA :: u8))" by simp
  show ?thesis
    using builder_produces_image [OF _ _ buf f sample_run refl, of blank_builder 2 3 4 0]
    by (fastforce simp: len)
qed

end
