(* ===== verification/Bib_Reader.thy ===== *)
theory Bib_Reader
  imports Bib_Builder
begin

text \<open>
  The BIB reader: \<open>include/atarix/bib_reader.h\<close> and \<open>src/bib/bib_reader.c\<close>. A view keeps the buffer it
  was opened on; the pointers into that buffer that records and references carry (\<open>payload\<close>,
  \<open>integrity\<close>) are offsets from its start. A function that returns an error code and fills an output
  only when the code is \<open>ATARIX_BIB_OK\<close> returns \<open>Inl\<close> the error or \<open>Inr\<close> the output.
\<close>

section \<open>State\<close>

record atarix_bib_view =
  view_buffer :: "bytes option"
  view_total_length :: u32
  view_tlv_offset :: u32
  view_tlv_count :: u32
  view_flags :: u16
  view_boot_id :: u64
  view_producer_id :: u64
  view_created_counter :: u64

record atarix_bib_record_view =
  rec_type :: u16
  rec_flags :: u16
  rec_payload :: nat
  rec_payload_length :: u32
  rec_serialized_length :: u32

record atarix_bib_reference_view =
  ref_object_id :: u64
  ref_address :: u64
  ref_length :: u64
  ref_format_major :: u32
  ref_format_minor :: u32
  ref_integrity_kind :: u32
  ref_integrity :: nat
  ref_integrity_length :: u32

text \<open>\<open>memset(view, 0, sizeof(*view))\<close>\<close>

definition zeroed_view :: atarix_bib_view where
  "zeroed_view = \<lparr>view_buffer = None, view_total_length = 0, view_tlv_offset = 0, view_tlv_count = 0,
     view_flags = 0, view_boot_id = 0, view_producer_id = 0, view_created_counter = 0\<rparr>"

section \<open>Operations\<close>

definition known_type :: "u16 \<Rightarrow> bool" where
  "known_type type \<longleftrightarrow>
     type \<ge> ATARIX_BIB_TLV_SERVICE_DIRECTORY_REFERENCE \<and> type \<le> ATARIX_BIB_TLV_ENTROPY_SEED_REFERENCE"

definition record_at_offset ::
  "atarix_bib_view \<Rightarrow> u32 \<Rightarrow> (atarix_bib_error + atarix_bib_record_view) option" where
  "record_at_offset view offset =
     (if offset > view_total_length view \<or>
         view_total_length view - offset < of_nat ATARIX_BIB_TLV_HEADER_SIZE_V1
      then Some (Inl ATARIX_BIB_E_TLV_BOUNDS)
      else do {
        buffer \<leftarrow> view_buffer view;
        let p = unat offset;
        len \<leftarrow> read_le32 buffer (p + 4);
        payload_length \<leftarrow> read_le32 buffer (p + 8);
        if len < of_nat ATARIX_BIB_TLV_HEADER_SIZE_V1 \<or> \<not> atarix_bib_length_is_aligned len \<or>
           len > view_total_length view - offset \<or>
           payload_length > len - of_nat ATARIX_BIB_TLV_HEADER_SIZE_V1
        then Some (Inl ATARIX_BIB_E_TLV_BOUNDS)
        else do {
          flags \<leftarrow> read_le16 buffer (p + 2);
          reserved \<leftarrow> read_le32 buffer (p + 12);
          if \<not> atarix_bib_tlv_flags_are_known flags \<or> reserved \<noteq> 0
          then Some (Inl ATARIX_BIB_E_TLV_RESERVED)
          else do {
            type \<leftarrow> read_le16 buffer p;
            Some (Inr \<lparr>rec_type = type, rec_flags = flags,
                       rec_payload = p + ATARIX_BIB_TLV_HEADER_SIZE_V1,
                       rec_payload_length = payload_length, rec_serialized_length = len\<rparr>)
          }
        }
      })"

text \<open>
  One round of the loop of \<open>atarix_bib_reader_open\<close> after \<open>record_at_offset\<close>: the checks on the record,
  and what it adds to the two counters.
\<close>

definition open_check ::
  "bytes \<Rightarrow> atarix_bib_record_view \<Rightarrow> (atarix_bib_error + u32 \<times> u32) option" where
  "open_check buffer r =
     (if \<not> known_type (rec_type r) \<and> rec_flags r AND ATARIX_BIB_TLV_FLAG_MANDATORY \<noteq> 0
      then Some (Inl ATARIX_BIB_E_UNKNOWN_MANDATORY)
      else if rec_type r = ATARIX_BIB_TLV_SERVICE_DIRECTORY_REFERENCE \<or>
              rec_type r = ATARIX_BIB_TLV_MEMORY_MAP_REFERENCE
      then if rec_payload_length r < of_nat ATARIX_BIB_REFERENCE_FIXED_SIZE_V1
           then Some (Inl ATARIX_BIB_E_TLV_BOUNDS)
           else do {
             address \<leftarrow> read_le64 buffer (rec_payload r + 8);
             len \<leftarrow> read_le64 buffer (rec_payload r + 16);
             if address > UINT64_MAX - len then Some (Inl ATARIX_BIB_E_REFERENCE_OVERFLOW)
             else Some (Inr
               (if rec_type r = ATARIX_BIB_TLV_SERVICE_DIRECTORY_REFERENCE then 1 else 0,
                if rec_type r = ATARIX_BIB_TLV_MEMORY_MAP_REFERENCE then 1 else 0))
           }
      else Some (Inr (0, 0)))"

text \<open>The loop returns the offset behind the last record and the two counters.\<close>

function open_records ::
  "atarix_bib_view \<Rightarrow> bytes \<Rightarrow> u32 \<Rightarrow> u32 \<Rightarrow> u32 \<Rightarrow> u32 \<Rightarrow> (atarix_bib_error + u32 \<times> u32 \<times> u32) option" where
  "open_records view buffer index offset service_count memory_count =
     (if index < view_tlv_count view
      then do {
        res \<leftarrow> record_at_offset view offset;
        (case res of
           Inl error \<Rightarrow> Some (Inl error)
         | Inr r \<Rightarrow> do {
             chk \<leftarrow> open_check buffer r;
             (case chk of
                Inl error \<Rightarrow> Some (Inl error)
              | Inr (s, m) \<Rightarrow>
                  open_records view buffer (index + 1) (offset + rec_serialized_length r)
                    (service_count + s) (memory_count + m))
           })
      }
      else Some (Inr (offset, service_count, memory_count)))"
  by pat_completeness auto
termination
  by (relation "measure (\<lambda>(view, buffer, index, offset, s, m). unat (view_tlv_count view) - unat index)")
     (auto simp: unat_inc word_less_nat_alt)

declare open_records.simps [simp del]

definition atarix_bib_reader_open ::
  "atarix_bib_view option \<Rightarrow> bytes option \<Rightarrow> nat \<Rightarrow> (atarix_bib_error \<times> atarix_bib_view option) option" where
  "atarix_bib_reader_open view buffer window_length =
     (if view = None \<or> buffer = None \<or> window_length < ATARIX_BIB_HEADER_SIZE_V1
      then Some (ATARIX_BIB_E_WINDOW, view)
      else do {
        let fail = (\<lambda>error. Some (error, Some zeroed_view));
        let p = the buffer;
        magic \<leftarrow> atarix_bib_magic_is_valid buffer;
        if \<not> magic then fail ATARIX_BIB_E_MAGIC else do {
        version \<leftarrow> read_le16 p 8;
        if version \<noteq> ATARIX_BIB_VERSION_MAJOR_V1 then fail ATARIX_BIB_E_VERSION else do {
        header_length \<leftarrow> read_le16 p 12;
        if header_length \<noteq> of_nat ATARIX_BIB_HEADER_SIZE_V1 then fail ATARIX_BIB_E_HEADER_LENGTH else do {
        total_length \<leftarrow> read_le32 p 16;
        if total_length < of_nat ATARIX_BIB_HEADER_SIZE_V1 \<or> unat total_length > window_length \<or>
           total_length > of_nat ATARIX_BIB_RECOMMENDED_MAX_SIZE_V1 \<or>
           \<not> atarix_bib_length_is_aligned total_length
        then fail ATARIX_BIB_E_TOTAL_LENGTH else do {
        stored \<leftarrow> read_le32 p 20;
        computed \<leftarrow> crc32c_with_zeroed_field p total_length;
        if stored \<noteq> computed then fail ATARIX_BIB_E_CRC else do {
        flags \<leftarrow> read_le16 p 14;
        reserved \<leftarrow> read_le64 p 56;
        if \<not> atarix_bib_header_flags_are_known flags \<or> reserved \<noteq> 0
        then fail ATARIX_BIB_E_HEADER_RESERVED else do {
        tlv_offset \<leftarrow> read_le32 p 48;
        tlv_count \<leftarrow> read_le32 p 52;
        boot_id \<leftarrow> read_le64 p 24;
        producer_id \<leftarrow> read_le64 p 32;
        created_counter \<leftarrow> read_le64 p 40;
        let v = \<lparr>view_buffer = Some p, view_total_length = total_length, view_tlv_offset = tlv_offset,
                 view_tlv_count = tlv_count, view_flags = flags, view_boot_id = boot_id,
                 view_producer_id = producer_id, view_created_counter = created_counter\<rparr>;
        if tlv_offset < of_nat ATARIX_BIB_HEADER_SIZE_V1 \<or> tlv_offset > total_length \<or>
           \<not> atarix_bib_length_is_aligned tlv_offset
        then fail ATARIX_BIB_E_TLV_BOUNDS else do {
        res \<leftarrow> open_records v p 0 tlv_offset 0 0;
        (case res of
           Inl error \<Rightarrow> fail error
         | Inr (offset, service_count, memory_count) \<Rightarrow>
             if offset \<noteq> total_length then fail ATARIX_BIB_E_TLV_BOUNDS
             else if service_count \<noteq> 1 \<or> memory_count \<noteq> 1 then fail ATARIX_BIB_E_REQUIRED_RECORD
             else Some (ATARIX_BIB_OK, Some v))
        }}}}}}}
      })"

function skip_records ::
  "atarix_bib_view \<Rightarrow> u32 \<Rightarrow> u32 \<Rightarrow> u32 \<Rightarrow> (atarix_bib_error + u32) option" where
  "skip_records view current index offset =
     (if current < index
      then do {
        res \<leftarrow> record_at_offset view offset;
        (case res of
           Inl error \<Rightarrow> Some (Inl error)
         | Inr skip \<Rightarrow> skip_records view (current + 1) index (offset + rec_serialized_length skip))
      }
      else Some (Inr offset))"
  by pat_completeness auto
termination
  by (relation "measure (\<lambda>(view, current, index, offset). unat index - unat current)")
     (auto simp: unat_inc word_less_nat_alt)

declare skip_records.simps [simp del]

text \<open>The output pointer is given as a flag: only whether it is \<open>NULL\<close> matters.\<close>

definition atarix_bib_reader_record ::
  "atarix_bib_view option \<Rightarrow> u32 \<Rightarrow> bool \<Rightarrow> (atarix_bib_error + atarix_bib_record_view) option" where
  "atarix_bib_reader_record view index has_output =
     (case view of
        None \<Rightarrow> Some (Inl ATARIX_BIB_E_TLV_BOUNDS)
      | Some v \<Rightarrow>
          if view_buffer v = None \<or> \<not> has_output \<or> index \<ge> view_tlv_count v
          then Some (Inl ATARIX_BIB_E_TLV_BOUNDS)
          else do {
            res \<leftarrow> skip_records v 0 index (view_tlv_offset v);
            (case res of Inl error \<Rightarrow> Some (Inl error) | Inr offset \<Rightarrow> record_at_offset v offset)
          })"

definition reference_of_record ::
  "bytes \<Rightarrow> atarix_bib_record_view \<Rightarrow> (atarix_bib_error + atarix_bib_reference_view) option" where
  "reference_of_record buffer r =
     (if rec_payload_length r < of_nat ATARIX_BIB_REFERENCE_FIXED_SIZE_V1
      then Some (Inl ATARIX_BIB_E_TLV_BOUNDS)
      else do {
        let payload = rec_payload r;
        integrity_length \<leftarrow> read_le32 buffer (payload + 36);
        if integrity_length > rec_payload_length r - of_nat ATARIX_BIB_REFERENCE_FIXED_SIZE_V1
        then Some (Inl ATARIX_BIB_E_REFERENCE_INTEGRITY)
        else do {
          object_id \<leftarrow> read_le64 buffer (payload + 0);
          address \<leftarrow> read_le64 buffer (payload + 8);
          len \<leftarrow> read_le64 buffer (payload + 16);
          format_major \<leftarrow> read_le32 buffer (payload + 24);
          format_minor \<leftarrow> read_le32 buffer (payload + 28);
          integrity_kind \<leftarrow> read_le32 buffer (payload + 32);
          Some (Inr \<lparr>ref_object_id = object_id, ref_address = address, ref_length = len,
                     ref_format_major = format_major, ref_format_minor = format_minor,
                     ref_integrity_kind = integrity_kind,
                     ref_integrity = payload + ATARIX_BIB_REFERENCE_FIXED_SIZE_V1,
                     ref_integrity_length = integrity_length\<rparr>)
        }
      })"

function find_reference_from ::
  "atarix_bib_view \<Rightarrow> u16 \<Rightarrow> u32 \<Rightarrow> (atarix_bib_error + atarix_bib_reference_view) option" where
  "find_reference_from view type index =
     (if index < view_tlv_count view
      then do {
        res \<leftarrow> atarix_bib_reader_record (Some view) index True;
        (case res of
           Inl error \<Rightarrow> Some (Inl error)
         | Inr r \<Rightarrow>
             if rec_type r = type
             then do { buffer \<leftarrow> view_buffer view; reference_of_record buffer r }
             else find_reference_from view type (index + 1))
      }
      else Some (Inl ATARIX_BIB_E_REQUIRED_RECORD))"
  by pat_completeness auto
termination
  by (relation "measure (\<lambda>(view, type, index). unat (view_tlv_count view) - unat index)")
     (auto simp: unat_inc word_less_nat_alt)

declare find_reference_from.simps [simp del]

definition atarix_bib_reader_find_reference ::
  "atarix_bib_view option \<Rightarrow> u16 \<Rightarrow> bool \<Rightarrow> (atarix_bib_error + atarix_bib_reference_view) option" where
  "atarix_bib_reader_find_reference view type has_output =
     (case view of
        None \<Rightarrow> Some (Inl ATARIX_BIB_E_WINDOW)
      | Some v \<Rightarrow>
          if \<not> has_output then Some (Inl ATARIX_BIB_E_WINDOW) else find_reference_from v type 0)"


section \<open>What the reader accepts\<close>

declare fields_at [c_mem]

text \<open>The record at \<open>off\<close> of an image of \<open>tot\<close> bytes is well formed, and \<open>r\<close> describes it.\<close>

definition record_ok :: "bytes \<Rightarrow> nat \<Rightarrow> nat \<Rightarrow> atarix_bib_record_view \<Rightarrow> bool" where
  "record_ok p tot off r \<longleftrightarrow>
     r = \<lparr>rec_type = u16_at p off, rec_flags = u16_at p (off + 2), rec_payload = off + 16,
          rec_payload_length = u32_at p (off + 8), rec_serialized_length = u32_at p (off + 4)\<rparr> \<and>
     16 \<le> unat (rec_serialized_length r) \<and> unat (rec_serialized_length r) mod 8 = 0 \<and>
     off + unat (rec_serialized_length r) \<le> tot \<and>
     16 + unat (rec_payload_length r) \<le> unat (rec_serialized_length r) \<and>
     atarix_bib_tlv_flags_are_known (rec_flags r) \<and> u32_at p (off + 12) = 0"

fun records_from :: "bytes \<Rightarrow> nat \<Rightarrow> nat \<Rightarrow> atarix_bib_record_view list \<Rightarrow> nat \<Rightarrow> bool" where
  "records_from p tot off [] e \<longleftrightarrow> off = e"
| "records_from p tot off (r # rs) e \<longleftrightarrow>
     record_ok p tot off r \<and> records_from p tot (off + unat (rec_serialized_length r)) rs e"

definition is_service :: "atarix_bib_record_view \<Rightarrow> bool" where
  "is_service r \<longleftrightarrow> rec_type r = ATARIX_BIB_TLV_SERVICE_DIRECTORY_REFERENCE"

definition is_memory :: "atarix_bib_record_view \<Rightarrow> bool" where
  "is_memory r \<longleftrightarrow> rec_type r = ATARIX_BIB_TLV_MEMORY_MAP_REFERENCE"

definition record_admitted :: "bytes \<Rightarrow> atarix_bib_record_view \<Rightarrow> bool" where
  "record_admitted p r \<longleftrightarrow>
     (rec_flags r AND ATARIX_BIB_TLV_FLAG_MANDATORY \<noteq> 0 \<longrightarrow> known_type (rec_type r)) \<and>
     (is_service r \<or> is_memory r \<longrightarrow>
        40 \<le> unat (rec_payload_length r) \<and>
        unat (u64_at p (rec_payload r + 8)) + unat (u64_at p (rec_payload r + 16)) < 2 ^ 64)"

text \<open>The view of an image, and what an image must satisfy.\<close>

definition view_of :: "bytes \<Rightarrow> atarix_bib_view" where
  "view_of p =
     \<lparr>view_buffer = Some p, view_total_length = u32_at p 16, view_tlv_offset = u32_at p 48,
      view_tlv_count = u32_at p 52, view_flags = u16_at p 14, view_boot_id = u64_at p 24,
      view_producer_id = u64_at p 32, view_created_counter = u64_at p 40\<rparr>"

definition header_ok :: "bytes \<Rightarrow> nat \<Rightarrow> bool" where
  "header_ok p window \<longleftrightarrow>
     take 8 p = ATARIX_BIB_MAGIC \<and> u16_at p 8 = 1 \<and> u16_at p 12 = 64 \<and>
     64 \<le> unat (u32_at p 16) \<and> unat (u32_at p 16) \<le> window \<and> unat (u32_at p 16) \<le> 65536 \<and>
     unat (u32_at p 16) mod 8 = 0 \<and>
     u32_at p 20 = crc_of crc32c_bit (take (unat (u32_at p 16)) (zeroed_field p)) \<and>
     atarix_bib_header_flags_are_known (u16_at p 14) \<and> u64_at p 56 = 0 \<and>
     64 \<le> unat (u32_at p 48) \<and> unat (u32_at p 48) \<le> unat (u32_at p 16) \<and>
     unat (u32_at p 48) mod 8 = 0"

definition image_ok :: "bytes \<Rightarrow> nat \<Rightarrow> atarix_bib_record_view list \<Rightarrow> bool" where
  "image_ok p window rs \<longleftrightarrow>
     header_ok p window \<and> length rs = unat (u32_at p 52) \<and>
     records_from p (unat (u32_at p 16)) (unat (u32_at p 48)) rs (unat (u32_at p 16)) \<and>
     list_all (record_admitted p) rs \<and>
     length (filter is_service rs) = 1 \<and> length (filter is_memory rs) = 1"

section \<open>One record\<close>

lemma sub_less_iff:
  "off \<le> tot \<Longrightarrow> tot - off < w \<longleftrightarrow> unat tot < unat off + unat w" for off tot w :: u32
  by (auto simp: word_less_nat_alt word_le_nat_alt unat_sub)

lemma less_sub_iff:
  "off \<le> tot \<Longrightarrow> w > tot - off \<longleftrightarrow> unat tot < unat off + unat w" for off tot w :: u32
  by (auto simp: word_less_nat_alt word_le_nat_alt unat_sub)

lemma record_bounds_iff:
  fixes n k off tot :: u32
  assumes "off \<le> tot"
  shows "n < 16 \<or> \<not> atarix_bib_length_is_aligned n \<or> n > tot - off \<or> k > n - 16 \<longleftrightarrow>
    \<not> (16 \<le> unat n \<and> unat n mod 8 = 0 \<and> unat off + unat n \<le> unat tot \<and> 16 + unat k \<le> unat n)"
proof (cases "n < 16")
  case True
  then show ?thesis by (simp add: word_less_nat_alt)
next
  case False
  then have "16 \<le> n" "16 \<le> unat n" by (simp_all add: word_less_nat_alt word_le_nat_alt)
  then show ?thesis using False by (auto simp: less_sub_iff assms aligned_iff not_less not_le)
qed

lemma record_at_offset_cases:
  assumes v: "view_buffer v = Some p" "unat (view_total_length v) \<le> length p"
  obtains (ok) r where "record_at_offset v off = Some (Inr r)"
      "record_ok p (unat (view_total_length v)) (unat off) r"
  | (error) e where "record_at_offset v off = Some (Inl e)" "e \<noteq> ATARIX_BIB_OK"
      "\<And>r. \<not> record_ok p (unat (view_total_length v)) (unat off) r"
proof (cases "off > view_total_length v \<or> view_total_length v - off < 16")
  case True
  then have "unat (view_total_length v) < unat off + 16"
    using sub_less_iff [of off "view_total_length v" 16]
    by (cases "off \<le> view_total_length v") (auto simp: not_le word_less_nat_alt)
  then have "\<not> record_ok p (unat (view_total_length v)) (unat off) r" for r
    by (auto simp: record_ok_def)
  with True error show ?thesis by (auto simp: record_at_offset_def)
next
  case False
  then have le: "off \<le> view_total_length v" and room: "unat off + 16 \<le> unat (view_total_length v)"
    using sub_less_iff [of off "view_total_length v" 16] by (auto simp: not_less)
  let ?n = "u32_at p (unat off + 4)" and ?k = "u32_at p (unat off + 8)"
  let ?bounds = "?n < 16 \<or> \<not> atarix_bib_length_is_aligned ?n \<or> ?n > view_total_length v - off \<or>
    ?k > ?n - 16"
  let ?r = "\<lparr>rec_type = u16_at p (unat off), rec_flags = u16_at p (unat off + 2),
    rec_payload = unat off + 16, rec_payload_length = ?k, rec_serialized_length = ?n\<rparr>"
  note b = record_bounds_iff [OF le, of ?n ?k]
  have run: "record_at_offset v off =
      (if ?bounds then Some (Inl ATARIX_BIB_E_TLV_BOUNDS)
       else if \<not> atarix_bib_tlv_flags_are_known (rec_flags ?r) \<or> u32_at p (unat off + 12) \<noteq> 0
       then Some (Inl ATARIX_BIB_E_TLV_RESERVED) else Some (Inr ?r))"
    using False room v by (simp add: record_at_offset_def Let_def c_mem)
  show ?thesis
  proof (cases "?bounds \<or> \<not> atarix_bib_tlv_flags_are_known (rec_flags ?r) \<or> u32_at p (unat off + 12) \<noteq> 0")
    case True
    then have "\<not> record_ok p (unat (view_total_length v)) (unat off) r" for r
      unfolding b by (auto simp: record_ok_def)
    moreover have "\<exists>e. record_at_offset v off = Some (Inl e) \<and> e \<noteq> ATARIX_BIB_OK"
      unfolding run using True by auto
    ultimately show ?thesis using error by blast
  next
    case False
    then have "record_ok p (unat (view_total_length v)) (unat off) ?r"
      using b by (auto simp: record_ok_def)
    moreover have "record_at_offset v off = Some (Inr ?r)"
      unfolding run using False by auto
    ultimately show ?thesis by (rule ok [rotated])
  qed
qed

lemma record_ok_unique: "record_ok p tot off r \<Longrightarrow> record_ok p tot off r' \<Longrightarrow> r = r'"
  by (simp add: record_ok_def)

text \<open>The offset behind a record does not wrap.\<close>

lemma record_ok_next:
  fixes off :: u32
  assumes "record_ok p (unat (tot :: u32)) (unat off) r"
  shows "unat (off + rec_serialized_length r) = unat off + unat (rec_serialized_length r)"
    "unat (off + rec_serialized_length r) \<le> unat tot"
proof -
  have "unat off + unat (rec_serialized_length r) \<le> unat tot"
    using assms unfolding record_ok_def by blast
  moreover have "unat tot < 2 ^ LENGTH(32)" by (rule unsigned_less)
  ultimately have "unat off + unat (rec_serialized_length r) < 2 ^ LENGTH(32)"
    by (rule le_less_trans)
  from unat_add_small [OF this]
  show "unat (off + rec_serialized_length r) = unat off + unat (rec_serialized_length r)" .
  with \<open>unat off + unat (rec_serialized_length r) \<le> unat tot\<close>
  show "unat (off + rec_serialized_length r) \<le> unat tot" by simp
qed

lemma add_overflow_iff: "a > UINT64_MAX - b \<longleftrightarrow> \<not> unat a + unat b < 2 ^ 64" for a b :: u64
proof -
  have "UINT64_MAX = - 1" by simp
  then have "b \<le> UINT64_MAX" by (simp only: word_order.extremum)
  then have "unat (UINT64_MAX - b) = 2 ^ 64 - 1 - unat b" by (simp add: unat_sub)
  moreover have "unat b < 2 ^ LENGTH(64)" by (rule unsigned_less)
  ultimately show ?thesis by (simp add: word_less_nat_alt) linarith
qed

lemma open_check_cases:
  assumes "record_ok p tot off r" "tot \<le> length p"
  obtains (ok) "open_check p r = Some (Inr (if is_service r then 1 else 0, if is_memory r then 1 else 0))"
      "record_admitted p r"
  | (error) e where "open_check p r = Some (Inl e)" "e \<noteq> ATARIX_BIB_OK" "\<not> record_admitted p r"
proof -
  let ?ref = "is_service r \<or> is_memory r"
  have room: "?ref \<Longrightarrow> 40 \<le> unat (rec_payload_length r) \<Longrightarrow> rec_payload r + 24 \<le> length p"
    using assms by (auto simp: record_ok_def)
  have short: "rec_payload_length r < 40 \<longleftrightarrow> \<not> 40 \<le> unat (rec_payload_length r)"
    by (simp add: word_less_nat_alt not_le)
  have known: "?ref \<Longrightarrow> known_type (rec_type r)"
    by (auto simp: is_service_def is_memory_def known_type_def)
  have run: "open_check p r =
      (if \<not> known_type (rec_type r) \<and> rec_flags r AND ATARIX_BIB_TLV_FLAG_MANDATORY \<noteq> 0
       then Some (Inl ATARIX_BIB_E_UNKNOWN_MANDATORY)
       else if ?ref \<and> \<not> 40 \<le> unat (rec_payload_length r) then Some (Inl ATARIX_BIB_E_TLV_BOUNDS)
       else if ?ref \<and> \<not> unat (u64_at p (rec_payload r + 8)) + unat (u64_at p (rec_payload r + 16)) < 2 ^ 64
       then Some (Inl ATARIX_BIB_E_REFERENCE_OVERFLOW)
       else Some (Inr (if is_service r then 1 else 0, if is_memory r then 1 else 0)))"
  proof (cases "?ref \<and> 40 \<le> unat (rec_payload_length r)")
    case True
    then have "rec_payload r + 24 \<le> length p" using room by blast
    then show ?thesis
      using True by (simp add: open_check_def short add_overflow_iff c_mem is_service_def is_memory_def)
  next
    case False
    then show ?thesis by (auto simp: open_check_def short is_service_def is_memory_def)
  qed
  show ?thesis
  proof (cases "record_admitted p r")
    case True
    then have "open_check p r = Some (Inr (if is_service r then 1 else 0, if is_memory r then 1 else 0))"
      unfolding run record_admitted_def by auto
    then show ?thesis using True by (rule ok)
  next
    case False
    then have "\<exists>e. open_check p r = Some (Inl e) \<and> e \<noteq> ATARIX_BIB_OK"
      unfolding run record_admitted_def by auto
    with False show ?thesis using error by blast
  qed
qed

section \<open>The loop over the records\<close>

text \<open>What the loop returns for \<open>k\<close> records from \<open>off\<close> on: their counts, or an error when there is no such chain.\<close>

definition loop_result ::
  "bytes \<Rightarrow> nat \<Rightarrow> nat \<Rightarrow> nat \<Rightarrow> u32 \<Rightarrow> u32 \<Rightarrow> (atarix_bib_error + u32 \<times> u32 \<times> u32) option \<Rightarrow> bool" where
  "loop_result p tot k off s m res \<longleftrightarrow>
     (\<exists>rs off'. res = Some (Inr (off',
          s + of_nat (length (filter is_service rs)), m + of_nat (length (filter is_memory rs)))) \<and>
        length rs = k \<and> records_from p tot off rs (unat off') \<and> list_all (record_admitted p) rs) \<or>
     (\<exists>e. res = Some (Inl e) \<and> e \<noteq> ATARIX_BIB_OK \<and>
        \<not> (\<exists>rs e. length rs = k \<and> records_from p tot off rs e \<and> list_all (record_admitted p) rs))"

lemma loop_result_end: "loop_result p tot 0 (unat off) s m (Some (Inr (off, s, m)))"
  by (simp add: loop_result_def exI [of _ off])

lemma loop_result_error:
  assumes "e \<noteq> ATARIX_BIB_OK" "\<And>r. record_ok p tot off r \<Longrightarrow> \<not> record_admitted p r"
  shows "loop_result p tot (Suc k) off s m (Some (Inl e))"
  using assms by (auto simp: loop_result_def length_Suc_conv)

lemma loop_result_step:
  assumes res: "loop_result p tot k (off + unat (rec_serialized_length r))
      (s + (if is_service r then 1 else 0)) (m + (if is_memory r then 1 else 0)) res"
    and r: "record_ok p tot off r" "record_admitted p r"
  shows "loop_result p tot (Suc k) off s m res"
proof -
  have only: "record_ok p tot off r' \<longleftrightarrow> r' = r" for r'
    using r(1) record_ok_unique by blast
  from res consider (found) rs off' where "res = Some (Inr (off',
        s + (if is_service r then 1 else 0) + of_nat (length (filter is_service rs)),
        m + (if is_memory r then 1 else 0) + of_nat (length (filter is_memory rs))))"
      "length rs = k" "records_from p tot (off + unat (rec_serialized_length r)) rs (unat off')"
      "list_all (record_admitted p) rs"
    | (error) e where "res = Some (Inl e)" "e \<noteq> ATARIX_BIB_OK"
      "\<And>rs x. length rs = k \<Longrightarrow> records_from p tot (off + unat (rec_serialized_length r)) rs x \<Longrightarrow>
        \<not> list_all (record_admitted p) rs"
    unfolding loop_result_def by blast
  then show ?thesis
  proof cases
    case found
    with r show ?thesis unfolding loop_result_def
      by (intro disjI1 exI [of _ "r # rs"] exI [of _ off']) (simp add: add.assoc)
  next
    case error
    then show ?thesis unfolding loop_result_def by (auto simp: length_Suc_conv only)
  qed
qed

lemma open_records_result:
  assumes "view_buffer v = Some p" "unat (view_total_length v) \<le> length p"
    and "unat i \<le> unat (view_tlv_count v)" "unat off \<le> unat (view_total_length v)"
  shows "loop_result p (unat (view_total_length v)) (unat (view_tlv_count v) - unat i) (unat off) s m
    (open_records v p i off s m)"
  using assms
proof (induction v p i off s m rule: open_records.induct)
  case (1 v p i off s m)
  let ?n = "unat (view_tlv_count v)"
  show ?case
  proof (cases "i < view_tlv_count v")
    case False
    then have "?n - unat i = 0" by (simp add: word_less_nat_alt)
    with False show ?thesis by (subst open_records.simps) (simp add: loop_result_end)
  next
    case less: True
    then have n: "?n - unat i = Suc (?n - unat (i + 1))" "unat (i + 1) \<le> ?n"
      by (auto simp: unat_inc word_less_nat_alt)
    from 1(2,3) show ?thesis
    proof (cases rule: record_at_offset_cases [of v p off])
      case (error e)
      with less have run: "open_records v p i off s m = Some (Inl e)"
        by (subst open_records.simps) simp
      from error show ?thesis unfolding n(1) run by (intro loop_result_error) blast+
    next
      case (ok r)
      note next_off = record_ok_next [OF ok(2)]
      have only: "record_ok p (unat (view_total_length v)) (unat off) r' \<longleftrightarrow> r' = r" for r'
        using ok(2) record_ok_unique by blast
      from ok(2) 1(3) show ?thesis
      proof (cases rule: open_check_cases)
        case (error e)
        with less ok have run: "open_records v p i off s m = Some (Inl e)"
          by (subst open_records.simps) simp
        from error show ?thesis unfolding n(1) run by (intro loop_result_error) (simp_all add: only)
      next
        case admitted: ok
        note IH = "1.IH" [OF less ok(1) refl admitted(1) refl refl 1(2,3) n(2) next_off(2)]
        show ?thesis
          unfolding n(1) using less ok admitted loop_result_step [OF IH [unfolded next_off(1)] ok(2) admitted(2)]
          by (subst open_records.simps) simp
      qed
    qed
  qed
qed

section \<open>Opening\<close>

text \<open>
  The header checks, one after the other: each one that fails returns its error with the view zeroed;
  after all of them the loop runs on the view of the image.
\<close>

definition open_body :: "bytes \<Rightarrow> (atarix_bib_error \<times> atarix_bib_view option) option" where
  "open_body p = do {
     res \<leftarrow> open_records (view_of p) p 0 (u32_at p 48) 0 0;
     (case res of
        Inl error \<Rightarrow> Some (error, Some zeroed_view)
      | Inr (off, service_count, memory_count) \<Rightarrow>
          if off \<noteq> u32_at p 16 then Some (ATARIX_BIB_E_TLV_BOUNDS, Some zeroed_view)
          else if service_count \<noteq> 1 \<or> memory_count \<noteq> 1
          then Some (ATARIX_BIB_E_REQUIRED_RECORD, Some zeroed_view)
          else Some (ATARIX_BIB_OK, Some (view_of p)))
   }"

lemma open_header:
  assumes "64 \<le> window" "window \<le> length p"
  shows "if header_ok p window then atarix_bib_reader_open (Some v) (Some p) window = open_body p
    else \<exists>e. atarix_bib_reader_open (Some v) (Some p) window = Some (e, Some zeroed_view) \<and>
      e \<noteq> ATARIX_BIB_OK"
proof -
  let ?tot = "u32_at p 16" and ?off = "u32_at p 48"
  let ?good_tot = "64 \<le> unat ?tot \<and> unat ?tot \<le> window \<and> unat ?tot \<le> 65536 \<and> unat ?tot mod 8 = 0"
  let ?good_off = "64 \<le> unat ?off \<and> unat ?off \<le> unat ?tot \<and> unat ?off mod 8 = 0"
  have tot: "?tot < 64 \<or> unat ?tot > window \<or> ?tot > 65536 \<or> \<not> atarix_bib_length_is_aligned ?tot
      \<longleftrightarrow> \<not> ?good_tot"
    by (auto simp: aligned_iff word_less_nat_alt not_le)
  have off: "?off < 64 \<or> ?off > ?tot \<or> \<not> atarix_bib_length_is_aligned ?off \<longleftrightarrow> \<not> ?good_off"
    by (auto simp: aligned_iff word_less_nat_alt not_le)
  let ?fail = "\<lambda>e. Some (e, Some zeroed_view)"
  have run: "atarix_bib_reader_open (Some v) (Some p) window =
     (if take 8 p \<noteq> ATARIX_BIB_MAGIC then ?fail ATARIX_BIB_E_MAGIC
      else if u16_at p 8 \<noteq> 1 then ?fail ATARIX_BIB_E_VERSION
      else if u16_at p 12 \<noteq> 64 then ?fail ATARIX_BIB_E_HEADER_LENGTH
      else if \<not> ?good_tot then ?fail ATARIX_BIB_E_TOTAL_LENGTH
      else do {
        computed \<leftarrow> crc32c_with_zeroed_field p ?tot;
        if u32_at p 20 \<noteq> computed then ?fail ATARIX_BIB_E_CRC
        else if \<not> atarix_bib_header_flags_are_known (u16_at p 14) \<or> u64_at p 56 \<noteq> 0
        then ?fail ATARIX_BIB_E_HEADER_RESERVED
        else if \<not> ?good_off then ?fail ATARIX_BIB_E_TLV_BOUNDS else open_body p
      })"
    using assms unfolding tot [symmetric] off [symmetric]
    by (cases "crc32c_with_zeroed_field p ?tot")
       (simp_all add: atarix_bib_reader_open_def Let_def magic_valid_eq fields_at open_body_def
         view_of_def [symmetric] cong: if_cong)
  show ?thesis
  proof (cases "?good_tot")
    case True
    then have "crc32c_with_zeroed_field p ?tot = Some (crc_of crc32c_bit (take (unat ?tot) (zeroed_field p)))"
      using assms by (simp add: crc32c_with_zeroed_field_eq)
    then show ?thesis unfolding run header_ok_def using True by auto
  next
    case False
    then show ?thesis unfolding run header_ok_def by auto
  qed
qed

lemma records_from_end: "records_from p tot off rs e \<Longrightarrow> off \<le> tot \<Longrightarrow> e \<le> tot"
  by (induction rs arbitrary: off) (auto simp: record_ok_def)

lemma records_from_unique:
  "records_from p tot off rs e \<Longrightarrow> records_from p tot off rs' e' \<Longrightarrow> length rs = length rs' \<Longrightarrow>
     rs = rs' \<and> e = e'"
proof (induction rs arbitrary: off rs')
  case Nil
  then show ?case by simp
next
  case (Cons r rs)
  then obtain r' us where rs': "rs' = r' # us" by (cases rs') auto
  with Cons.prems have "r' = r" using record_ok_unique by auto
  with Cons.prems rs' Cons.IH show ?case by auto
qed

text \<open>A chain of records in an image of at most 65,536 bytes has at most 4,096 of them.\<close>

lemma records_from_length: "records_from p tot off rs e \<Longrightarrow> off + 16 * length rs \<le> e"
  by (induction rs arbitrary: off) (fastforce simp: record_ok_def)+

lemma of_nat_1_iff: "n < 2 ^ 32 \<Longrightarrow> (of_nat n :: u32) = 1 \<longleftrightarrow> n = 1"
  using unat_of_nat_small [of n, where 'a = 32] by (auto dest: arg_cong [of _ _ unat])

text \<open>The list of records the loop finds decides whether the image is well formed.\<close>

lemma image_ok_records:
  fixes e :: u32
  assumes "header_ok p window" "length rs = unat (u32_at p 52)"
    "records_from p (unat (u32_at p 16)) (unat (u32_at p 48)) rs (unat e)" "list_all (record_admitted p) rs"
  shows "image_ok p window us \<longleftrightarrow>
    us = rs \<and> e = u32_at p 16 \<and> length (filter is_service rs) = 1 \<and> length (filter is_memory rs) = 1"
proof
  assume us: "image_ok p window us"
  then have "us = rs \<and> unat (u32_at p 16) = unat e"
    using records_from_unique [OF _ assms(3), of us "unat (u32_at p 16)"] assms(2) by (simp add: image_ok_def)
  with us show "us = rs \<and> e = u32_at p 16 \<and> length (filter is_service rs) = 1 \<and>
      length (filter is_memory rs) = 1"
    by (auto simp: image_ok_def word_unat_eq_iff)
qed (use assms in \<open>simp add: image_ok_def\<close>)

lemma open_exact:
  assumes "64 \<le> window" "window \<le> length p"
  shows "if \<exists>rs. image_ok p window rs
    then atarix_bib_reader_open (Some v) (Some p) window = Some (ATARIX_BIB_OK, Some (view_of p))
    else \<exists>e. atarix_bib_reader_open (Some v) (Some p) window = Some (e, Some zeroed_view) \<and>
      e \<noteq> ATARIX_BIB_OK"
proof (cases "header_ok p window")
  case False
  then show ?thesis using open_header [OF assms, of v] by (auto simp: image_ok_def)
next
  case header: True
  then have v: "atarix_bib_reader_open (Some v) (Some p) window = open_body p"
    using open_header [OF assms, of v] by simp
  have tot: "unat (u32_at p 16) \<le> 65536" "unat (u32_at p 16) \<le> length p"
    "unat (u32_at p 48) \<le> unat (u32_at p 16)"
    using header assms by (simp_all add: header_ok_def)
  let ?v = "view_of p" and ?tot = "unat (u32_at p 16)"
  have view: "view_buffer ?v = Some p" "view_total_length ?v = u32_at p 16" "view_tlv_count ?v = u32_at p 52"
    by (simp_all add: view_of_def)
  from open_records_result [of ?v p 0 "u32_at p 48" 0 0, simplified view] tot
  consider (ok) rs e where "open_records ?v p 0 (u32_at p 48) 0 0
        = Some (Inr (e, of_nat (length (filter is_service rs)), of_nat (length (filter is_memory rs))))"
      "length rs = unat (u32_at p 52)" "records_from p ?tot (unat (u32_at p 48)) rs (unat e)"
      "list_all (record_admitted p) rs"
    | (error) e where "open_records ?v p 0 (u32_at p 48) 0 0 = Some (Inl e)" "e \<noteq> ATARIX_BIB_OK"
      "\<not> (\<exists>rs e. length rs = unat (u32_at p 52) \<and>
        records_from p ?tot (unat (u32_at p 48)) rs e \<and> list_all (record_admitted p) rs)"
    by (auto simp: loop_result_def)
  then show ?thesis
  proof cases
    case error
    then have "\<not> image_ok p window rs" for rs unfolding image_ok_def by blast
    with error show ?thesis unfolding v by (simp add: open_body_def)
  next
    case (ok rs e)
    have "length rs < 2 ^ 32"
      using records_from_length [OF ok(3)] records_from_end [OF ok(3) tot(3)] tot(1) by simp
    then have few: "length (filter f rs) < 2 ^ 32" for f
      using length_filter_le [of f rs] by (rule le_less_trans [rotated])
    show ?thesis
      unfolding v image_ok_records [OF header ok(2-4)]
      using ok(1) by (auto simp: open_body_def of_nat_1_iff [OF few])
  qed
qed

section \<open>Reading the records of an opened image\<close>

lemma records_from_nth:
  "records_from p tot off rs e \<Longrightarrow> i < length rs \<Longrightarrow>
     record_ok p tot (off + sum_list (map (unat \<circ> rec_serialized_length) (take i rs))) (rs ! i)"
proof (induction rs arbitrary: off i)
  case Nil
  then show ?case by simp
next
  case (Cons r rs)
  then show ?case by (cases i) (auto simp: add.assoc [symmetric])
qed

lemma record_at_offset_ok:
  assumes "view_buffer v = Some p" "unat (view_total_length v) \<le> length p"
    and "record_ok p (unat (view_total_length v)) (unat off) r"
  shows "record_at_offset v off = Some (Inr r)"
  using assms(1,2)
proof (cases rule: record_at_offset_cases [of v p off])
  case (ok r')
  then show ?thesis using assms(3) record_ok_unique by blast
next
  case (error e)
  then show ?thesis using assms(3) by blast
qed

text \<open>Skipping over records and reading the next one.\<close>

lemma skip_records_ok:
  assumes "view_buffer v = Some p" "unat (view_total_length v) \<le> length p"
    and "records_from p (unat (view_total_length v)) (unat off) rs e"
    and "unat index - unat current < length rs" "unat current \<le> unat index"
  shows "do {
      res \<leftarrow> skip_records v current index off;
      (case res of Inl error \<Rightarrow> Some (Inl error) | Inr off \<Rightarrow> record_at_offset v off)
    } = Some (Inr (rs ! (unat index - unat current)))"
  using assms
proof (induction v current index off arbitrary: rs rule: skip_records.induct)
  case (1 v current index off)
  from "1.prems"(4) obtain r rs' where rs: "rs = r # rs'" by (cases rs) auto
  with "1.prems" have r: "record_ok p (unat (view_total_length v)) (unat off) r"
    and rest: "records_from p (unat (view_total_length v)) (unat (off + rec_serialized_length r)) rs' e"
    using record_ok_next(1) [of p "view_total_length v" off r] by auto
  have at: "record_at_offset v off = Some (Inr r)"
    using "1.prems"(1,2) r by (rule record_at_offset_ok)
  show ?case
  proof (cases "current < index")
    case True
    then have n: "unat index - unat current = Suc (unat index - unat (current + 1))"
      "unat (current + 1) \<le> unat index"
      by (auto simp: unat_inc word_less_nat_alt)
    then have "unat index - unat (current + 1) < length rs'" using "1.prems"(4) rs by simp
    from "1.IH" [OF True at refl "1.prems"(1,2) rest this n(2)]
    show ?thesis using True at by (subst skip_records.simps) (simp add: rs n(1))
  next
    case False
    then have "unat index - unat current = 0" by (simp add: word_less_nat_alt)
    with False at show ?thesis by (subst skip_records.simps) (simp add: rs)
  qed
qed

lemma image_ok_view:
  assumes "image_ok p window rs" "window \<le> length p"
  shows "view_buffer (view_of p) = Some p" "unat (view_total_length (view_of p)) \<le> length p"
    "records_from p (unat (view_total_length (view_of p))) (unat (view_tlv_offset (view_of p))) rs
       (unat (view_total_length (view_of p)))"
    "length rs = unat (view_tlv_count (view_of p))" "list_all (record_admitted p) rs"
  using assms by (auto simp: image_ok_def header_ok_def view_of_def)

lemma reader_record_eq:
  assumes "image_ok p window rs" "window \<le> length p"
  shows "atarix_bib_reader_record (Some (view_of p)) index True =
    Some (if unat index < length rs then Inr (rs ! unat index) else Inl ATARIX_BIB_E_TLV_BOUNDS)"
proof -
  note v = image_ok_view [OF assms]
  show ?thesis
  proof (cases "unat index < length rs")
    case True
    then have "index < view_tlv_count (view_of p)" unfolding v(4) by (simp add: word_less_nat_alt)
    then show ?thesis
      using skip_records_ok [OF v(1-3), of index 0] True
      by (simp add: atarix_bib_reader_record_def v(1) not_le)
  next
    case False
    then have "index \<ge> view_tlv_count (view_of p)" unfolding v(4) by (simp add: word_le_nat_alt)
    with False show ?thesis by (simp add: atarix_bib_reader_record_def v(1))
  qed
qed

text \<open>What \<open>atarix_bib_reader_find_reference\<close> answers: the first record of the type, as a reference.\<close>

definition reference_of :: "bytes \<Rightarrow> atarix_bib_record_view \<Rightarrow> atarix_bib_error + atarix_bib_reference_view" where
  "reference_of p r =
     (if unat (rec_payload_length r) < 40 then Inl ATARIX_BIB_E_TLV_BOUNDS
      else if 40 + unat (u32_at p (rec_payload r + 36)) > unat (rec_payload_length r)
      then Inl ATARIX_BIB_E_REFERENCE_INTEGRITY
      else Inr \<lparr>ref_object_id = u64_at p (rec_payload r), ref_address = u64_at p (rec_payload r + 8),
                ref_length = u64_at p (rec_payload r + 16), ref_format_major = u32_at p (rec_payload r + 24),
                ref_format_minor = u32_at p (rec_payload r + 28),
                ref_integrity_kind = u32_at p (rec_payload r + 32),
                ref_integrity = rec_payload r + 40,
                ref_integrity_length = u32_at p (rec_payload r + 36)\<rparr>)"

definition find_reference_spec ::
  "bytes \<Rightarrow> atarix_bib_record_view list \<Rightarrow> u16 \<Rightarrow> atarix_bib_error + atarix_bib_reference_view" where
  "find_reference_spec p rs type =
     (case filter (\<lambda>r. rec_type r = type) rs of
        [] \<Rightarrow> Inl ATARIX_BIB_E_REQUIRED_RECORD
      | r # _ \<Rightarrow> reference_of p r)"

lemma reference_of_record_eq:
  assumes "record_ok p tot off r" "tot \<le> length p"
  shows "reference_of_record p r = Some (reference_of p r)"
proof (cases "unat (rec_payload_length r) < 40")
  case True
  then show ?thesis by (simp add: reference_of_record_def reference_of_def word_less_nat_alt)
next
  case False
  then have le: "40 \<le> rec_payload_length r" by (simp add: word_le_nat_alt)
  then have "\<not> rec_payload_length r < 40" by simp
  moreover have "w > rec_payload_length r - 40 \<longleftrightarrow> 40 + unat w > unat (rec_payload_length r)" for w
    using less_sub_iff [OF le] by simp
  moreover have "rec_payload r + 40 \<le> length p" using assms False by (auto simp: record_ok_def)
  ultimately show ?thesis
    using False
    by (simp add: reference_of_record_def reference_of_def Let_def fields_at)
qed

lemma find_reference_from_eq:
  assumes "image_ok p window rs" "window \<le> length p" "unat index \<le> length rs"
  shows "find_reference_from (view_of p) type index
    = Some (find_reference_spec p (drop (unat index) rs) type)"
  using assms(3)
proof (induction "view_of p" type index rule: find_reference_from.induct)
  case (1 type index)
  note v = image_ok_view [OF assms(1,2)]
  show ?case
  proof (cases "unat index < length rs")
    case True
    then have less: "index < view_tlv_count (view_of p)" unfolding v(4) by (simp add: word_less_nat_alt)
    have r: "atarix_bib_reader_record (Some (view_of p)) index True = Some (Inr (rs ! unat index))"
      using True by (simp add: reader_record_eq [OF assms(1,2)])
    have d: "drop (unat index) rs = rs ! unat index # drop (unat (index + 1)) rs"
      using True less by (simp add: Cons_nth_drop_Suc unat_inc)
    have "record_ok p (unat (view_total_length (view_of p)))
        (unat (view_tlv_offset (view_of p)) +
          sum_list (map (unat \<circ> rec_serialized_length) (take (unat index) rs))) (rs ! unat index)"
      by (rule records_from_nth [OF v(3) True])
    then have ref: "reference_of_record p (rs ! unat index) = Some (reference_of p (rs ! unat index))"
      using v(2) by (rule reference_of_record_eq)
    show ?thesis
    proof (cases "rec_type (rs ! unat index) = type")
      case True
      then show ?thesis
        using less r ref v(1) by (subst find_reference_from.simps) (simp add: d find_reference_spec_def)
    next
      case False
      moreover have "unat (index + 1) \<le> length rs" using True less by (simp add: unat_inc)
      ultimately show ?thesis
        using "1.hyps" [OF less r refl False] less r
        by (subst find_reference_from.simps) (simp add: d find_reference_spec_def)
    qed
  next
    case False
    then have "\<not> index < view_tlv_count (view_of p)" unfolding v(4) by (simp add: word_less_nat_alt)
    with False show ?thesis
      by (subst find_reference_from.simps) (simp add: find_reference_spec_def)
  qed
qed

section \<open>Images of the builder\<close>

lemma u_at_field:
  "take 2 (drop off p) = le16_bytes a \<Longrightarrow> u16_at p off = a"
  "take 4 (drop off p) = le32_bytes b \<Longrightarrow> u32_at p off = b"
  "take 8 (drop off p) = le64_bytes c \<Longrightarrow> u64_at p off = c"
  by (simp_all add: u16_at_def u32_at_def u64_at_def le16.dec_enc le32.dec_enc le64.dec_enc)

lemma bib_header_at:
  "take 8 (bib_header h tot crc count @ q) = ATARIX_BIB_MAGIC"
  "u16_at (bib_header h tot crc count @ q) 8 = 1"
  "u16_at (bib_header h tot crc count @ q) 12 = 64"
  "u16_at (bib_header h tot crc count @ q) 14 = ids_flags h"
  "u32_at (bib_header h tot crc count @ q) 16 = tot"
  "u32_at (bib_header h tot crc count @ q) 20 = crc"
  "u64_at (bib_header h tot crc count @ q) 24 = ids_boot h"
  "u64_at (bib_header h tot crc count @ q) 32 = ids_producer h"
  "u64_at (bib_header h tot crc count @ q) 40 = ids_counter h"
  "u32_at (bib_header h tot crc count @ q) 48 = 64"
  "u32_at (bib_header h tot crc count @ q) 52 = count"
  "u64_at (bib_header h tot crc count @ q) 56 = 0"
  by (simp_all add: bib_header_def u_at_field)

lemma u_at_skip:
  "off = length a + k \<Longrightarrow> u16_at (a @ b) off = u16_at b k"
  "off = length a + k \<Longrightarrow> u32_at (a @ b) off = u32_at b k"
  "off = length a + k \<Longrightarrow> u64_at (a @ b) off = u64_at b k"
  by (simp_all add: u16_at_def u32_at_def u64_at_def)

lemma u_at_front: "off + 8 \<le> length a \<Longrightarrow> u64_at (a @ b) off = u64_at a off"
  by (simp add: u64_at_def)

lemma u_at_take:
  "off + 8 \<le> n \<Longrightarrow> u64_at p (pos + off) = u64_at (take n (drop pos p)) off"
  "off + 4 \<le> n \<Longrightarrow> u32_at p (pos + off) = u32_at (take n (drop pos p)) off"
  by (simp_all add: u64_at_def u32_at_def take_drop add.commute)

text \<open>The record views of a list of records laid out from \<open>off\<close> on.\<close>

definition tlv_view :: "nat \<Rightarrow> bib_tlv \<Rightarrow> atarix_bib_record_view" where
  "tlv_view off t =
     \<lparr>rec_type = tlv_type t, rec_flags = tlv_flags t, rec_payload = off + 16,
      rec_payload_length = of_nat (length (tlv_payload t)), rec_serialized_length = of_nat (record_length t)\<rparr>"

fun tlv_views :: "nat \<Rightarrow> bib_tlv list \<Rightarrow> atarix_bib_record_view list" where
  "tlv_views off [] = []"
| "tlv_views off (t # ts) = tlv_view off t # tlv_views (off + record_length t) ts"

lemma length_tlv_views [simp]: "length (tlv_views off ts) = length ts"
  by (induction ts arbitrary: off) simp_all

lemma tlv_bytes_at:
  "u16_at (tlv_bytes t @ z) 0 = tlv_type t" "u16_at (tlv_bytes t @ z) 2 = tlv_flags t"
  "u32_at (tlv_bytes t @ z) 4 = of_nat (record_length t)"
  "u32_at (tlv_bytes t @ z) 8 = of_nat (length (tlv_payload t))" "u32_at (tlv_bytes t @ z) 12 = 0"
  "take (length (tlv_payload t)) (drop 16 (tlv_bytes t @ z)) = tlv_payload t"
proof -
  have "le32_bytes 0 = replicate 4 0" by (simp add: le32_bytes_def numeral_eq_Suc)
  then show "u32_at (tlv_bytes t @ z) 12 = 0" by (intro u_at_field) (simp add: tlv_bytes_def)
qed (simp_all add: tlv_bytes_def u_at_field)

lemma tlv_record_ok:
  assumes "length a = off" "off + record_length t \<le> tot" "tot < 2 ^ 32"
    and "atarix_bib_tlv_flags_are_known (tlv_flags t)"
  shows "record_ok (a @ tlv_bytes t @ z) tot off (tlv_view off t)"
proof -
  have "length (tlv_payload t) < 2 ^ 32" "record_length t < 2 ^ 32"
    using assms(2,3) record_length_bounds(1) [of t] by linarith+
  then have "unat (of_nat (length (tlv_payload t)) :: u32) = length (tlv_payload t)"
    "unat (of_nat (record_length t) :: u32) = record_length t"
    by (simp_all add: unat_of_nat_small)
  then show ?thesis
    using assms record_length_bounds [of t] u_at_skip(1) [of off a 0]
    by (simp add: record_ok_def tlv_view_def u_at_skip tlv_bytes_at)
qed

lemma tlv_views_chain:
  assumes "length a = off" "off + sum_list (map record_length ts) \<le> tot" "tot < 2 ^ 32"
    and "list_all (\<lambda>t. atarix_bib_tlv_flags_are_known (tlv_flags t)) ts"
  shows "records_from (a @ tlvs_bytes ts @ z) tot off (tlv_views off ts)
    (off + sum_list (map record_length ts))"
  using assms
proof (induction ts arbitrary: a off)
  case Nil
  then show ?case by simp
next
  case (Cons t ts)
  have next_off: "unat (rec_serialized_length (tlv_view off t)) = record_length t"
    using Cons.prems(2,3) by (simp add: tlv_view_def unat_of_nat_small)
  have "record_ok (a @ tlv_bytes t @ (tlvs_bytes ts @ z)) tot off (tlv_view off t)"
    using Cons.prems by (intro tlv_record_ok) simp_all
  moreover have "records_from ((a @ tlv_bytes t) @ tlvs_bytes ts @ z) tot (off + record_length t)
      (tlv_views (off + record_length t) ts)
      (off + record_length t + sum_list (map record_length ts))"
    using Cons.prems by (intro Cons.IH) simp_all
  ultimately show ?case using next_off by (simp add: tlvs_bytes_def add.assoc)
qed

text \<open>The images of the builder that the reader accepts.\<close>

definition readable_tlv :: "bib_tlv \<Rightarrow> bool" where
  "readable_tlv t \<longleftrightarrow>
     atarix_bib_tlv_flags_are_known (tlv_flags t) \<and>
     (tlv_flags t AND ATARIX_BIB_TLV_FLAG_MANDATORY \<noteq> 0 \<longrightarrow> known_type (tlv_type t)) \<and>
     (tlv_type t = ATARIX_BIB_TLV_SERVICE_DIRECTORY_REFERENCE \<or>
      tlv_type t = ATARIX_BIB_TLV_MEMORY_MAP_REFERENCE \<longrightarrow>
        40 \<le> length (tlv_payload t) \<and>
        unat (u64_at (tlv_payload t) 8) + unat (u64_at (tlv_payload t) 16) < 2 ^ 64)"

definition readable :: "bib_tlv list \<Rightarrow> bool" where
  "readable ts \<longleftrightarrow>
     bib_length ts \<le> 65536 \<and> list_all readable_tlv ts \<and>
     length (filter (\<lambda>t. tlv_type t = ATARIX_BIB_TLV_SERVICE_DIRECTORY_REFERENCE) ts) = 1 \<and>
     length (filter (\<lambda>t. tlv_type t = ATARIX_BIB_TLV_MEMORY_MAP_REFERENCE) ts) = 1"

lemma tlv_payload_at:
  assumes "k + 8 \<le> length (tlv_payload t)"
  shows "u64_at (tlv_bytes t @ z) (16 + k) = u64_at (tlv_payload t) k"
proof -
  define H where "H = le16_bytes (tlv_type t) @ le16_bytes (tlv_flags t) @
    le32_bytes (of_nat (record_length t)) @ le32_bytes (of_nat (length (tlv_payload t))) @ replicate 4 (0 :: u8)"
  define Z where "Z = replicate (record_length t - 16 - length (tlv_payload t)) (0 :: u8) @ z"
  have "tlv_bytes t @ z = H @ tlv_payload t @ Z" by (simp add: tlv_bytes_def H_def Z_def)
  moreover have "length H = 16" by (simp add: H_def)
  ultimately show ?thesis using assms by (simp add: u_at_skip u_at_front)
qed

lemma tlv_view_admitted:
  assumes "length a = off" "readable_tlv t" "off + record_length t < 2 ^ 32"
  shows "record_admitted (a @ tlv_bytes t @ z) (tlv_view off t)"
proof -
  have "length (tlv_payload t) < 2 ^ 32" using assms(3) record_length_bounds(1) [of t] by linarith
  then have n: "unat (of_nat (length (tlv_payload t)) :: u32) = length (tlv_payload t)"
    by (simp add: unat_of_nat_small)
  have at: "u64_at (a @ tlv_bytes t @ z) (off + 16 + k) = u64_at (tlv_payload t) k"
    if "40 \<le> length (tlv_payload t)" "k \<le> 16" for k
    using that assms(1) by (simp add: u_at_skip(3) [of _ a "16 + k"] tlv_payload_at)
  show ?thesis
    using assms(2) at [of 8] at [of 16]
    by (auto simp: record_admitted_def readable_tlv_def tlv_view_def is_service_def is_memory_def n)
qed

lemma tlv_views_admitted:
  assumes "length a = off" "off + sum_list (map record_length ts) < 2 ^ 32" "list_all readable_tlv ts"
  shows "list_all (record_admitted (a @ tlvs_bytes ts @ z)) (tlv_views off ts)"
  using assms
proof (induction ts arbitrary: a off)
  case Nil
  then show ?case by simp
next
  case (Cons t ts)
  have "record_admitted (a @ tlv_bytes t @ (tlvs_bytes ts @ z)) (tlv_view off t)"
    using Cons.prems by (intro tlv_view_admitted) simp_all
  moreover have "list_all (record_admitted ((a @ tlv_bytes t) @ tlvs_bytes ts @ z))
      (tlv_views (off + record_length t) ts)"
    using Cons.prems by (intro Cons.IH) simp_all
  ultimately show ?case by (simp add: tlvs_bytes_def)
qed

lemma tlv_views_types:
  "length (filter (\<lambda>r. rec_type r = k) (tlv_views off ts)) = length (filter (\<lambda>t. tlv_type t = k) ts)"
  by (induction ts arbitrary: off) (simp_all add: tlv_view_def)

lemma bib_image_checksum:
  "take (bib_length ts) (zeroed_field (bib_image h ts @ z))
    = bib_header h (of_nat (bib_length ts)) 0 (of_nat (length ts)) @ tlvs_bytes ts"
proof -
  have zero: "replicate 4 0 = le32_bytes 0" by (simp add: le32_bytes_def numeral_eq_Suc)
  let ?X = "bib_header h (of_nat (bib_length ts)) 0 (of_nat (length ts)) @ tlvs_bytes ts"
  have n: "length ?X = bib_length ts" by (simp add: bib_length_def)
  have "overwrite (bib_image h ts @ z) 20 (le32_bytes 0) = ?X @ z"
    by (simp add: bib_image_def bib_header_fields)
  then have "zeroed_field (bib_image h ts @ z) = ?X @ z"
    using bib_length_count [of ts] by (simp add: zeroed_field_eq zero)
  then show ?thesis by (metis append_eq_conv_conj n)
qed

lemma bib_image_ok:
  assumes "readable ts" "atarix_bib_header_flags_are_known (ids_flags h)" "bib_length ts \<le> window"
  shows "image_ok (bib_image h ts @ z) window (tlv_views 64 ts)"
proof -
  let ?p = "bib_image h ts @ z"
  have len: "bib_length ts \<le> 65536" "list_all readable_tlv ts" using assms(1) by (simp_all add: readable_def)
  have count: "length ts \<le> bib_length ts" "64 \<le> bib_length ts" using bib_length_count [of ts] by simp_all
  have n: "unat (of_nat (bib_length ts) :: u32) = bib_length ts" "unat (of_nat (length ts) :: u32) = length ts"
    using len(1) count by (simp_all add: unat_of_nat_small)
  have p: "?p = bib_header h (of_nat (bib_length ts)) (bib_checksum h ts) (of_nat (length ts)) @ (tlvs_bytes ts @ z)"
    by (simp add: bib_image_def)
  have at: "u32_at ?p 16 = of_nat (bib_length ts)" "u32_at ?p 20 = bib_checksum h ts"
    "u32_at ?p 48 = 64" "u32_at ?p 52 = of_nat (length ts)"
    "take 8 ?p = ATARIX_BIB_MAGIC" "u16_at ?p 8 = 1" "u16_at ?p 12 = 64" "u16_at ?p 14 = ids_flags h"
    "u64_at ?p 56 = 0"
    unfolding p by (simp_all only: bib_header_at)
  have header: "header_ok ?p window"
    using assms(2,3) len count bib_length_aligned [of ts]
    by (simp add: header_ok_def at n bib_image_checksum bib_checksum_def del: take_append)
  have sum: "64 + sum_list (map record_length ts) = bib_length ts" by (simp add: bib_length_def)
  have known: "list_all (\<lambda>t. atarix_bib_tlv_flags_are_known (tlv_flags t)) ts"
    using len(2) by (auto simp: list_all_iff readable_tlv_def)
  have chain: "records_from ?p (bib_length ts) 64 (tlv_views 64 ts) (bib_length ts)"
    unfolding p using tlv_views_chain [of _ 64 ts "bib_length ts" z] len sum known by simp
  have admitted: "list_all (record_admitted ?p) (tlv_views 64 ts)"
    unfolding p using tlv_views_admitted [of _ 64 ts z] len sum by simp
  show ?thesis
    using header chain admitted assms(1)
    by (simp add: image_ok_def at n is_service_def [abs_def] is_memory_def [abs_def] tlv_views_types
        readable_def)
qed

lemma tlv_views_nth:
  assumes "length a = off" "i < length ts"
  shows "tlv_views off ts ! i = tlv_view (off + sum_list (map record_length (take i ts))) (ts ! i)"
    "take (length (tlv_payload (ts ! i)))
       (drop (rec_payload (tlv_views off ts ! i)) (a @ tlvs_bytes ts @ z)) = tlv_payload (ts ! i)"
  using assms
proof (induction ts arbitrary: a off i)
  case Nil
  { case 1 then show ?case by simp next case 2 then show ?case by simp }
next
  case (Cons t ts)
  {
    case 1
    then show ?case using Cons.IH(1) [of "a @ tlv_bytes t"] by (cases i) (auto simp: add.assoc)
  next
    case 2
    then show ?case
      using Cons.IH(2) [of "a @ tlv_bytes t" "off + record_length t" "i - 1"] tlv_bytes_at(6) [of t "tlvs_bytes ts @ z"]
      by (cases i) (auto simp: tlvs_bytes_def tlv_view_def)
  }
qed

lemma reference_bytes_at:
  "u64_at (reference_bytes object_id address len major minor) 0 = object_id"
  "u64_at (reference_bytes object_id address len major minor) 8 = address"
  "u64_at (reference_bytes object_id address len major minor) 16 = len"
  "u32_at (reference_bytes object_id address len major minor) 24 = major"
  "u32_at (reference_bytes object_id address len major minor) 28 = minor"
  "u32_at (reference_bytes object_id address len major minor) 32 = 0"
  "u32_at (reference_bytes object_id address len major minor) 36 = 0"
proof -
  have z: "replicate 8 0 = le32_bytes 0 @ le32_bytes 0" by (simp add: le32_bytes_def numeral_eq_Suc)
  show "u32_at (reference_bytes object_id address len major minor) 32 = 0"
    "u32_at (reference_bytes object_id address len major minor) 36 = 0"
    unfolding reference_bytes_def z by (simp_all add: u_at_field)
qed (simp_all add: reference_bytes_def u_at_field)

lemma reference_of_bytes:
  assumes "take 40 (drop (rec_payload r) p) = reference_bytes oid addr len major minor"
    and "rec_payload_length r = 40"
  shows "reference_of p r = Inr \<lparr>ref_object_id = oid, ref_address = addr, ref_length = len,
      ref_format_major = major, ref_format_minor = minor, ref_integrity_kind = 0,
      ref_integrity = rec_payload r + 40, ref_integrity_length = 0\<rparr>"
proof -
  note at = u_at_take [of _ 40 p "rec_payload r", unfolded assms(1)]
  show ?thesis
    using at(1) [of 0] by (simp add: reference_of_def assms(2) at reference_bytes_at)
qed

text \<open>The payload of a record, seen through its view.\<close>

lemma tlv_window:
  assumes "i < length ts" "bib_length ts < 2 ^ 32"
  shows "take (unat (rec_payload_length (tlv_views 64 ts ! i)))
      (drop (rec_payload (tlv_views 64 ts ! i)) (bib_image h ts @ z)) = tlv_payload (ts ! i)"
    "unat (rec_payload_length (tlv_views 64 ts ! i)) = length (tlv_payload (ts ! i))"
proof -
  have "length (tlv_payload (ts ! i)) < 2 ^ 32"
    using assms record_length_bounds(1) [of "ts ! i"]
      member_le_sum_list [of "record_length (ts ! i)" "map record_length ts"]
    by (auto simp: bib_length_def)
  then show len: "unat (rec_payload_length (tlv_views 64 ts ! i)) = length (tlv_payload (ts ! i))"
    using assms(1) by (simp add: tlv_views_nth(1) [of "replicate 64 0"] tlv_view_def unat_of_nat_small)
  show "take (unat (rec_payload_length (tlv_views 64 ts ! i)))
      (drop (rec_payload (tlv_views 64 ts ! i)) (bib_image h ts @ z)) = tlv_payload (ts ! i)"
    unfolding len
    using tlv_views_nth(2) [of "bib_header h (of_nat (bib_length ts)) (bib_checksum h ts) (of_nat (length ts))"
        64 i ts z] assms(1)
    by (simp add: bib_image_def)
qed

section \<open>Corruption\<close>

lemma open_crc_error:
  assumes "64 \<le> window" "window \<le> length p" "take 8 p = ATARIX_BIB_MAGIC" "u16_at p 8 = 1" "u16_at p 12 = 64"
    and "64 \<le> unat (u32_at p 16)" "unat (u32_at p 16) \<le> window" "unat (u32_at p 16) \<le> 65536"
    and "unat (u32_at p 16) mod 8 = 0"
    and "u32_at p 20 \<noteq> crc_of crc32c_bit (take (unat (u32_at p 16)) (zeroed_field p))"
  shows "atarix_bib_reader_open (Some v) (Some p) window = Some (ATARIX_BIB_E_CRC, Some zeroed_view)"
proof -
  have "\<not> (u32_at p 16 < 64 \<or> unat (u32_at p 16) > window \<or> u32_at p 16 > 65536 \<or>
      \<not> atarix_bib_length_is_aligned (u32_at p 16))"
    using assms by (auto simp: aligned_iff word_less_nat_alt not_le)
  moreover have "crc32c_with_zeroed_field p (u32_at p 16)
      = Some (crc_of crc32c_bit (take (unat (u32_at p 16)) (zeroed_field p)))"
    using assms by (simp add: crc32c_with_zeroed_field_eq)
  ultimately show ?thesis
    using assms by (simp add: atarix_bib_reader_open_def Let_def magic_valid_eq fields_at)
qed

lemma u_at_prefix:
  "off + 2 \<le> length a \<Longrightarrow> u16_at (a @ b) off = u16_at (a @ c) off"
  "off + 4 \<le> length a \<Longrightarrow> u32_at (a @ b) off = u32_at (a @ c) off"
  by (simp_all add: u16_at_def u32_at_def)

lemma take_zeroed_window:
  assumes "24 \<le> length a" "length a + length xs \<le> n"
  shows "take n (zeroed_field (a @ xs @ z)) = overwrite a 20 (replicate 4 0) @ xs @ take (n - length a - length xs) z"
proof -
  have "zeroed_field (a @ xs @ z) = overwrite a 20 (replicate 4 0) @ xs @ z"
    using assms by (simp add: zeroed_field_eq overwrite_append_left)
  then show ?thesis using assms by simp
qed

lemma reader_burst:
  assumes "header_ok (a @ xs @ z) window" "64 \<le> window" "window \<le> length (a @ xs @ z)"
    and "24 \<le> length a" "length a + length xs \<le> unat (u32_at (a @ xs @ z) 16)"
    and "length ys = length xs" "length xs \<le> 4" "ys \<noteq> xs"
  shows "atarix_bib_reader_open (Some v) (Some (a @ ys @ z)) window
    = Some (ATARIX_BIB_E_CRC, Some zeroed_view)"
proof -
  let ?p = "a @ xs @ z" and ?q = "a @ ys @ z"
  have same: "u16_at ?q 8 = u16_at ?p 8" "u16_at ?q 12 = u16_at ?p 12" "u32_at ?q 16 = u32_at ?p 16"
    "u32_at ?q 20 = u32_at ?p 20" "take 8 ?q = take 8 ?p"
    using assms(4) by (simp_all add: u_at_prefix [of _ a "ys @ z" "xs @ z"])
  define n where "n = unat (u32_at ?p 16)"
  have "crc_of crc32c_bit (take n (zeroed_field ?q)) \<noteq> crc_of crc32c_bit (take n (zeroed_field ?p))"
    using castagnoli.burst_detected [of ys xs] assms(4-8)
    by (simp add: take_zeroed_window n_def)
  then show ?thesis
    using assms unfolding header_ok_def n_def
    by (intro open_crc_error) (auto simp only: same length_append)
qed

section \<open>Properties\<close>

text \<open>
  C1. \<open>atarix_bib_reader_open\<close> on a window of readable memory never reads outside it. It succeeds exactly
  on the images that are well formed (magic, version, lengths, checksum, flags, a chain of well-formed
  records that fills the image, no unknown mandatory record, exactly one service directory and one
  memory map reference whose address range does not overflow), with the header's fields in the view;
  on any other image it reports an error and the view is all zero. \<open>NULL\<close> arguments and a window too
  small for a header are refused with the view unchanged.
\<close>

theorem reader_open_exact:
  assumes "window \<le> length p"
  shows "atarix_bib_reader_open None q w = Some (ATARIX_BIB_E_WINDOW, None) \<and>
    atarix_bib_reader_open (Some v) None w = Some (ATARIX_BIB_E_WINDOW, Some v) \<and>
    (if window < 64
     then atarix_bib_reader_open (Some v) (Some p) window = Some (ATARIX_BIB_E_WINDOW, Some v)
     else if \<exists>rs. image_ok p window rs
     then atarix_bib_reader_open (Some v) (Some p) window = Some (ATARIX_BIB_OK, Some (view_of p))
     else \<exists>e. e \<noteq> ATARIX_BIB_OK \<and>
       atarix_bib_reader_open (Some v) (Some p) window = Some (e, Some zeroed_view))"
proof (cases "window < 64")
  case True
  then show ?thesis by (simp add: atarix_bib_reader_open_def)
next
  case False
  then show ?thesis
    using open_exact [OF _ assms, of v]
    by (auto simp: atarix_bib_reader_open_def [of _ None] atarix_bib_reader_open_def [of None]
        split: if_splits)
qed

text \<open>An example: the two mandatory references and an experimental record.\<close>

definition example_tlvs :: "bib_tlv list" where
  "example_tlvs =
     [\<lparr>tlv_type = 1, tlv_flags = 1, tlv_payload = reference_bytes 7 4096 512 1 0\<rparr>,
      \<lparr>tlv_type = 0x8001, tlv_flags = 2, tlv_payload = [1, 2, 3]\<rparr>,
      \<lparr>tlv_type = 2, tlv_flags = 1, tlv_payload = reference_bytes 8 8192 1024 1 0\<rparr>]"

definition example_ids :: bib_ids where
  "example_ids = \<lparr>ids_flags = 1, ids_boot = 2, ids_producer = 3, ids_counter = 4\<rparr>"

lemma example_readable: "readable example_tlvs" "bib_length example_tlvs = 200"
  by (simp_all add: readable_def example_tlvs_def bib_length_def record_length_def align8_def readable_tlv_def
      atarix_bib_tlv_flags_are_known_def known_type_def reference_bytes_at)

lemma example_flags: "atarix_bib_header_flags_are_known (ids_flags example_ids)"
  by (simp add: example_ids_def atarix_bib_header_flags_are_known_def)

theorem reader_open_exact_witness:
  "atarix_bib_reader_open (Some zeroed_view) (Some (bib_image example_ids example_tlvs)) 200
    = Some (ATARIX_BIB_OK, Some (view_of (bib_image example_ids example_tlvs)))"
  using reader_open_exact [of 200 "bib_image example_ids example_tlvs" None 0 zeroed_view]
    bib_image_ok [OF example_readable(1) example_flags, of 200 "[]"]
  by (auto simp: example_readable(2) split: if_splits)

lemma opened_image:
  assumes "window \<le> length p"
    and "atarix_bib_reader_open (Some v) (Some p) window = Some (ATARIX_BIB_OK, Some u)"
  obtains rs where "image_ok p window rs" "u = view_of p"
proof -
  have w: "64 \<le> window" using assms(2) by (auto simp: atarix_bib_reader_open_def split: if_splits)
  with that show ?thesis using open_exact [OF w assms(1), of v] assms(2) by (auto split: if_splits)
qed

text \<open>
  C10. After \<open>atarix_bib_reader_open\<close> has succeeded the other two operations are safe and exact: there
  is one list of records such that \<open>atarix_bib_reader_record\<close> returns the record at every index below
  its length and the bounds error at every other, every payload lies inside the image and every image
  inside the window, and \<open>atarix_bib_reader_find_reference\<close> returns the first record of the type,
  refusing a payload shorter than a reference or integrity data that exceed the payload.
\<close>

theorem reader_access_after_open:
  assumes "window \<le> length p"
    and "atarix_bib_reader_open (Some v) (Some p) window = Some (ATARIX_BIB_OK, Some u)"
  shows "\<exists>rs. (\<forall>i. atarix_bib_reader_record (Some u) i True
        = Some (if unat i < length rs then Inr (rs ! unat i) else Inl ATARIX_BIB_E_TLV_BOUNDS)) \<and>
      (\<forall>type. atarix_bib_reader_find_reference (Some u) type True
        = Some (find_reference_spec p rs type)) \<and>
      list_all (\<lambda>r. rec_payload r + unat (rec_payload_length r) \<le> unat (view_total_length u)) rs \<and>
      length rs = unat (view_tlv_count u) \<and> unat (view_total_length u) \<le> window"
proof -
  from opened_image [OF assms] obtain rs where rs: "image_ok p window rs" and u: "u = view_of p" by blast
  note v = image_ok_view [OF rs assms(1)]
  have "list_all (\<lambda>r. rec_payload r + unat (rec_payload_length r) \<le> unat (view_total_length u)) rs"
    unfolding u list_all_length
  proof (intro allI impI)
    fix i
    assume "i < length rs"
    from records_from_nth [OF v(3) this]
    show "rec_payload (rs ! i) + unat (rec_payload_length (rs ! i)) \<le> unat (view_total_length (view_of p))"
      by (auto simp: record_ok_def)
  qed
  moreover have "unat (view_total_length u) \<le> window"
    using rs by (simp add: u view_of_def image_ok_def header_ok_def)
  moreover have "atarix_bib_reader_find_reference (Some u) type True = Some (find_reference_spec p rs type)" for type
    using find_reference_from_eq [OF rs assms(1), of 0 type]
    by (simp add: atarix_bib_reader_find_reference_def u)
  ultimately show ?thesis
    using reader_record_eq [OF rs assms(1)] v(4) by (intro exI [of _ rs]) (simp add: u)
qed

lemma example_open:
  "atarix_bib_reader_open (Some v) (Some (bib_image example_ids example_tlvs)) 200
    = Some (ATARIX_BIB_OK, Some (view_of (bib_image example_ids example_tlvs)))"
  using open_exact [of 200 "bib_image example_ids example_tlvs" v]
    bib_image_ok [OF example_readable(1) example_flags, of 200 "[]"]
  by (auto simp: example_readable(2) split: if_splits)

theorem reader_access_after_open_witness:
  "\<exists>rs. (\<forall>i. atarix_bib_reader_record (Some (view_of (bib_image example_ids example_tlvs))) i True
      = Some (if unat i < length rs then Inr (rs ! unat i) else Inl ATARIX_BIB_E_TLV_BOUNDS))"
  using reader_access_after_open [OF _ example_open] by (fastforce simp: example_readable(2))

text \<open>
  C16. Corruption is detected: if an image is accepted, replacing up to four consecutive bytes behind
  its checksum field makes \<open>atarix_bib_reader_open\<close> report the CRC error, with the view all zero.
\<close>

theorem reader_detects_burst:
  assumes "window \<le> length (a @ xs @ z)"
    and "atarix_bib_reader_open (Some v) (Some (a @ xs @ z)) window = Some (ATARIX_BIB_OK, Some u)"
    and "24 \<le> length a" "length a + length xs \<le> unat (view_total_length u)"
    and "length ys = length xs" "length xs \<le> 4" "ys \<noteq> xs"
  shows "atarix_bib_reader_open (Some w) (Some (a @ ys @ z)) window
    = Some (ATARIX_BIB_E_CRC, Some zeroed_view)"
proof -
  have win: "64 \<le> window" using assms(2) by (auto simp: atarix_bib_reader_open_def split: if_splits)
  with open_exact [OF win assms(1), of v] assms(2)
  have "header_ok (a @ xs @ z) window" "u = view_of (a @ xs @ z)"
    by (auto simp: image_ok_def split: if_splits)
  then show ?thesis
    using assms win by (intro reader_burst) (auto simp: view_of_def)
qed

text \<open>The last byte of the example is increased by one.\<close>

theorem reader_detects_burst_witness:
  "let p = bib_image example_ids example_tlvs in
   atarix_bib_reader_open (Some zeroed_view) (Some (butlast p @ [last p + 1])) 200
     = Some (ATARIX_BIB_E_CRC, Some zeroed_view)"
proof -
  define p where "p = bib_image example_ids example_tlvs"
  have len: "length p = 200" by (simp add: p_def example_readable(2))
  then have p: "butlast p @ [last p] @ [] = p" by (cases p rule: rev_cases) auto
  have tot: "unat (view_total_length (view_of p)) = 200"
    by (simp add: p_def view_of_def bib_image_def bib_header_at example_readable(2))
  have "atarix_bib_reader_open (Some zeroed_view) (Some p) 200 = Some (ATARIX_BIB_OK, Some (view_of p))"
    unfolding p_def by (rule example_open)
  then show ?thesis
    using reader_detects_burst [of 200 "butlast p" "[last p]" "[]" zeroed_view "view_of p" "[last p + 1]" zeroed_view]
    unfolding p by (simp add: len tot p_def [symmetric])
qed

text \<open>
  What the reader gives back of an image of readable records: the identifiers, the counts, and each
  record with its type, its flags and exactly its payload.
\<close>

definition read_back :: "bib_ids \<Rightarrow> bib_tlv list \<Rightarrow> bytes \<Rightarrow> atarix_bib_view \<Rightarrow> bool" where
  "read_back h ts p u \<longleftrightarrow>
     view_flags u = ids_flags h \<and> view_boot_id u = ids_boot h \<and> view_producer_id u = ids_producer h \<and>
     view_created_counter u = ids_counter h \<and> unat (view_tlv_count u) = length ts \<and>
     unat (view_total_length u) = bib_length ts \<and>
     (\<forall>i < length ts. \<exists>r. atarix_bib_reader_record (Some u) (of_nat i) True = Some (Inr r) \<and>
        rec_type r = tlv_type (ts ! i) \<and> rec_flags r = tlv_flags (ts ! i) \<and>
        take (unat (rec_payload_length r)) (drop (rec_payload r) p) = tlv_payload (ts ! i))"

lemma bib_image_read_back:
  assumes "readable ts" "atarix_bib_header_flags_are_known (ids_flags h)"
    and "bib_length ts \<le> window" "window \<le> length (bib_image h ts @ z)"
  shows "\<exists>u. atarix_bib_reader_open (Some v) (Some (bib_image h ts @ z)) window
        = Some (ATARIX_BIB_OK, Some u) \<and> read_back h ts (bib_image h ts @ z) u"
proof -
  let ?p = "bib_image h ts @ z" and ?rs = "tlv_views 64 ts"
  have ok: "image_ok ?p window ?rs" using assms by (intro bib_image_ok)
  have big: "64 \<le> window" using bib_length_count [of ts] assms(3) by simp
  have small: "bib_length ts < 2 ^ 32" "length ts < 2 ^ 32"
    using bib_length_count [of ts] assms(1) by (simp_all add: readable_def)
  have p: "?p = bib_header h (of_nat (bib_length ts)) (bib_checksum h ts) (of_nat (length ts)) @ (tlvs_bytes ts @ z)"
    by (simp add: bib_image_def)
  have fields: "view_flags (view_of ?p) = ids_flags h" "view_boot_id (view_of ?p) = ids_boot h"
    "view_producer_id (view_of ?p) = ids_producer h" "view_created_counter (view_of ?p) = ids_counter h"
    "unat (view_tlv_count (view_of ?p)) = length ts" "unat (view_total_length (view_of ?p)) = bib_length ts"
    unfolding p using small by (simp_all add: view_of_def bib_header_at unat_of_nat_small)
  have opened: "atarix_bib_reader_open (Some v) (Some ?p) window = Some (ATARIX_BIB_OK, Some (view_of ?p))"
    using open_exact [OF big assms(4), of v] ok by (auto split: if_splits)
  have records: "\<exists>r. atarix_bib_reader_record (Some (view_of ?p)) (of_nat i) True = Some (Inr r) \<and>
      rec_type r = tlv_type (ts ! i) \<and> rec_flags r = tlv_flags (ts ! i) \<and>
      take (unat (rec_payload_length r)) (drop (rec_payload r) ?p) = tlv_payload (ts ! i)"
    if i: "i < length ts" for i
  proof -
    have "unat (of_nat i :: u32) = i" using i small by (simp add: unat_of_nat_small)
    then have "atarix_bib_reader_record (Some (view_of ?p)) (of_nat i) True = Some (Inr (?rs ! i))"
      using i by (simp add: reader_record_eq [OF ok assms(4)])
    moreover have "record_length (ts ! i) \<le> bib_length ts"
      using member_le_sum_list [of "record_length (ts ! i)" "map record_length ts"] i
      by (simp add: bib_length_def)
    then have "length (tlv_payload (ts ! i)) < 2 ^ 32"
      using small record_length_bounds(1) [of "ts ! i"] by linarith
    ultimately show ?thesis
      using tlv_views_nth(2) [of "bib_header h (of_nat (bib_length ts)) (bib_checksum h ts) (of_nat (length ts))"
          64 i ts z] i unfolding p
      by (simp add: tlv_views_nth(1) [of "replicate 64 0"] tlv_view_def unat_of_nat_small)
  qed
  show ?thesis using opened fields records unfolding read_back_def by blast
qed

text \<open>
  C2. Builder and reader are inverse: initialise a builder with identifiers, append records and references
  by any sequence of calls and seal it. If the records that the builder accepted are readable (they
  contain the two required references once each, no unknown mandatory type, and at most 64 KiB), the
  reader opens the sealed buffer, in a window between the reported length and the capacity, and gives
  back the identifiers, and every record with its type, its flags and exactly its payload.
\<close>

theorem builder_reader_round_trip:
  assumes "64 \<le> cap" "cap \<le> unat UINT32_MAX" "cap = length buf"
    and "atarix_bib_header_flags_are_known (ids_flags h)" "list_all payload_covered calls"
    and "run_spec (append_spec cap) calls [] = (results, ts)" "readable ts"
  shows "\<exists>s b e len p.
    atarix_bib_builder_init (Some b0) (Some buf) cap (ids_flags h) (ids_boot h) (ids_producer h) (ids_counter h)
      = Some (ATARIX_BIB_BUILDER_OK, Some s) \<and>
    run_calls build_call calls s = Some (results, b) \<and>
    atarix_bib_builder_seal (Some b) (Some l0) = Some (ATARIX_BIB_BUILDER_OK, Some e, Some len) \<and>
    unat len = bib_length ts \<and> bib_length ts \<le> cap \<and> bld_buffer e = Some p \<and>
    (\<forall>window. unat len \<le> window \<and> window \<le> cap \<longrightarrow>
      (\<exists>u. atarix_bib_reader_open (Some v) (Some p) window = Some (ATARIX_BIB_OK, Some u) \<and>
        read_back h ts p u))"
proof (rule builder_run [OF assms(1-6), of b0 l0])
  fix s b e
  let ?p = "bib_image h ts @ replicate (cap - bib_length ts) 0" and ?len = "of_nat (bib_length ts) :: u32"
  assume run: "atarix_bib_builder_init (Some b0) (Some buf) cap (ids_flags h) (ids_boot h) (ids_producer h)
      (ids_counter h) = Some (ATARIX_BIB_BUILDER_OK, Some s)"
    "run_calls build_call calls s = Some (results, b)"
    "atarix_bib_builder_seal (Some b) (Some l0) = Some (ATARIX_BIB_BUILDER_OK, Some e, Some ?len)"
    and fits: "bib_length ts \<le> cap" and p: "bld_buffer e = Some ?p"
  have len: "unat ?len = bib_length ts" using fits assms(2) by (simp add: unat_of_nat_small)
  have "cap = length ?p" using fits by simp
  with len have "\<forall>window. unat ?len \<le> window \<and> window \<le> cap \<longrightarrow>
      (\<exists>u. atarix_bib_reader_open (Some v) (Some ?p) window = Some (ATARIX_BIB_OK, Some u) \<and> read_back h ts ?p u)"
    using bib_image_read_back [OF assms(7,4)] by metis
  with run p len fits show ?thesis by blast
qed

text \<open>The example, built on a buffer of 256 bytes.\<close>

definition example_calls :: "builder_call list" where
  "example_calls = map (\<lambda>t. Add_Tlv (tlv_type t) (tlv_flags t) (Some (tlv_payload t))
     (of_nat (length (tlv_payload t)))) example_tlvs"

lemma example_run: "list_all payload_covered example_calls"
  "run_spec (append_spec 256) example_calls [] = (replicate (length example_tlvs) ATARIX_BIB_BUILDER_OK, example_tlvs)"
  by (simp_all add: example_calls_def example_tlvs_def append_spec_def atarix_bib_tlv_flags_are_known_def
      record_length_def align8_def bib_length_def)

theorem builder_reader_round_trip_witness:
  "\<exists>s b e len p u. atarix_bib_builder_init (Some blank_builder) (Some (replicate 256 0xAA)) 256
      (ids_flags example_ids) (ids_boot example_ids) (ids_producer example_ids) (ids_counter example_ids)
      = Some (ATARIX_BIB_BUILDER_OK, Some s) \<and>
    (\<exists>rs. run_calls build_call example_calls s = Some (rs, b)) \<and>
    atarix_bib_builder_seal (Some b) (Some 0) = Some (ATARIX_BIB_BUILDER_OK, Some e, Some len) \<and>
    bld_buffer e = Some p \<and>
    atarix_bib_reader_open (Some zeroed_view) (Some p) 256 = Some (ATARIX_BIB_OK, Some u) \<and>
    view_boot_id u = 2 \<and> view_tlv_count u = of_nat (length example_tlvs)"
proof -
  have buf: "256 = length (replicate 256 (0xAA :: u8))" by simp
  obtain s b e len p where run: "atarix_bib_builder_init (Some blank_builder) (Some (replicate 256 0xAA)) 256
      (ids_flags example_ids) (ids_boot example_ids) (ids_producer example_ids) (ids_counter example_ids)
      = Some (ATARIX_BIB_BUILDER_OK, Some s)"
    "\<exists>rs. run_calls build_call example_calls s = Some (rs, b)"
    "atarix_bib_builder_seal (Some b) (Some 0) = Some (ATARIX_BIB_BUILDER_OK, Some e, Some len)"
    "bld_buffer e = Some p" "unat len = 200"
    and opens: "\<forall>window. unat len \<le> window \<and> window \<le> 256 \<longrightarrow>
      (\<exists>u. atarix_bib_reader_open (Some zeroed_view) (Some p) window = Some (ATARIX_BIB_OK, Some u) \<and>
        read_back example_ids example_tlvs p u)"
    using builder_reader_round_trip [OF _ _ buf example_flags example_run example_readable(1),
        of blank_builder 0 zeroed_view] unfolding example_readable(2) by auto
  from opens run(5) obtain u where "atarix_bib_reader_open (Some zeroed_view) (Some p) 256 = Some (ATARIX_BIB_OK, Some u)"
    and u: "read_back example_ids example_tlvs p u" by (auto dest: spec [of _ 256])
  moreover from u have "view_boot_id u = 2" by (simp add: read_back_def example_ids_def)
  moreover from u have "view_tlv_count u = of_nat (length example_tlvs)"
    unfolding read_back_def by (metis of_nat_unat ucast_id)
  ultimately show ?thesis using run(1-4) by blast
qed

end
