(* ===== verification/Layout_Asserts.thy ===== *)
theory Layout_Asserts
  imports Capability Memory_Descriptor Mailbox Platform_Records Bib_Reader
begin

text \<open>
  The compile-time checks of the headers: every \<open>_Static_assert\<close> on the size of a packed struct or the
  offset of a field, as a condition on the layout that models the struct. The sources compile only if
  all of them hold; here they tie the hand-written layouts to the sizes and offsets the code states. The
  BIB reader does not use the structs but constant offsets; the structs overlaid on an image it has
  accepted hold the fields it reports.
\<close>

text \<open>\<open>include/atarix/bib.h\<close>\<close>

definition bib_header_asserts :: bool where
  "bib_header_asserts \<longleftrightarrow>
     size_of atarix_bib_header_v1 = ATARIX_BIB_HEADER_SIZE_V1 \<and>
     offset_of atarix_bib_header_v1 ''magic'' = 0 \<and>
     offset_of atarix_bib_header_v1 ''version_major'' = 8 \<and>
     offset_of atarix_bib_header_v1 ''version_minor'' = 10 \<and>
     offset_of atarix_bib_header_v1 ''header_length'' = 12 \<and>
     offset_of atarix_bib_header_v1 ''flags'' = 14 \<and>
     offset_of atarix_bib_header_v1 ''total_length'' = 16 \<and>
     offset_of atarix_bib_header_v1 ''crc32c'' = 20 \<and>
     offset_of atarix_bib_header_v1 ''boot_id'' = 24 \<and>
     offset_of atarix_bib_header_v1 ''producer_id'' = 32 \<and>
     offset_of atarix_bib_header_v1 ''created_counter'' = 40 \<and>
     offset_of atarix_bib_header_v1 ''tlv_offset'' = 48 \<and>
     offset_of atarix_bib_header_v1 ''tlv_count'' = 52 \<and>
     offset_of atarix_bib_header_v1 ''reserved'' = 56"

definition bib_tlv_asserts :: bool where
  "bib_tlv_asserts \<longleftrightarrow>
     size_of atarix_bib_tlv_header_v1 = ATARIX_BIB_TLV_HEADER_SIZE_V1 \<and>
     offset_of atarix_bib_tlv_header_v1 ''type'' = 0 \<and>
     offset_of atarix_bib_tlv_header_v1 ''flags'' = 2 \<and>
     offset_of atarix_bib_tlv_header_v1 ''length'' = 4 \<and>
     offset_of atarix_bib_tlv_header_v1 ''payload_length'' = 8 \<and>
     offset_of atarix_bib_tlv_header_v1 ''reserved'' = 12"

definition bib_payload_asserts :: bool where
  "bib_payload_asserts \<longleftrightarrow>
     size_of atarix_bib_reference_fixed_v1 = ATARIX_BIB_REFERENCE_FIXED_SIZE_V1 \<and>
     size_of atarix_bib_identity_fixed_v1 = ATARIX_BIB_IDENTITY_FIXED_SIZE_V1"

text \<open>\<open>include/atarix/discovery.h\<close>\<close>

definition discovery_asserts :: bool where
  "discovery_asserts \<longleftrightarrow>
     size_of atarix_discovery_header_v1 = ATARIX_DISCOVERY_HEADER_SIZE_V1 \<and>
     size_of atarix_discovery_record_header_v1 = ATARIX_DISCOVERY_RECORD_HEADER_SIZE_V1 \<and>
     size_of atarix_discovery_resource_record_v1 = 32 \<and>
     size_of atarix_discovery_service_record_v1 = 32 \<and>
     size_of atarix_discovery_dependency_record_v1 = 32 \<and>
     size_of atarix_discovery_instrumentation_record_v1 = 32"

abbreviation ATARIX_CAPABILITY_RECORD_SIZE_V1 :: nat where "ATARIX_CAPABILITY_RECORD_SIZE_V1 \<equiv> 56"

text \<open>\<open>capability.h\<close>, \<open>memory.h\<close>, \<open>mailbox.h\<close>, \<open>identity_eeprom.h\<close>, \<open>directory.h\<close>, \<open>index.h\<close>\<close>

definition capability_asserts :: bool where
  "capability_asserts \<longleftrightarrow> size_of atarix_capability_record_v1_layout = ATARIX_CAPABILITY_RECORD_SIZE_V1"

definition memory_asserts :: bool where
  "memory_asserts \<longleftrightarrow> size_of atarix_memory_descriptor_v1_layout = 44"

definition mailbox_asserts :: bool where
  "mailbox_asserts \<longleftrightarrow> size_of atarix_mailbox_header_v1_layout = ATARIX_MAILBOX_HEADER_SIZE_V1"

definition identity_asserts :: bool where
  "identity_asserts \<longleftrightarrow> size_of atarix_identity_eeprom_v1 = ATARIX_IDENTITY_BLOCK_SIZE_V1"

definition directory_asserts :: bool where
  "directory_asserts \<longleftrightarrow>
     size_of atarix_directory_header_v1 = ATARIX_DIRECTORY_HEADER_SIZE_V1 \<and>
     size_of atarix_directory_entry_v1 = ATARIX_DIRECTORY_ENTRY_SIZE_V1"

definition index_asserts :: bool where
  "index_asserts \<longleftrightarrow>
     size_of atarix_payload_index_query_v1 = ATARIX_INDEX_QUERY_PAYLOAD_SIZE_V1 \<and>
     size_of atarix_payload_index_reply_v1 = ATARIX_INDEX_REPLY_PAYLOAD_SIZE_V1"

lemma bib_asserts: "bib_header_asserts" "bib_tlv_asserts" "bib_payload_asserts"
  by (simp_all add: bib_header_asserts_def bib_tlv_asserts_def bib_payload_asserts_def size_of_def
      atarix_bib_header_v1_def atarix_bib_tlv_header_v1_def atarix_bib_reference_fixed_v1_def
      atarix_bib_identity_fixed_v1_def)

lemma record_asserts: "discovery_asserts" "capability_asserts" "memory_asserts" "mailbox_asserts"
  by (simp_all add: discovery_asserts_def capability_asserts_def memory_asserts_def mailbox_asserts_def
      size_of_def discovery_layouts atarix_capability_record_v1_layout_def
      atarix_memory_descriptor_v1_layout_def atarix_mailbox_header_v1_layout_def)

lemma platform_asserts: "identity_asserts" "directory_asserts" "index_asserts"
  by (simp_all add: identity_asserts_def directory_asserts_def index_asserts_def platform_sizes)

text \<open>All of them hold, so the layouts have the sizes and offsets the compiler was made to check.\<close>

lemma static_assertions_hold:
  "bib_header_asserts \<and> bib_tlv_asserts \<and> bib_payload_asserts \<and> discovery_asserts \<and>
   capability_asserts \<and> memory_asserts \<and> mailbox_asserts \<and> identity_asserts \<and>
   directory_asserts \<and> index_asserts"
  by (simp add: bib_asserts record_asserts platform_asserts)

section \<open>The structs and the reader\<close>

lemma overlay_header:
  assumes "header_ok p n" "n \<le> length p"
  shows "take 8 (drop (offset_of atarix_bib_header_v1 ''magic'') p) = ATARIX_BIB_MAGIC"
    and "field16 atarix_bib_header_v1 p 0 ''version_major'' = Some 1"
    and "field16 atarix_bib_header_v1 p 0 ''header_length'' = Some 64"
    and "field16 atarix_bib_header_v1 p 0 ''flags'' = Some (u16_at p 14)"
    and "field32 atarix_bib_header_v1 p 0 ''total_length'' = Some (u32_at p 16)"
    and "field32 atarix_bib_header_v1 p 0 ''crc32c'' = crc32c_with_zeroed_field p (u32_at p 16)"
    and "field64 atarix_bib_header_v1 p 0 ''boot_id'' = Some (u64_at p 24)"
    and "field64 atarix_bib_header_v1 p 0 ''producer_id'' = Some (u64_at p 32)"
    and "field64 atarix_bib_header_v1 p 0 ''created_counter'' = Some (u64_at p 40)"
    and "field32 atarix_bib_header_v1 p 0 ''tlv_offset'' = Some (u32_at p 48)"
    and "field32 atarix_bib_header_v1 p 0 ''tlv_count'' = Some (u32_at p 52)"
    and "field64 atarix_bib_header_v1 p 0 ''reserved'' = Some 0"
proof -
  have len: "64 \<le> length p" using assms by (simp add: header_ok_def)
  have crc: "crc32c_with_zeroed_field p (u32_at p 16) = Some (u32_at p 20)"
    using assms by (simp add: header_ok_def crc32c_with_zeroed_field_eq)
  show "take 8 (drop (offset_of atarix_bib_header_v1 ''magic'') p) = ATARIX_BIB_MAGIC"
    "field16 atarix_bib_header_v1 p 0 ''version_major'' = Some 1"
    "field16 atarix_bib_header_v1 p 0 ''header_length'' = Some 64"
    "field64 atarix_bib_header_v1 p 0 ''reserved'' = Some 0"
    using assms(1) len by (simp_all add: header_ok_def field_defs fields_at atarix_bib_header_v1_def)
  show "field32 atarix_bib_header_v1 p 0 ''crc32c'' = crc32c_with_zeroed_field p (u32_at p 16)"
    using len by (simp add: crc field_defs fields_at atarix_bib_header_v1_def)
qed (use assms in \<open>simp_all add: header_ok_def field_defs fields_at atarix_bib_header_v1_def\<close>)

lemma overlay_record:
  assumes "record_ok p tot off r" "tot \<le> length p"
  shows "field16 atarix_bib_tlv_header_v1 p (rec_payload r - 16) ''type'' = Some (rec_type r)"
    and "field16 atarix_bib_tlv_header_v1 p (rec_payload r - 16) ''flags'' = Some (rec_flags r)"
    and "field32 atarix_bib_tlv_header_v1 p (rec_payload r - 16) ''length'' = Some (rec_serialized_length r)"
    and "field32 atarix_bib_tlv_header_v1 p (rec_payload r - 16) ''payload_length'' = Some (rec_payload_length r)"
    and "field32 atarix_bib_tlv_header_v1 p (rec_payload r - 16) ''reserved'' = Some 0"
proof -
  have "off + 16 \<le> length p" "rec_payload r = off + 16" using assms by (auto simp: record_ok_def)
  moreover have "rec_type r = u16_at p off" "rec_flags r = u16_at p (off + 2)"
    "rec_serialized_length r = u32_at p (off + 4)" "rec_payload_length r = u32_at p (off + 8)"
    "u32_at p (off + 12) = 0"
    using assms(1) unfolding record_ok_def by (metis atarix_bib_record_view.select_convs)+
  ultimately show "field16 atarix_bib_tlv_header_v1 p (rec_payload r - 16) ''type'' = Some (rec_type r)"
    "field16 atarix_bib_tlv_header_v1 p (rec_payload r - 16) ''flags'' = Some (rec_flags r)"
    "field32 atarix_bib_tlv_header_v1 p (rec_payload r - 16) ''length'' = Some (rec_serialized_length r)"
    "field32 atarix_bib_tlv_header_v1 p (rec_payload r - 16) ''payload_length'' = Some (rec_payload_length r)"
    "field32 atarix_bib_tlv_header_v1 p (rec_payload r - 16) ''reserved'' = Some 0"
    by (simp_all add: field_defs fields_at atarix_bib_tlv_header_v1_def)
qed

lemma overlay_reference:
  assumes "record_ok p tot off r" "tot \<le> length p" "reference_of_record p r = Some (Inr ref)"
  shows "field64 atarix_bib_reference_fixed_v1 p (rec_payload r) ''object_id'' = Some (ref_object_id ref)"
    and "field64 atarix_bib_reference_fixed_v1 p (rec_payload r) ''address'' = Some (ref_address ref)"
    and "field64 atarix_bib_reference_fixed_v1 p (rec_payload r) ''length'' = Some (ref_length ref)"
    and "field32 atarix_bib_reference_fixed_v1 p (rec_payload r) ''format_major'' = Some (ref_format_major ref)"
    and "field32 atarix_bib_reference_fixed_v1 p (rec_payload r) ''format_minor'' = Some (ref_format_minor ref)"
    and "field32 atarix_bib_reference_fixed_v1 p (rec_payload r) ''integrity_kind'' = Some (ref_integrity_kind ref)"
    and "field32 atarix_bib_reference_fixed_v1 p (rec_payload r) ''integrity_length'' = Some (ref_integrity_length ref)"
    and "ref_integrity ref = rec_payload r + 40"
  using assms reference_of_record_eq [OF assms(1,2)]
  by (auto simp: record_ok_def reference_of_def field_defs fields_at atarix_bib_reference_fixed_v1_def
      split: if_splits)

text \<open>
  C40. The reader, which works with constant offsets and its own little-endian loads, and the packed structs of
  \<open>bib.h\<close>, which are the documented format, describe the same image. On an image
  \<open>atarix_bib_reader_open\<close> has accepted, the header struct laid over its first bytes has the magic, version,
  length, reserved field and checksum the reader demands, and every other field (the minor version apart, which
  the reader does not look at) is the one in the view; the record struct in front of every payload
  \<open>atarix_bib_reader_record\<close> returns has the fields of that record; and if a reference is decoded from the
  payload, the reference struct laid over it has the fields of that reference.
\<close>

theorem reader_agrees_with_structs:
  assumes "n \<le> length p" "atarix_bib_reader_open (Some v) (Some p) n = Some (ATARIX_BIB_OK, Some u)"
  shows "(let hdr16 = field16 atarix_bib_header_v1 p 0; hdr32 = field32 atarix_bib_header_v1 p 0;
        hdr64 = field64 atarix_bib_header_v1 p 0 in
      take 8 (drop (offset_of atarix_bib_header_v1 ''magic'') p) = ATARIX_BIB_MAGIC \<and>
      hdr16 ''version_major'' = Some 1 \<and>
      hdr16 ''header_length'' = Some (of_nat (size_of atarix_bib_header_v1)) \<and>
      hdr16 ''flags'' = Some (view_flags u) \<and> hdr32 ''total_length'' = Some (view_total_length u) \<and>
      hdr32 ''crc32c'' = crc32c_with_zeroed_field p (view_total_length u) \<and>
      hdr64 ''boot_id'' = Some (view_boot_id u) \<and> hdr64 ''producer_id'' = Some (view_producer_id u) \<and>
      hdr64 ''created_counter'' = Some (view_created_counter u) \<and>
      hdr32 ''tlv_offset'' = Some (view_tlv_offset u) \<and> hdr32 ''tlv_count'' = Some (view_tlv_count u) \<and>
      hdr64 ''reserved'' = Some 0) \<and>
    (\<forall>i r. atarix_bib_reader_record (Some u) i True = Some (Inr r) \<longrightarrow>
      (let off = rec_payload r - size_of atarix_bib_tlv_header_v1 in
      field16 atarix_bib_tlv_header_v1 p off ''type'' = Some (rec_type r) \<and>
      field16 atarix_bib_tlv_header_v1 p off ''flags'' = Some (rec_flags r) \<and>
      field32 atarix_bib_tlv_header_v1 p off ''length'' = Some (rec_serialized_length r) \<and>
      field32 atarix_bib_tlv_header_v1 p off ''payload_length'' = Some (rec_payload_length r) \<and>
      field32 atarix_bib_tlv_header_v1 p off ''reserved'' = Some 0) \<and>
      (\<forall>ref. reference_of_record p r = Some (Inr ref) \<longrightarrow>
        (let ref32 = field32 atarix_bib_reference_fixed_v1 p (rec_payload r);
           ref64 = field64 atarix_bib_reference_fixed_v1 p (rec_payload r) in
        ref64 ''object_id'' = Some (ref_object_id ref) \<and> ref64 ''address'' = Some (ref_address ref) \<and>
        ref64 ''length'' = Some (ref_length ref) \<and> ref32 ''format_major'' = Some (ref_format_major ref) \<and>
        ref32 ''format_minor'' = Some (ref_format_minor ref) \<and>
        ref32 ''integrity_kind'' = Some (ref_integrity_kind ref) \<and>
        ref32 ''integrity_length'' = Some (ref_integrity_length ref) \<and>
        ref_integrity ref = rec_payload r + size_of atarix_bib_reference_fixed_v1)))"
proof -
  from opened_image [OF assms] obtain rs where ok: "image_ok p n rs" and u: "u = view_of p" by blast
  have hdr: "header_ok p n" using ok by (simp add: image_ok_def)
  have sizes: "size_of atarix_bib_header_v1 = 64" "size_of atarix_bib_tlv_header_v1 = 16"
    "size_of atarix_bib_reference_fixed_v1 = 40"
    using bib_asserts by (simp_all add: bib_header_asserts_def bib_tlv_asserts_def bib_payload_asserts_def)
  have inside: "unat (u32_at p 16) \<le> length p" using hdr assms(1) by (simp add: header_ok_def)
  note header = overlay_header [OF hdr assms(1)]
  show ?thesis
  proof (intro conjI allI impI)
    fix i r
    assume "atarix_bib_reader_record (Some u) i True = Some (Inr r)"
    then have "unat i < length rs" "r = rs ! unat i"
      using reader_record_eq [OF ok assms(1), of i] by (auto simp: u split: if_splits)
    then obtain off where r: "record_ok p (unat (u32_at p 16)) off r"
      using ok records_from_nth by (fastforce simp: image_ok_def)
    show "let off = rec_payload r - size_of atarix_bib_tlv_header_v1 in
      field16 atarix_bib_tlv_header_v1 p off ''type'' = Some (rec_type r) \<and>
      field16 atarix_bib_tlv_header_v1 p off ''flags'' = Some (rec_flags r) \<and>
      field32 atarix_bib_tlv_header_v1 p off ''length'' = Some (rec_serialized_length r) \<and>
      field32 atarix_bib_tlv_header_v1 p off ''payload_length'' = Some (rec_payload_length r) \<and>
      field32 atarix_bib_tlv_header_v1 p off ''reserved'' = Some 0"
      unfolding Let_def sizes by (intro conjI overlay_record [OF r inside])
    fix ref
    assume "reference_of_record p r = Some (Inr ref)"
    from overlay_reference [OF r inside this] show "let ref32 = field32 atarix_bib_reference_fixed_v1 p (rec_payload r);
        ref64 = field64 atarix_bib_reference_fixed_v1 p (rec_payload r) in
      ref64 ''object_id'' = Some (ref_object_id ref) \<and> ref64 ''address'' = Some (ref_address ref) \<and>
      ref64 ''length'' = Some (ref_length ref) \<and> ref32 ''format_major'' = Some (ref_format_major ref) \<and>
      ref32 ''format_minor'' = Some (ref_format_minor ref) \<and>
      ref32 ''integrity_kind'' = Some (ref_integrity_kind ref) \<and>
      ref32 ''integrity_length'' = Some (ref_integrity_length ref) \<and>
      ref_integrity ref = rec_payload r + size_of atarix_bib_reference_fixed_v1"
      unfolding Let_def sizes by (intro conjI)
  qed (use header in \<open>simp add: sizes u view_of_def Let_def\<close>)
qed

theorem reader_agrees_with_structs_witness:
  "field64 atarix_bib_header_v1 (bib_image example_ids example_tlvs) 0 ''boot_id'' = Some (ids_boot example_ids)"
proof -
  have "200 \<le> length (bib_image example_ids example_tlvs)" by (simp add: example_readable(2))
  from reader_agrees_with_structs [OF this example_open]
  have "field64 atarix_bib_header_v1 (bib_image example_ids example_tlvs) 0 ''boot_id''
      = Some (u64_at (bib_image example_ids example_tlvs) 24)"
    by (simp only: Let_def view_of_def atarix_bib_view.select_convs)
  then show ?thesis by (simp only: bib_image_def bib_header_at)
qed

end
