(* ===== verification/Discovery_Validate.thy ===== *)
theory Discovery_Validate
  imports Discovery_Format Crc
begin

text \<open>
  Validation of a discovery image, \<open>src/discovery/discovery_validate.c\<close>, and the record iterator,
  \<open>src/discovery/discovery_iterator.c\<close>. A record pointer is its offset from the start of the
  image. The outer \<open>None\<close> of a result is an access outside the image.

  The specification of a well-formed record area is \<open>record_chain\<close>: the list of the record
  offsets from one offset up to and including the END record. The validator accepts exactly the
  images whose record area is such a chain (\<open>validate_loop_chain\<close>), and the iterator walks the
  same chain (\<open>next_record_chain\<close>).
\<close>

section \<open>Operations\<close>

definition atarix_offset_aligned8 :: "nat \<Rightarrow> bool" where
  "atarix_offset_aligned8 offset \<longleftrightarrow> offset AND 7 = 0"

text \<open>
  \<open>memcpy\<close> into the 512 bytes of \<open>image_copy_stack\<close> is checked against their number. \<open>image_copy\<close> is the
  part that it has written: reading a byte behind that part, which is uninitialised, is \<open>None\<close> as well.
\<close>

definition atarix_discovery_crc_valid :: "bytes \<Rightarrow> nat \<Rightarrow> bool option" where
  "atarix_discovery_crc_valid img image_size = do {
     expected_header_crc \<leftarrow> field32 atarix_discovery_header_v1 img 0 ''header_crc32'';
     expected_image_crc \<leftarrow> field32 atarix_discovery_header_v1 img 0 ''image_crc32'';
     header_copy \<leftarrow> memcpy_at (replicate ATARIX_DISCOVERY_HEADER_SIZE_V1 0) 0 img
                      ATARIX_DISCOVERY_HEADER_SIZE_V1;
     header_copy \<leftarrow> set_field32 atarix_discovery_header_v1 header_copy 0 ''header_crc32'' 0;
     header_copy \<leftarrow> set_field32 atarix_discovery_header_v1 header_copy 0 ''image_crc32'' 0;
     actual_header_crc \<leftarrow> atarix_crc32_iso_hdlc header_copy ATARIX_DISCOVERY_HEADER_SIZE_V1;
     if actual_header_crc \<noteq> expected_header_crc then Some False
     else if image_size > 512 then Some True
     else do {
       image_copy_stack \<leftarrow> memcpy_at (replicate 512 0) 0 img image_size;
       let image_copy = take image_size image_copy_stack;
       image_copy \<leftarrow> set_field32 atarix_discovery_header_v1 image_copy 0 ''image_crc32'' 0;
       total_length \<leftarrow> field32 atarix_discovery_header_v1 img 0 ''total_length'';
       actual_image_crc \<leftarrow> atarix_crc32_iso_hdlc image_copy (unat total_length);
       Some (actual_image_crc = expected_image_crc)
     }
   }"

text \<open>The record loop: an error, or \<open>records_seen\<close> and \<open>saw_end\<close> when it is left.\<close>

function validate_loop ::
  "bytes \<Rightarrow> u32 \<Rightarrow> nat \<Rightarrow> u32 \<Rightarrow> (atarix_discovery_result + u32 \<times> bool) option" where
  "validate_loop img total_length offset records_seen =
     (if offset < unat total_length then
        if \<not> atarix_offset_aligned8 offset
        then Some (Inl ATARIX_DISCOVERY_ERROR_BAD_ALIGNMENT)
        else if unat total_length - offset < ATARIX_DISCOVERY_RECORD_HEADER_SIZE_V1
        then Some (Inl ATARIX_DISCOVERY_ERROR_TRUNCATED_RECORD)
        else do {
          len \<leftarrow> field32 atarix_discovery_record_header_v1 img offset ''length'';
          if unat len < ATARIX_DISCOVERY_RECORD_HEADER_SIZE_V1 \<or>
             \<not> atarix_offset_aligned8 (unat len)
          then Some (Inl ATARIX_DISCOVERY_ERROR_BAD_LENGTH)
          else if unat len > unat total_length - offset
          then Some (Inl ATARIX_DISCOVERY_ERROR_TRUNCATED_RECORD)
          else do {
            type \<leftarrow> field16 atarix_discovery_record_header_v1 img offset ''type'';
            if type = ATARIX_DISCOVERY_RECORD_END
            then Some (Inr (records_seen + 1, True))
            else validate_loop img total_length (offset + unat len) (records_seen + 1)
          }
        }
      else Some (Inr (records_seen, False)))"
  by pat_completeness auto
termination
  by (relation "measure (\<lambda>(img, total_length, offset, records_seen). unat total_length - offset)")
     auto

declare validate_loop.simps [simp del]

definition atarix_discovery_validate ::
  "bytes option \<Rightarrow> nat \<Rightarrow> atarix_discovery_result option" where
  "atarix_discovery_validate img_ptr image_size =
     (case img_ptr of
        None \<Rightarrow> Some ATARIX_DISCOVERY_ERROR_NULL
      | Some img \<Rightarrow>
         if image_size < ATARIX_DISCOVERY_HEADER_SIZE_V1
         then Some ATARIX_DISCOVERY_ERROR_TOO_SMALL
         else do {
           magic \<leftarrow> field32 atarix_discovery_header_v1 img 0 ''magic'';
           if \<not> atarix_discovery_magic_is_valid magic
           then Some ATARIX_DISCOVERY_ERROR_BAD_MAGIC
           else do {
             version_major \<leftarrow> field16 atarix_discovery_header_v1 img 0 ''version_major'';
             if version_major \<noteq> ATARIX_DISCOVERY_VERSION_MAJOR_V1
             then Some ATARIX_DISCOVERY_ERROR_UNSUPPORTED_VERSION
             else do {
               total_length \<leftarrow> field32 atarix_discovery_header_v1 img 0 ''total_length'';
               if unat total_length < ATARIX_DISCOVERY_HEADER_SIZE_V1 \<or>
                  unat total_length > image_size \<or>
                  \<not> atarix_offset_aligned8 (unat total_length)
               then Some ATARIX_DISCOVERY_ERROR_BAD_LENGTH
               else do {
                 crc_valid \<leftarrow> atarix_discovery_crc_valid img image_size;
                 if \<not> crc_valid then Some ATARIX_DISCOVERY_ERROR_BAD_CRC
                 else do {
                   outcome \<leftarrow> validate_loop img total_length ATARIX_DISCOVERY_HEADER_SIZE_V1 0;
                   case outcome of
                     Inl e \<Rightarrow> Some e
                   | Inr (records_seen, saw_end) \<Rightarrow>
                       if \<not> saw_end then Some ATARIX_DISCOVERY_ERROR_MISSING_END
                       else do {
                         record_count \<leftarrow> field32 atarix_discovery_header_v1 img 0 ''record_count'';
                         if record_count \<noteq> 0 \<and> records_seen \<noteq> record_count
                         then Some ATARIX_DISCOVERY_ERROR_BAD_LENGTH
                         else Some ATARIX_DISCOVERY_OK
                       }
                 }
               }
             }
           }
         })"

definition atarix_is_aligned8 :: "nat \<Rightarrow> bool" where
  "atarix_is_aligned8 value \<longleftrightarrow> value AND 7 = 0"

definition atarix_discovery_first_record :: "bytes option \<Rightarrow> nat \<Rightarrow> nat option" where
  "atarix_discovery_first_record header image_size =
     (if header = None \<or> image_size < ATARIX_DISCOVERY_HEADER_SIZE_V1 then None
      else Some (0 + ATARIX_DISCOVERY_HEADER_SIZE_V1))"

definition atarix_discovery_next_record ::
  "bytes option \<Rightarrow> nat \<Rightarrow> nat option \<Rightarrow> nat option option" where
  "atarix_discovery_next_record header image_size record =
     (case (header, record) of
        (Some img, Some r) \<Rightarrow> do {
          len \<leftarrow> field32 atarix_discovery_record_header_v1 img r ''length'';
          if unat len < ATARIX_DISCOVERY_RECORD_HEADER_SIZE_V1 then Some None
          else let next_ptr = r + unat len in
            if next_ptr \<ge> image_size then Some None
            else if \<not> atarix_is_aligned8 (next_ptr - 0) then Some None
            else Some (Some next_ptr)
        }
      | _ \<Rightarrow> Some None)"

section \<open>The record area as a chain of offsets\<close>

definition record_type_at :: "bytes \<Rightarrow> nat \<Rightarrow> u16" where
  "record_type_at img off = le16_val (take 2 (drop off img))"

definition record_length_at :: "bytes \<Rightarrow> nat \<Rightarrow> nat" where
  "record_length_at img off = unat (le32_val (take 4 (drop (off + 4) img)))"

text \<open>\<open>record_chain img tot off rs\<close>: the records from \<open>off\<close> on, up to the END record, start at \<open>rs\<close>.\<close>

inductive record_chain :: "bytes \<Rightarrow> nat \<Rightarrow> nat \<Rightarrow> nat list \<Rightarrow> bool" where
  chain_end:
    "\<lbrakk>off mod 8 = 0; off + record_length_at img off \<le> tot; 8 \<le> record_length_at img off;
      record_length_at img off mod 8 = 0; record_type_at img off = ATARIX_DISCOVERY_RECORD_END\<rbrakk>
     \<Longrightarrow> record_chain img tot off [off]"
| chain_more:
    "\<lbrakk>off mod 8 = 0; off + record_length_at img off \<le> tot; 8 \<le> record_length_at img off;
      record_length_at img off mod 8 = 0; record_type_at img off \<noteq> ATARIX_DISCOVERY_RECORD_END;
      record_chain img tot (off + record_length_at img off) rs\<rbrakk>
     \<Longrightarrow> record_chain img tot off (off # rs)"

inductive_cases record_chainE: "record_chain img tot off rs"

lemma record_chain_more_iff:
  assumes "off mod 8 = 0" "off + record_length_at img off \<le> tot" "8 \<le> record_length_at img off"
    "record_length_at img off mod 8 = 0" "record_type_at img off \<noteq> ATARIX_DISCOVERY_RECORD_END"
  shows "record_chain img tot off rs \<longleftrightarrow>
    (\<exists>qs. rs = off # qs \<and> record_chain img tot (off + record_length_at img off) qs)"
proof
  assume "record_chain img tot off rs"
  then show "\<exists>qs. rs = off # qs \<and> record_chain img tot (off + record_length_at img off) qs"
    using assms by (cases rule: record_chain.cases) auto
qed (use assms in \<open>auto intro: chain_more\<close>)

lemma record_chain_starts: "record_chain img tot off rs \<Longrightarrow> \<exists>qs. rs = off # qs"
  by (auto elim: record_chainE)

lemma record_chain_unique:
  "record_chain img tot off rs \<Longrightarrow> record_chain img tot off rs' \<Longrightarrow> rs = rs'"
proof (induction arbitrary: rs' rule: record_chain.induct)
  case (chain_end off img tot)
  then show ?case by (auto elim: record_chainE)
next
  case (chain_more off img tot rs)
  from chain_more.prems chain_more.hyps show ?case
    by (auto elim: record_chainE intro: chain_more.IH)
qed

lemma record_chain_bounds:
  "record_chain img tot off rs \<Longrightarrow> r \<in> set rs \<Longrightarrow>
    off \<le> r \<and> r mod 8 = 0 \<and> 8 \<le> record_length_at img r \<and> r + record_length_at img r \<le> tot"
  by (induction rule: record_chain.induct) auto

lemma record_chain_increasing: "record_chain img tot off rs \<Longrightarrow> sorted_wrt (<) rs"
proof (induction rule: record_chain.induct)
  case (chain_end off img tot)
  then show ?case by simp
next
  case (chain_more off img tot rs)
  then have "off < r" if "r \<in> set rs" for r
    using record_chain_bounds that by fastforce
  with chain_more show ?case by simp
qed

lemma record_chain_cong_imp:
  "record_chain img tot off rs \<Longrightarrow>
    (\<And>r. off \<le> r \<Longrightarrow> record_type_at img' r = record_type_at img r \<and>
      record_length_at img' r = record_length_at img r) \<Longrightarrow> record_chain img' tot off rs"
  by (induction rule: record_chain.induct) (auto intro: record_chain.intros)

lemma record_chain_cong:
  assumes "\<And>r. off \<le> r \<Longrightarrow> record_type_at img' r = record_type_at img r"
    "\<And>r. off \<le> r \<Longrightarrow> record_length_at img' r = record_length_at img r"
  shows "record_chain img' tot off rs = record_chain img tot off rs"
  using assms record_chain_cong_imp [of img tot off rs img'] record_chain_cong_imp [of img' tot off rs img]
  by metis

lemma record_chain_append:
  "record_chain img tot off rs \<Longrightarrow> tot \<le> length img \<Longrightarrow> record_chain (img @ q) tot off rs"
proof (induction rule: record_chain.induct)
  case (chain_end off img tot)
  then have "record_type_at (img @ q) off = record_type_at img off"
    "record_length_at (img @ q) off = record_length_at img off"
    by (simp_all add: record_type_at_def record_length_at_def)
  with chain_end show ?case by (intro record_chain.chain_end) simp_all
next
  case (chain_more off img tot rs)
  then have "record_type_at (img @ q) off = record_type_at img off"
    "record_length_at (img @ q) off = record_length_at img off"
    by (simp_all add: record_type_at_def record_length_at_def)
  with chain_more show ?case by (intro record_chain.chain_more) simp_all
qed

text \<open>Each record takes at least eight bytes, so a chain is short.\<close>

lemma record_chain_length:
  "record_chain img tot off rs \<Longrightarrow> off + 8 * length rs \<le> tot"
  by (induction rule: record_chain.induct) auto

lemma record_chain_last:
  "record_chain img tot off rs \<Longrightarrow>
    record_type_at img (last rs) = ATARIX_DISCOVERY_RECORD_END \<and>
    (\<forall>r \<in> set (butlast rs). record_type_at img r \<noteq> ATARIX_DISCOVERY_RECORD_END)"
proof (induction rule: record_chain.induct)
  case (chain_end off img tot)
  then show ?case by simp
next
  case (chain_more off img tot rs)
  then show ?case using record_chain_starts [of img tot] by fastforce
qed

section \<open>The code against the chain\<close>

lemma record_header_reads:
  assumes "off + 8 \<le> length img"
  shows "field16 atarix_discovery_record_header_v1 img off ''type'' = Some (record_type_at img off)"
    and "\<exists>w. field32 atarix_discovery_record_header_v1 img off ''length'' = Some w \<and>
      unat w = record_length_at img off"
  using assms
  by (simp_all add: field_defs read_le_in record_type_at_def record_length_at_def)

lemma aligned8_iff: "atarix_offset_aligned8 n \<longleftrightarrow> n mod 8 = 0" "atarix_is_aligned8 n \<longleftrightarrow> n mod 8 = 0"
  by (simp_all add: atarix_offset_aligned8_def atarix_is_aligned8_def nat_and_7)

lemma validate_loop_safe:
  "unat tot \<le> length img \<Longrightarrow> validate_loop img tot off seen \<noteq> None"
proof (induction img tot off seen rule: validate_loop.induct)
  case (1 img tot off seen)
  show ?case
  proof (cases "off + 8 \<le> unat tot")
    case True
    with "1.prems" obtain w where
      w: "field32 atarix_discovery_record_header_v1 img off ''length'' = Some w" and
      t: "field16 atarix_discovery_record_header_v1 img off ''type'' = Some (record_type_at img off)"
      using record_header_reads [of off img] by auto
    with True "1.prems" "1.IH" [OF _ _ _ w _ _ t] show ?thesis
      by (subst validate_loop.simps) auto
  next
    case False
    then show ?thesis by (subst validate_loop.simps) auto
  qed
qed

text \<open>One round of the loop on a record header inside the total length.\<close>

lemma validate_loop_round:
  fixes tot :: u32
  assumes "unat tot \<le> length img" "off + 8 \<le> unat tot"
  shows "validate_loop img tot off seen =
    (if off mod 8 \<noteq> 0 then Some (Inl ATARIX_DISCOVERY_ERROR_BAD_ALIGNMENT)
     else if record_length_at img off < 8 \<or> record_length_at img off mod 8 \<noteq> 0
     then Some (Inl ATARIX_DISCOVERY_ERROR_BAD_LENGTH)
     else if unat tot < off + record_length_at img off
     then Some (Inl ATARIX_DISCOVERY_ERROR_TRUNCATED_RECORD)
     else if record_type_at img off = ATARIX_DISCOVERY_RECORD_END then Some (Inr (seen + 1, True))
     else validate_loop img tot (off + record_length_at img off) (seen + 1))"
proof -
  from assms obtain w where
    "field32 atarix_discovery_record_header_v1 img off ''length'' = Some w"
    "unat w = record_length_at img off"
    "field16 atarix_discovery_record_header_v1 img off ''type'' = Some (record_type_at img off)"
    using record_header_reads [of off img] by auto
  with assms show ?thesis by (subst validate_loop.simps) (auto simp: aligned8_iff)
qed

lemma validate_loop_chain:
  assumes "unat tot \<le> length img"
  shows "validate_loop img tot off seen = Some (Inr (n, True)) \<longleftrightarrow>
    (\<exists>rs. record_chain img (unat tot) off rs \<and> n = seen + of_nat (length rs))"
  using assms
proof (induction "unat tot - off" arbitrary: off seen rule: less_induct)
  case less
  let ?len = "record_length_at img off"
  show ?case
  proof (cases "off + 8 \<le> unat tot")
    case False
    then have "\<not> record_chain img (unat tot) off rs" for rs
      by (auto elim: record_chainE)
    with False show ?thesis
      by (subst validate_loop.simps) auto
  next
    case True
    note round = validate_loop_round [OF less.prems True, of seen]
    consider (bad) "off mod 8 \<noteq> 0 \<or> ?len < 8 \<or> ?len mod 8 \<noteq> 0 \<or> unat tot < off + ?len"
      | (end_record) "off mod 8 = 0" "8 \<le> ?len" "?len mod 8 = 0" "off + ?len \<le> unat tot"
        "record_type_at img off = ATARIX_DISCOVERY_RECORD_END"
      | (more) "off mod 8 = 0" "8 \<le> ?len" "?len mod 8 = 0" "off + ?len \<le> unat tot"
        "record_type_at img off \<noteq> ATARIX_DISCOVERY_RECORD_END"
      by linarith
    then show ?thesis
    proof cases
      case bad
      then have "\<not> record_chain img (unat tot) off rs" for rs
        by (auto elim: record_chainE)
      with bad show ?thesis unfolding round by auto
    next
      case end_record
      then have "record_chain img (unat tot) off rs \<longleftrightarrow> rs = [off]" for rs
        by (auto elim: record_chainE intro: chain_end)
      with end_record show ?thesis unfolding round by auto
    next
      case more
      have "validate_loop img tot (off + ?len) (seen + 1) = Some (Inr (n, True)) \<longleftrightarrow>
          (\<exists>rs. record_chain img (unat tot) (off + ?len) rs \<and> n = seen + 1 + of_nat (length rs))"
        using more True less.prems by (intro less.hyps) auto
      then show ?thesis
        unfolding round using more by (auto simp: record_chain_more_iff add.assoc)
    qed
  qed
qed

lemma validate_loop_error: "validate_loop img tot off seen \<noteq> Some (Inl ATARIX_DISCOVERY_OK)"
proof (induction img tot off seen rule: validate_loop.induct)
  case (1 img tot off seen)
  then show ?case
    by (subst validate_loop.simps) (auto simp: bind_eq_Some_conv split: if_splits)
qed

text \<open>The header fields of an image, as values.\<close>

definition header32 :: "bytes \<Rightarrow> string \<Rightarrow> u32" where
  "header32 img f = le32_val (take 4 (drop (offset_of atarix_discovery_header_v1 f) img))"

definition header16 :: "bytes \<Rightarrow> string \<Rightarrow> u16" where
  "header16 img f = le16_val (take 2 (drop (offset_of atarix_discovery_header_v1 f) img))"

abbreviation image_length :: "bytes \<Rightarrow> nat" where
  "image_length img \<equiv> unat (header32 img ''total_length'')"

lemma header_reads:
  assumes "32 \<le> length img"
  shows "field32 atarix_discovery_header_v1 img 0 ''magic'' = Some (header32 img ''magic'')"
    and "field32 atarix_discovery_header_v1 img 0 ''total_length''
          = Some (header32 img ''total_length'')"
    and "field32 atarix_discovery_header_v1 img 0 ''record_count''
          = Some (header32 img ''record_count'')"
    and "field32 atarix_discovery_header_v1 img 0 ''header_crc32''
          = Some (header32 img ''header_crc32'')"
    and "field32 atarix_discovery_header_v1 img 0 ''image_crc32''
          = Some (header32 img ''image_crc32'')"
    and "field16 atarix_discovery_header_v1 img 0 ''version_major''
          = Some (header16 img ''version_major'')"
  using assms by (simp_all add: field_defs read_le_in header32_def header16_def)

text \<open>The two checksums: over the header with both fields zero, and over the image with its own.\<close>

definition header_checksum :: "bytes \<Rightarrow> u32" where
  "header_checksum img = crc_of mailbox_crc_bit (take 24 img @ replicate 8 0)"

definition image_checksum :: "bytes \<Rightarrow> nat \<Rightarrow> u32" where
  "image_checksum img n = crc_of mailbox_crc_bit (take n (overwrite img 28 (replicate 4 0)))"

lemma le32_bytes_0: "le32_bytes 0 = replicate 4 0"
  by (simp add: le32_bytes_def numeral_eq_Suc)

lemma crc_valid_eq:
  assumes "32 \<le> n" "n \<le> length img" "image_length img \<le> n"
  shows "atarix_discovery_crc_valid img n =
    Some (header_checksum img = header32 img ''header_crc32'' \<and>
          (n \<le> 512 \<longrightarrow> image_checksum img (image_length img) = header32 img ''image_crc32''))"
proof -
  have img: "32 \<le> length img" using assms by simp
  have copy: "memcpy_at (replicate k 0) 0 img k = Some (take k img)" if "k \<le> length img" for k
    using that by (simp add: c_mem overwrite_0_append)
  have stack: "memcpy_at (replicate 512 0) 0 img n = Some (take n img @ replicate (512 - n) 0)" if "n \<le> 512"
    using that assms(2) by (simp add: c_mem overwrite_0_append)
  have zeros: "overwrite (overwrite (take 32 img) 24 (replicate 4 0)) 28 (replicate 4 0)
      = take 24 img @ replicate 8 0"
    using overwrite_adjacent [of 24 "replicate 4 0" "replicate 4 0" "take 32 img"] img
    by (simp add: replicate_add [symmetric] overwrite_def min_def)
  have tk: "take (image_length img) (overwrite (take n img) 28 (replicate 4 0))
      = take (image_length img) (overwrite img 28 (replicate 4 0))"
    using assms take_overwrite_within [of 28 "replicate 4 0" n img, symmetric]
    by (simp add: min.absorb1)
  show ?thesis
    using img assms
    by (auto simp: atarix_discovery_crc_valid_def header_reads [OF img] copy stack set_field_defs write_le_in
        le32_bytes_0 zeros atarix_crc32_iso_hdlc_eq header_checksum_def image_checksum_def tk)
qed

section \<open>What validation means\<close>

text \<open>The images the validator accepts, as a predicate on their bytes.\<close>

definition image_accepted :: "bytes \<Rightarrow> nat \<Rightarrow> bool" where
  "image_accepted img n \<longleftrightarrow>
     32 \<le> n \<and> header32 img ''magic'' = ATARIX_DISCOVERY_MAGIC_ATDX \<and>
     header16 img ''version_major'' = ATARIX_DISCOVERY_VERSION_MAJOR_V1 \<and>
     32 \<le> image_length img \<and> image_length img \<le> n \<and> image_length img mod 8 = 0 \<and>
     header_checksum img = header32 img ''header_crc32'' \<and>
     (n \<le> 512 \<longrightarrow> image_checksum img (image_length img) = header32 img ''image_crc32'') \<and>
     (\<exists>rs. record_chain img (image_length img) 32 rs \<and>
       (header32 img ''record_count'' = 0 \<or> header32 img ''record_count'' = of_nat (length rs)))"

lemma validate_loop_outcome:
  assumes "unat tot \<le> length img"
  obtains (chain) rs where "record_chain img (unat tot) off rs"
      "validate_loop img tot off seen = Some (Inr (seen + of_nat (length rs), True))"
  | (no_end) n where "validate_loop img tot off seen = Some (Inr (n, False))"
      "\<nexists>rs. record_chain img (unat tot) off rs"
  | (error) e where "validate_loop img tot off seen = Some (Inl e)" "e \<noteq> ATARIX_DISCOVERY_OK"
      "\<nexists>rs. record_chain img (unat tot) off rs"
proof (cases "\<exists>rs. record_chain img (unat tot) off rs")
  case True
  then obtain rs where "record_chain img (unat tot) off rs" by blast
  moreover from this have "validate_loop img tot off seen = Some (Inr (seen + of_nat (length rs), True))"
    using validate_loop_chain [OF assms] by blast
  ultimately show ?thesis by (rule chain)
next
  case False
  then have "validate_loop img tot off seen \<noteq> Some (Inr (m, True))" for m
    using validate_loop_chain [OF assms] by blast
  moreover have "validate_loop img tot off seen \<noteq> Some (Inl ATARIX_DISCOVERY_OK)"
    by (rule validate_loop_error)
  moreover obtain r where r: "validate_loop img tot off seen = Some r"
    using validate_loop_safe [OF assms, of off seen] by auto
  ultimately consider e where "r = Inl e" "e \<noteq> ATARIX_DISCOVERY_OK" | m where "r = Inr (m, False)"
    by (cases r) auto
  then show ?thesis
    by cases (use r False no_end error in blast)+
qed

lemma validate_Some:
  assumes "n \<le> length img"
  shows "\<exists>r. atarix_discovery_validate (Some img) n = Some r \<and>
    (r = ATARIX_DISCOVERY_OK \<longleftrightarrow> image_accepted img n)"
proof (cases "32 \<le> n")
  case False
  then show ?thesis by (simp add: atarix_discovery_validate_def image_accepted_def)
next
  case True
  with assms have img: "32 \<le> length img" by simp
  let ?tot = "header32 img ''total_length''"
  show ?thesis
  proof (cases "header32 img ''magic'' = ATARIX_DISCOVERY_MAGIC_ATDX \<and>
      header16 img ''version_major'' = ATARIX_DISCOVERY_VERSION_MAJOR_V1 \<and>
      32 \<le> image_length img \<and> image_length img \<le> n \<and> image_length img mod 8 = 0")
    case False
    with True show ?thesis
      by (auto simp: atarix_discovery_validate_def image_accepted_def header_reads [OF img]
          atarix_discovery_magic_is_valid_def aligned8_iff)
  next
    case head: True
    note crc = crc_valid_eq [OF True assms]
    from head assms have tot: "unat ?tot \<le> length img" by simp
    show ?thesis
      using head True
      by (cases rule: validate_loop_outcome [OF tot, of 32 0])
         (auto simp: atarix_discovery_validate_def image_accepted_def header_reads [OF img] crc
           atarix_discovery_magic_is_valid_def aligned8_iff dest: record_chain_unique)
  qed
qed


section \<open>Corruption\<close>

text \<open>A change that leaves the header alone changes neither the header's fields nor its checksum.\<close>

lemma header_same:
  assumes "take 32 img = take 32 img'"
  shows "header32 img ''magic'' = header32 img' ''magic''"
    "header16 img ''version_major'' = header16 img' ''version_major''"
    "header32 img ''total_length'' = header32 img' ''total_length''"
    "header32 img ''record_count'' = header32 img' ''record_count''"
    "header32 img ''header_crc32'' = header32 img' ''header_crc32''"
    "header32 img ''image_crc32'' = header32 img' ''image_crc32''"
    "header_checksum img = header_checksum img'"
proof -
  have field: "take k (drop off img) = take k (drop off img')" if "off + k \<le> 32" for off k
  proof -
    have "take k (drop off img) = take k (drop off (take 32 img))"
      using that by (simp add: drop_take min_absorb1)
    also have "\<dots> = take k (drop off img')"
      using that by (simp add: assms drop_take min_absorb1)
    finally show ?thesis .
  qed
  show "header32 img ''magic'' = header32 img' ''magic''"
    "header16 img ''version_major'' = header16 img' ''version_major''"
    "header32 img ''total_length'' = header32 img' ''total_length''"
    "header32 img ''record_count'' = header32 img' ''record_count''"
    "header32 img ''header_crc32'' = header32 img' ''header_crc32''"
    "header32 img ''image_crc32'' = header32 img' ''image_crc32''"
    using field [of 0 4] by (simp_all add: header32_def header16_def field)
  show "header_checksum img = header_checksum img'"
    using field [of 0 24] by (simp add: header_checksum_def)
qed

lemma image_checksum_burst:
  assumes "32 \<le> length pre" "length pre + length xs \<le> n"
    "length xs = length ys" "length xs \<le> 4" "xs \<noteq> ys"
  shows "image_checksum (pre @ xs @ post) n \<noteq> image_checksum (pre @ ys @ post) n"
  using assms iso.burst_detected [of xs ys "overwrite pre 28 (replicate 4 0)"
      "take (n - length pre - length xs) post"]
  by (simp add: image_checksum_def overwrite_append_left)

lemma validate_bad_crc:
  assumes "32 \<le> n" "n \<le> length img" "header32 img ''magic'' = ATARIX_DISCOVERY_MAGIC_ATDX"
    "header16 img ''version_major'' = ATARIX_DISCOVERY_VERSION_MAJOR_V1"
    "32 \<le> image_length img" "image_length img \<le> n" "image_length img mod 8 = 0" "n \<le> 512"
    "image_checksum img (image_length img) \<noteq> header32 img ''image_crc32''"
  shows "atarix_discovery_validate (Some img) n = Some ATARIX_DISCOVERY_ERROR_BAD_CRC"
proof -
  have img: "32 \<le> length img" using assms by simp
  show ?thesis
    using assms
    by (simp add: atarix_discovery_validate_def header_reads [OF img] aligned8_iff
        crc_valid_eq atarix_discovery_magic_is_valid_def)
qed

section \<open>A concrete image\<close>

text \<open>
  A header, a RESOURCE record of eight bytes (its header only) and an END record, with correct
  checksums.
\<close>

definition short_record_image :: bytes where
  "short_record_image =
     [0x41, 0x54, 0x44, 0x58, 0x01, 0x00, 0x00, 0x00, 0x30, 0x00, 0x00, 0x00,
      0x02, 0x00, 0x00, 0x00, 0x00, 0x00, 0x00, 0x00, 0x00, 0x00, 0x00, 0x00,
      0xFA, 0xFB, 0x6D, 0xBA, 0x7A, 0xA4, 0xE0, 0x21, 0x01, 0x00, 0x01, 0x00,
      0x08, 0x00, 0x00, 0x00, 0xFF, 0xFF, 0x01, 0x00, 0x08, 0x00, 0x00, 0x00]"

lemma length_short_record_image [simp]: "length short_record_image = 48"
  by (simp add: short_record_image_def)

lemma short_record_header:
  "header32 short_record_image ''magic'' = ATARIX_DISCOVERY_MAGIC_ATDX"
  "header16 short_record_image ''version_major'' = 1"
  "header32 short_record_image ''total_length'' = 48"
  "header32 short_record_image ''record_count'' = 2"
  "header32 short_record_image ''header_crc32'' = 0xBA6DFBFA"
  "header32 short_record_image ''image_crc32'' = 0x21E0A47A"
  by (simp_all add: header32_def header16_def short_record_image_def le32_val_def le16_val_def)

lemma replicate_zeros: "replicate 4 x = [x, x, x, x]" "replicate 8 x = [x, x, x, x, x, x, x, x]"
  by (simp_all add: numeral_eq_Suc)

lemma short_record_checksums:
  "header_checksum short_record_image = 0xBA6DFBFA"
  "image_checksum short_record_image 48 = 0x21E0A47A"
  by (simp_all add: header_checksum_def image_checksum_def crc_of_def mailbox_crc_bit_def funpow_8
      short_record_image_def overwrite_def replicate_zeros)

lemma short_record_chain: "record_chain short_record_image 48 32 [32, 40]"
  by (rule chain_more, simp_all add: record_type_at_def record_length_at_def short_record_image_def
      le16_val_def le32_val_def)
     (rule chain_end, simp_all add: record_type_at_def record_length_at_def short_record_image_def
      le16_val_def le32_val_def)

lemma short_record_accepted: "image_accepted short_record_image 48"
  using short_record_chain
  by (auto simp: image_accepted_def short_record_header short_record_checksums
      intro!: exI [of _ "[32, 40]"])


section \<open>Properties\<close>

text \<open>
  C5. Validation is memory safe and exact: on any image held in a buffer of at least the stated
  size it returns a result, and the result is OK exactly for the images with the right magic and
  major version, a total length that is a multiple of eight between the header size and the image
  size, correct checksums (the image checksum only up to 512 bytes), and a record area that is a
  chain of aligned records inside the total length ending in an END record, as many as the header
  counts unless it counts none.
\<close>

theorem validate_exact:
  assumes "n \<le> length img"
  shows "atarix_discovery_validate (Some img) n \<noteq> None \<and>
    (atarix_discovery_validate (Some img) n = Some ATARIX_DISCOVERY_OK \<longleftrightarrow> image_accepted img n)"
  using validate_Some [OF assms] by auto

theorem validate_exact_witness:
  "atarix_discovery_validate (Some short_record_image) 48 = Some ATARIX_DISCOVERY_OK"
  using validate_exact [of 48 short_record_image] short_record_accepted by simp

text \<open>
  C17. Corruption of an image of at most 512 bytes: whenever a window of up to four bytes behind the
  header and inside the total length of an accepted image is changed, validation reports
  BAD_CRC, whatever the change.
\<close>

theorem validate_detects_burst:
  assumes "image_accepted (pre @ xs @ post) n" "n \<le> length (pre @ xs @ post)" "n \<le> 512"
    "32 \<le> length pre" "length pre + length xs \<le> image_length (pre @ xs @ post)"
    "length xs = length ys" "length xs \<le> 4" "xs \<noteq> ys"
  shows "atarix_discovery_validate (Some (pre @ ys @ post)) n = Some ATARIX_DISCOVERY_ERROR_BAD_CRC"
proof -
  have same: "take 32 (pre @ ys @ post) = take 32 (pre @ xs @ post)" using assms(4) by simp
  note h = header_same [OF same]
  show ?thesis
    using assms image_checksum_burst [of pre xs "image_length (pre @ xs @ post)" ys post]
    by (intro validate_bad_crc) (auto simp: h image_accepted_def)
qed

theorem validate_detects_burst_witness:
  "atarix_discovery_validate (Some (take 36 short_record_image @ [0x10] @ drop 37 short_record_image)) 48
    = Some ATARIX_DISCOVERY_ERROR_BAD_CRC"
proof -
  have img: "take 36 short_record_image @ [0x08] @ drop 37 short_record_image = short_record_image"
    by (simp add: short_record_image_def)
  show ?thesis
    using validate_detects_burst [of "take 36 short_record_image" "[0x08]" "drop 37 short_record_image" 48
        "[0x10]"]
    unfolding img by (simp add: short_record_accepted short_record_header)
qed

text \<open>
  C34. The image checksum of an image above 512 bytes is not looked at: overwriting the checksum
  field with any value changes no verdict.
\<close>

theorem validate_large_image_unchecked:
  assumes "512 < n" "n \<le> length img"
  shows "(atarix_discovery_validate (Some (overwrite img 28 (le32_bytes crc))) n
           = Some ATARIX_DISCOVERY_OK) \<longleftrightarrow>
    (atarix_discovery_validate (Some img) n = Some ATARIX_DISCOVERY_OK)"
proof -
  let ?img = "overwrite img 28 (le32_bytes crc)"
  have len: "length ?img = length img" using assms by simp
  have field: "take k (drop off ?img) = take k (drop off img)" if "off + k \<le> 28 \<or> 32 \<le> off" for off k
    using that assms by (intro window_overwrite_disjoint) auto
  have "header32 ?img f = header32 img f" if "f \<in> {''magic'', ''total_length'', ''record_count'', ''header_crc32''}" for f
    using that field [of 0 4] by (auto simp: header32_def field)
  moreover have "header16 ?img ''version_major'' = header16 img ''version_major''"
    by (simp add: header16_def field)
  moreover have "header_checksum ?img = header_checksum img"
    using field [of 0 24] by (simp add: header_checksum_def)
  moreover have "record_chain ?img tot 32 rs = record_chain img tot 32 rs" for tot rs
    by (rule record_chain_cong) (simp_all add: record_type_at_def record_length_at_def field)
  ultimately have "image_accepted ?img n \<longleftrightarrow> image_accepted img n"
    using assms(1) by (simp add: image_accepted_def)
  then show ?thesis
    using validate_Some [of n img] validate_Some [of n ?img] assms len by auto
qed

theorem validate_large_image_unchecked_witness:
  "atarix_discovery_validate
      (Some (overwrite (short_record_image @ replicate 552 0) 28 (le32_bytes 7))) 600
    = Some ATARIX_DISCOVERY_OK"
proof -
  let ?img = "short_record_image @ replicate 552 0"
  have "take 32 ?img = take 32 short_record_image" by simp
  note h = header_same [OF this]
  have "record_chain ?img 48 32 [32, 40]"
    by (rule record_chain_append [OF short_record_chain]) simp
  then have "image_accepted ?img 600"
    by (auto simp: image_accepted_def h short_record_header short_record_checksums
        intro!: exI [of _ "[32, 40]"])
  then show ?thesis
    using validate_large_image_unchecked [of 600 ?img 7] validate_Some [of 600 ?img] by auto
qed

end
