(* ===== verification/Discovery_Database.thy ===== *)
theory Discovery_Database
  imports Discovery_Format
begin

text \<open>
  The discovery database, \<open>include/atarix/discovery_database.h\<close> and
  \<open>src/discovery/discovery_database.c\<close>: four caller-supplied tables, each an array (possibly
  \<open>NULL\<close>), a capacity and a count, and the lookups by handle. A pointer to an entry, as
  \<open>atarix_discovery_find_resource\<close> returns it, is the entry's index.

  \<open>db_ok\<close> is the invariant of the struct (counts within capacities within arrays) and
  \<open>db_handles\<close> the handles it holds; the lookups answer exactly by the latter. The database
  implements \<open>handle_directory\<close>, the interface through which the parser uses it.
\<close>

section \<open>State\<close>

record atarix_resource_entry =
  re_handle :: atarix_discovery_handle
  re_resource_type :: u16
  re_resource_version :: u16
  re_resource_flags :: u32
  re_provider_id :: u32
  re_instance_id :: u32

record atarix_service_entry =
  se_handle :: atarix_discovery_handle
  se_service_id :: u16
  se_service_version :: u16
  se_service_flags :: u32
  se_provider_id :: u32
  se_instance_id :: u32

record atarix_dependency_entry =
  de_consumer_handle :: atarix_discovery_handle
  de_provider_handle :: atarix_discovery_handle
  de_dependency_type :: u16
  de_dependency_version :: u16
  de_dependency_flags :: u32

record atarix_instrumentation_entry =
  ie_handle :: atarix_discovery_handle
  ie_observed_handle :: atarix_discovery_handle
  ie_instrumentation_type :: u16
  ie_instrumentation_version :: u16
  ie_instrumentation_flags :: u32

record atarix_discovery_database =
  resources :: "atarix_resource_entry list option"
  resource_capacity :: nat
  resource_count :: nat
  services :: "atarix_service_entry list option"
  service_capacity :: nat
  service_count :: nat
  dependencies :: "atarix_dependency_entry list option"
  dependency_capacity :: nat
  dependency_count :: nat
  instrumentation :: "atarix_instrumentation_entry list option"
  instrumentation_capacity :: nat
  instrumentation_count :: nat

section \<open>Operations\<close>

definition atarix_discovery_database_init ::
  "atarix_discovery_database option \<Rightarrow> atarix_discovery_database option" where
  "atarix_discovery_database_init db =
     (case db of
        None \<Rightarrow> None
      | Some d \<Rightarrow> Some (d\<lparr>
          resources := None, resource_capacity := 0, resource_count := 0,
          services := None, service_capacity := 0, service_count := 0,
          dependencies := None, dependency_capacity := 0, dependency_count := 0,
          instrumentation := None, instrumentation_capacity := 0, instrumentation_count := 0\<rparr>))"

definition atarix_discovery_find_resource ::
  "atarix_discovery_database option \<Rightarrow> atarix_discovery_handle \<Rightarrow> nat option option" where
  "atarix_discovery_find_resource db handle =
     (case db of
        None \<Rightarrow> Some None
      | Some d \<Rightarrow>
         (case resources d of
            None \<Rightarrow> Some None
          | Some a \<Rightarrow> array_scan re_handle a (resource_count d) handle 0))"

definition atarix_discovery_find_service ::
  "atarix_discovery_database option \<Rightarrow> atarix_discovery_handle \<Rightarrow> nat option option" where
  "atarix_discovery_find_service db handle =
     (case db of
        None \<Rightarrow> Some None
      | Some d \<Rightarrow>
         (case services d of
            None \<Rightarrow> Some None
          | Some a \<Rightarrow> array_scan se_handle a (service_count d) handle 0))"

definition atarix_discovery_database_contains_handle ::
  "atarix_discovery_database option \<Rightarrow> atarix_discovery_handle \<Rightarrow> bool option" where
  "atarix_discovery_database_contains_handle db handle =
     (case db of
        None \<Rightarrow> Some False
      | Some d \<Rightarrow> do {
          r \<leftarrow> (case resources d of
                 None \<Rightarrow> Some None
               | Some a \<Rightarrow> array_scan re_handle a (resource_count d) handle 0);
          if r \<noteq> None then Some True else do {
            s \<leftarrow> (case services d of
                   None \<Rightarrow> Some None
                 | Some a \<Rightarrow> array_scan se_handle a (service_count d) handle 0);
            if s \<noteq> None then Some True else do {
              t \<leftarrow> (case instrumentation d of
                     None \<Rightarrow> Some None
                   | Some a \<Rightarrow> array_scan ie_handle a (instrumentation_count d) handle 0);
              Some (t \<noteq> None)
            }
          }
        })"

section \<open>The invariant and the contents\<close>

definition table_ok :: "'e list option \<Rightarrow> nat \<Rightarrow> nat \<Rightarrow> bool" where
  "table_ok a capacity count =
     (case a of None \<Rightarrow> count = 0 | Some xs \<Rightarrow> count \<le> capacity \<and> capacity \<le> length xs)"

definition table :: "'e list option \<Rightarrow> nat \<Rightarrow> 'e list" where
  "table a count = (case a of None \<Rightarrow> [] | Some xs \<Rightarrow> take count xs)"

definition db_ok :: "atarix_discovery_database \<Rightarrow> bool" where
  "db_ok d \<longleftrightarrow>
     table_ok (resources d) (resource_capacity d) (resource_count d) \<and>
     table_ok (services d) (service_capacity d) (service_count d) \<and>
     table_ok (dependencies d) (dependency_capacity d) (dependency_count d) \<and>
     table_ok (instrumentation d) (instrumentation_capacity d) (instrumentation_count d)"

abbreviation resource_list :: "atarix_discovery_database \<Rightarrow> atarix_resource_entry list" where
  "resource_list d \<equiv> table (resources d) (resource_count d)"
abbreviation service_list :: "atarix_discovery_database \<Rightarrow> atarix_service_entry list" where
  "service_list d \<equiv> table (services d) (service_count d)"
abbreviation dependency_list :: "atarix_discovery_database \<Rightarrow> atarix_dependency_entry list" where
  "dependency_list d \<equiv> table (dependencies d) (dependency_count d)"
abbreviation instrumentation_list ::
  "atarix_discovery_database \<Rightarrow> atarix_instrumentation_entry list" where
  "instrumentation_list d \<equiv> table (instrumentation d) (instrumentation_count d)"

definition db_handles :: "atarix_discovery_database \<Rightarrow> atarix_discovery_handle list" where
  "db_handles d =
     map re_handle (resource_list d) @ map se_handle (service_list d) @
     map ie_handle (instrumentation_list d)"

lemma table_okD: "table_ok (Some xs) capacity count \<Longrightarrow> count \<le> length xs"
  by (simp add: table_ok_def)

text \<open>One more entry: what a store at the count does to a table.\<close>

lemma table_store:
  assumes "table_ok (Some xs) capacity count" "count < capacity"
  shows "array_store xs count e = Some (xs[count := e])"
    and "table (Some (xs[count := e])) (Suc count) = table (Some xs) count @ [e]"
    and "table_ok (Some (xs[count := e])) capacity (Suc count)"
  using assms by (simp_all add: table_ok_def table_def c_mem take_Suc_conv_app_nth)

lemma init_db_ok:
  "\<exists>d'. atarix_discovery_database_init (Some d) = Some d' \<and> db_ok d' \<and> db_handles d' = []"
  by (auto simp: atarix_discovery_database_init_def db_ok_def table_ok_def db_handles_def table_def)

lemma table_scan_hit:
  assumes "table_ok a capacity count"
  shows "\<exists>r. (case a of None \<Rightarrow> Some None | Some xs \<Rightarrow> array_scan key xs count k 0) = Some r \<and>
    (r \<noteq> None) = (k \<in> key ` set (table a count)) \<and>
    (\<forall>j. r = Some j \<longrightarrow> j < count \<and> key (the a ! j) = k)"
proof (cases a)
  case None
  then show ?thesis by (simp add: table_def)
next
  case (Some xs)
  with assms have "count \<le> length xs" by (auto dest: table_okD)
  then show ?thesis
    by (cases rule: array_scan_0_cases [of count xs key k]) (auto simp: Some table_def)
qed

lemma table_scan_find:
  "table_ok a capacity count \<Longrightarrow>
    (case a of None \<Rightarrow> Some None | Some xs \<Rightarrow> array_scan key xs count k 0)
      = Some (find_index (\<lambda>e. key e = k) (table a count))"
  by (cases a) (auto simp: table_def find_index_def dest!: table_okD array_scan_find [of _ _ key k])

lemma contains_handle_eq:
  assumes "db_ok d"
  shows "atarix_discovery_database_contains_handle (Some d) h = Some (h \<in> set (db_handles d))"
proof -
  from assms have
    r: "table_ok (resources d) (resource_capacity d) (resource_count d)" and
    s: "table_ok (services d) (service_capacity d) (service_count d)" and
    i: "table_ok (instrumentation d) (instrumentation_capacity d) (instrumentation_count d)"
    by (simp_all add: db_ok_def)
  show ?thesis
    using table_scan_hit [OF r, of re_handle h] table_scan_hit [OF s, of se_handle h]
      table_scan_hit [OF i, of ie_handle h]
    by (auto simp: atarix_discovery_database_contains_handle_def db_handles_def)
qed

section \<open>The interface of the database\<close>

interpretation db: handle_directory db_ok db_handles
    "\<lambda>d. atarix_discovery_database_contains_handle (Some d)"
  by unfold_locales (rule contains_handle_eq)


section \<open>Properties\<close>

text \<open>
  C30. The lookups of a well-formed database are exact and stay inside the tables: a find returns
  the first entry with the handle, or nothing when no entry of its table has it, and
  \<open>contains_handle\<close> answers whether any resource, service or instrumentation entry has it. The
  database that \<open>atarix_discovery_database_init\<close> leaves, whatever it finds, is well formed and holds no handle.
\<close>

theorem lookups_exact:
  assumes "db_ok d"
  shows "atarix_discovery_find_resource (Some d) h =
      Some (find_index (\<lambda>e. re_handle e = h) (resource_list d)) \<and>
    atarix_discovery_find_service (Some d) h =
      Some (find_index (\<lambda>e. se_handle e = h) (service_list d)) \<and>
    atarix_discovery_database_contains_handle (Some d) h = Some (h \<in> set (db_handles d)) \<and>
    (\<exists>d0. atarix_discovery_database_init (Some e) = Some d0 \<and> db_ok d0 \<and> db_handles d0 = [])"
  using assms init_db_ok [of e] contains_handle_eq [OF assms, of h]
    table_scan_find [of "resources d" "resource_capacity d" "resource_count d" re_handle h]
    table_scan_find [of "services d" "service_capacity d" "service_count d" se_handle h]
  by (simp add: atarix_discovery_find_resource_def atarix_discovery_find_service_def db_ok_def)

theorem lookups_exact_witness:
  "atarix_discovery_find_resource (Some
      \<lparr>resources = Some [\<lparr>re_handle = 5, re_resource_type = 0, re_resource_version = 1,
          re_resource_flags = 0, re_provider_id = 0, re_instance_id = 0\<rparr>,
         \<lparr>re_handle = 7, re_resource_type = 0, re_resource_version = 1,
          re_resource_flags = 0, re_provider_id = 0, re_instance_id = 0\<rparr>],
       resource_capacity = 2, resource_count = 2, services = None, service_capacity = 0,
       service_count = 0, dependencies = None, dependency_capacity = 0, dependency_count = 0,
       instrumentation = None, instrumentation_capacity = 0, instrumentation_count = 0\<rparr>) 7
    = Some (Some 1)"
  by (subst lookups_exact [THEN conjunct1])
     (simp_all add: db_ok_def table_ok_def table_def find_index_def)

end
