(* ===== verification/Discovery_Parser.thy ===== *)
theory Discovery_Parser
  imports Discovery_Validate Discovery_Database
begin

text \<open>
  The discovery parser, \<open>src/discovery/discovery_parser.c\<close>: it validates an image, walks its
  records and adds the known ones to the database. A record pointer is an offset into the image.

  The specification is \<open>put_records\<close>: decode the records of the chain, then insert them one by one
  into a database of four lists. \<open>parse_refines\<close> shows that the code implements it whenever the
  bodies of the known records lie inside the image; the validator does not guarantee that, and
  \<open>short_record_image\<close> is an accepted image on which the parser reads outside the image.
\<close>

section \<open>Operations\<close>

definition add_resource ::
  "atarix_discovery_database \<Rightarrow> bytes \<Rightarrow> nat
    \<Rightarrow> (atarix_discovery_result \<times> atarix_discovery_database) option" where
  "add_resource db img record = do {
     handle \<leftarrow> field64 atarix_discovery_resource_record_v1 img record ''resource_handle'';
     dup \<leftarrow> atarix_discovery_database_contains_handle (Some db) handle;
     if dup then Some (ATARIX_DISCOVERY_ERROR_DUPLICATE_HANDLE, db)
     else if resource_count db \<ge> resource_capacity db \<or> resources db = None
     then Some (ATARIX_DISCOVERY_ERROR_CAPACITY, db)
     else do {
       type_id \<leftarrow> field16 atarix_discovery_resource_record_v1 img record ''resource_type_id'';
       version \<leftarrow> field16 atarix_discovery_resource_record_v1 img record ''resource_version'';
       flags \<leftarrow> field32 atarix_discovery_resource_record_v1 img record ''resource_flags'';
       provider \<leftarrow> field32 atarix_discovery_resource_record_v1 img record ''provider_id'';
       inst \<leftarrow> field32 atarix_discovery_resource_record_v1 img record ''instance_id'';
       a \<leftarrow> array_store (the (resources db)) (resource_count db)
              \<lparr>re_handle = handle, re_resource_type = type_id, re_resource_version = version,
               re_resource_flags = flags, re_provider_id = provider, re_instance_id = inst\<rparr>;
       Some (ATARIX_DISCOVERY_OK,
             db\<lparr>resources := Some a, resource_count := resource_count db + 1\<rparr>)
     }
   }"

definition add_service ::
  "atarix_discovery_database \<Rightarrow> bytes \<Rightarrow> nat
    \<Rightarrow> (atarix_discovery_result \<times> atarix_discovery_database) option" where
  "add_service db img record = do {
     handle \<leftarrow> field64 atarix_discovery_service_record_v1 img record ''service_handle'';
     dup \<leftarrow> atarix_discovery_database_contains_handle (Some db) handle;
     if dup then Some (ATARIX_DISCOVERY_ERROR_DUPLICATE_HANDLE, db)
     else if service_count db \<ge> service_capacity db \<or> services db = None
     then Some (ATARIX_DISCOVERY_ERROR_CAPACITY, db)
     else do {
       service_id \<leftarrow> field16 atarix_discovery_service_record_v1 img record ''service_id'';
       version \<leftarrow> field16 atarix_discovery_service_record_v1 img record ''service_version'';
       flags \<leftarrow> field32 atarix_discovery_service_record_v1 img record ''service_flags'';
       provider \<leftarrow> field32 atarix_discovery_service_record_v1 img record ''provider_id'';
       inst \<leftarrow> field32 atarix_discovery_service_record_v1 img record ''instance_id'';
       a \<leftarrow> array_store (the (services db)) (service_count db)
              \<lparr>se_handle = handle, se_service_id = service_id, se_service_version = version,
               se_service_flags = flags, se_provider_id = provider, se_instance_id = inst\<rparr>;
       Some (ATARIX_DISCOVERY_OK,
             db\<lparr>services := Some a, service_count := service_count db + 1\<rparr>)
     }
   }"

definition add_dependency ::
  "atarix_discovery_database \<Rightarrow> bytes \<Rightarrow> nat
    \<Rightarrow> (atarix_discovery_result \<times> atarix_discovery_database) option" where
  "add_dependency db img record =
     (if dependency_count db \<ge> dependency_capacity db \<or> dependencies db = None
      then Some (ATARIX_DISCOVERY_ERROR_CAPACITY, db)
      else do {
        consumer \<leftarrow> field64 atarix_discovery_dependency_record_v1 img record ''consumer_handle'';
        provider \<leftarrow> field64 atarix_discovery_dependency_record_v1 img record ''provider_handle'';
        type \<leftarrow> field16 atarix_discovery_dependency_record_v1 img record ''dependency_type'';
        version \<leftarrow> field16 atarix_discovery_dependency_record_v1 img record ''dependency_version'';
        flags \<leftarrow> field32 atarix_discovery_dependency_record_v1 img record ''dependency_flags'';
        a \<leftarrow> array_store (the (dependencies db)) (dependency_count db)
               \<lparr>de_consumer_handle = consumer, de_provider_handle = provider,
                de_dependency_type = type, de_dependency_version = version,
                de_dependency_flags = flags\<rparr>;
        Some (ATARIX_DISCOVERY_OK,
              db\<lparr>dependencies := Some a, dependency_count := dependency_count db + 1\<rparr>)
      })"

definition add_instrumentation ::
  "atarix_discovery_database \<Rightarrow> bytes \<Rightarrow> nat
    \<Rightarrow> (atarix_discovery_result \<times> atarix_discovery_database) option" where
  "add_instrumentation db img record = do {
     handle \<leftarrow> field64 atarix_discovery_instrumentation_record_v1 img record
                 ''instrumentation_handle'';
     dup \<leftarrow> atarix_discovery_database_contains_handle (Some db) handle;
     if dup then Some (ATARIX_DISCOVERY_ERROR_DUPLICATE_HANDLE, db)
     else if instrumentation_count db \<ge> instrumentation_capacity db \<or> instrumentation db = None
     then Some (ATARIX_DISCOVERY_ERROR_CAPACITY, db)
     else do {
       observed \<leftarrow> field64 atarix_discovery_instrumentation_record_v1 img record ''observed_handle'';
       type \<leftarrow> field16 atarix_discovery_instrumentation_record_v1 img record
                 ''instrumentation_type'';
       version \<leftarrow> field16 atarix_discovery_instrumentation_record_v1 img record
                    ''instrumentation_version'';
       flags \<leftarrow> field32 atarix_discovery_instrumentation_record_v1 img record
                  ''instrumentation_flags'';
       a \<leftarrow> array_store (the (instrumentation db)) (instrumentation_count db)
              \<lparr>ie_handle = handle, ie_observed_handle = observed, ie_instrumentation_type = type,
               ie_instrumentation_version = version, ie_instrumentation_flags = flags\<rparr>;
       Some (ATARIX_DISCOVERY_OK,
             db\<lparr>instrumentation := Some a, instrumentation_count := instrumentation_count db + 1\<rparr>)
     }
   }"

text \<open>The \<open>switch\<close> of the parser loop.\<close>

definition add_record ::
  "atarix_discovery_database \<Rightarrow> bytes \<Rightarrow> nat \<Rightarrow> u16
    \<Rightarrow> (atarix_discovery_result \<times> atarix_discovery_database) option" where
  "add_record db img record type =
     (if type = ATARIX_DISCOVERY_RECORD_RESOURCE then add_resource db img record
      else if type = ATARIX_DISCOVERY_RECORD_SERVICE then add_service db img record
      else if type = ATARIX_DISCOVERY_RECORD_DEPENDENCY then add_dependency db img record
      else if type = ATARIX_DISCOVERY_RECORD_INSTRUMENTATION then add_instrumentation db img record
      else Some (ATARIX_DISCOVERY_OK, db))"

lemma next_record_forward:
  "atarix_discovery_next_record (Some img) n (Some r) = Some (Some r') \<Longrightarrow> r < r' \<and> r' < n"
  by (auto simp: atarix_discovery_next_record_def bind_eq_Some_conv Let_def split: if_splits)

function parse_loop ::
  "bytes \<Rightarrow> nat \<Rightarrow> atarix_discovery_database \<Rightarrow> nat option
    \<Rightarrow> (atarix_discovery_result \<times> atarix_discovery_database) option" where
  "parse_loop img image_size db record =
     (case record of
        None \<Rightarrow> Some (ATARIX_DISCOVERY_ERROR_MISSING_END, db)
      | Some r \<Rightarrow> do {
          type \<leftarrow> field16 atarix_discovery_record_header_v1 img r ''type'';
          if type = ATARIX_DISCOVERY_RECORD_END then Some (ATARIX_DISCOVERY_OK, db)
          else do {
            outcome \<leftarrow> add_record db img r type;
            if fst outcome \<noteq> ATARIX_DISCOVERY_OK then Some outcome
            else do {
              next_record \<leftarrow> atarix_discovery_next_record (Some img) image_size (Some r);
              parse_loop img image_size (snd outcome) next_record
            }
          }
        })"
  by pat_completeness auto
termination
  by (relation "measure (\<lambda>(img, n, db, record). case record of None \<Rightarrow> 0 | Some r \<Rightarrow> Suc (n - r))")
     (auto split: option.split dest: next_record_forward)

declare parse_loop.simps [simp del]

definition atarix_discovery_parse ::
  "bytes option \<Rightarrow> nat \<Rightarrow> atarix_discovery_database option
    \<Rightarrow> (atarix_discovery_result \<times> atarix_discovery_database option) option" where
  "atarix_discovery_parse img_ptr image_size db =
     (case db of
        None \<Rightarrow> Some (ATARIX_DISCOVERY_ERROR_NULL, None)
      | Some d \<Rightarrow> do {
          result \<leftarrow> atarix_discovery_validate img_ptr image_size;
          if result \<noteq> ATARIX_DISCOVERY_OK then Some (result, Some d)
          else (case img_ptr of
              None \<Rightarrow> None
            | Some img \<Rightarrow> do {
                outcome \<leftarrow> parse_loop img image_size d
                             (atarix_discovery_first_record (Some img) image_size);
                Some (fst outcome, Some (snd outcome))
              })
        })"

section \<open>Specification: inserting decoded records\<close>

datatype discovery_record =
    Resource_Record atarix_resource_entry
  | Service_Record atarix_service_entry
  | Dependency_Record atarix_dependency_entry
  | Instrumentation_Record atarix_instrumentation_entry
  | Skipped_Record

definition resource_at :: "bytes \<Rightarrow> nat \<Rightarrow> atarix_resource_entry" where
  "resource_at img r =
     \<lparr>re_handle = u64_at img (r + 16), re_resource_type = u16_at img (r + 8),
      re_resource_version = u16_at img (r + 10), re_resource_flags = u32_at img (r + 12),
      re_provider_id = u32_at img (r + 24), re_instance_id = u32_at img (r + 28)\<rparr>"

definition service_at :: "bytes \<Rightarrow> nat \<Rightarrow> atarix_service_entry" where
  "service_at img r =
     \<lparr>se_handle = u64_at img (r + 16), se_service_id = u16_at img (r + 8),
      se_service_version = u16_at img (r + 10), se_service_flags = u32_at img (r + 12),
      se_provider_id = u32_at img (r + 24), se_instance_id = u32_at img (r + 28)\<rparr>"

definition dependency_at :: "bytes \<Rightarrow> nat \<Rightarrow> atarix_dependency_entry" where
  "dependency_at img r =
     \<lparr>de_consumer_handle = u64_at img (r + 8), de_provider_handle = u64_at img (r + 16),
      de_dependency_type = u16_at img (r + 24), de_dependency_version = u16_at img (r + 26),
      de_dependency_flags = u32_at img (r + 28)\<rparr>"

definition instrumentation_at :: "bytes \<Rightarrow> nat \<Rightarrow> atarix_instrumentation_entry" where
  "instrumentation_at img r =
     \<lparr>ie_handle = u64_at img (r + 16), ie_observed_handle = u64_at img (r + 24),
      ie_instrumentation_type = u16_at img (r + 8), ie_instrumentation_version = u16_at img (r + 10),
      ie_instrumentation_flags = u32_at img (r + 12)\<rparr>"

definition record_at :: "bytes \<Rightarrow> nat \<Rightarrow> discovery_record" where
  "record_at img r =
     (let type = record_type_at img r in
      if type = ATARIX_DISCOVERY_RECORD_RESOURCE then Resource_Record (resource_at img r)
      else if type = ATARIX_DISCOVERY_RECORD_SERVICE then Service_Record (service_at img r)
      else if type = ATARIX_DISCOVERY_RECORD_DEPENDENCY then Dependency_Record (dependency_at img r)
      else if type = ATARIX_DISCOVERY_RECORD_INSTRUMENTATION
      then Instrumentation_Record (instrumentation_at img r)
      else Skipped_Record)"

text \<open>A record whose body the parser reads: 32 bytes for each of the four known kinds.\<close>

definition body_inside :: "bytes \<Rightarrow> nat \<Rightarrow> bool" where
  "body_inside img r \<longleftrightarrow> record_at img r = Skipped_Record \<or> r + 32 \<le> length img"

definition put_resource ::
  "atarix_resource_entry \<Rightarrow> atarix_discovery_database
    \<Rightarrow> atarix_discovery_result \<times> atarix_discovery_database" where
  "put_resource e d =
     (if re_handle e \<in> set (db_handles d) then (ATARIX_DISCOVERY_ERROR_DUPLICATE_HANDLE, d)
      else case resources d of
        None \<Rightarrow> (ATARIX_DISCOVERY_ERROR_CAPACITY, d)
      | Some a \<Rightarrow>
          if resource_capacity d \<le> resource_count d then (ATARIX_DISCOVERY_ERROR_CAPACITY, d)
          else (ATARIX_DISCOVERY_OK,
                d\<lparr>resources := Some (a[resource_count d := e]),
                  resource_count := Suc (resource_count d)\<rparr>))"

definition put_service ::
  "atarix_service_entry \<Rightarrow> atarix_discovery_database
    \<Rightarrow> atarix_discovery_result \<times> atarix_discovery_database" where
  "put_service e d =
     (if se_handle e \<in> set (db_handles d) then (ATARIX_DISCOVERY_ERROR_DUPLICATE_HANDLE, d)
      else case services d of
        None \<Rightarrow> (ATARIX_DISCOVERY_ERROR_CAPACITY, d)
      | Some a \<Rightarrow>
          if service_capacity d \<le> service_count d then (ATARIX_DISCOVERY_ERROR_CAPACITY, d)
          else (ATARIX_DISCOVERY_OK,
                d\<lparr>services := Some (a[service_count d := e]),
                  service_count := Suc (service_count d)\<rparr>))"

definition put_dependency ::
  "atarix_dependency_entry \<Rightarrow> atarix_discovery_database
    \<Rightarrow> atarix_discovery_result \<times> atarix_discovery_database" where
  "put_dependency e d =
     (case dependencies d of
        None \<Rightarrow> (ATARIX_DISCOVERY_ERROR_CAPACITY, d)
      | Some a \<Rightarrow>
          if dependency_capacity d \<le> dependency_count d then (ATARIX_DISCOVERY_ERROR_CAPACITY, d)
          else (ATARIX_DISCOVERY_OK,
                d\<lparr>dependencies := Some (a[dependency_count d := e]),
                  dependency_count := Suc (dependency_count d)\<rparr>))"

definition put_instrumentation ::
  "atarix_instrumentation_entry \<Rightarrow> atarix_discovery_database
    \<Rightarrow> atarix_discovery_result \<times> atarix_discovery_database" where
  "put_instrumentation e d =
     (if ie_handle e \<in> set (db_handles d) then (ATARIX_DISCOVERY_ERROR_DUPLICATE_HANDLE, d)
      else case instrumentation d of
        None \<Rightarrow> (ATARIX_DISCOVERY_ERROR_CAPACITY, d)
      | Some a \<Rightarrow>
          if instrumentation_capacity d \<le> instrumentation_count d
          then (ATARIX_DISCOVERY_ERROR_CAPACITY, d)
          else (ATARIX_DISCOVERY_OK,
                d\<lparr>instrumentation := Some (a[instrumentation_count d := e]),
                  instrumentation_count := Suc (instrumentation_count d)\<rparr>))"

fun put_record ::
  "discovery_record \<Rightarrow> atarix_discovery_database
    \<Rightarrow> atarix_discovery_result \<times> atarix_discovery_database" where
  "put_record (Resource_Record e) d = put_resource e d"
| "put_record (Service_Record e) d = put_service e d"
| "put_record (Dependency_Record e) d = put_dependency e d"
| "put_record (Instrumentation_Record e) d = put_instrumentation e d"
| "put_record Skipped_Record d = (ATARIX_DISCOVERY_OK, d)"

fun put_records ::
  "discovery_record list \<Rightarrow> atarix_discovery_database
    \<Rightarrow> atarix_discovery_result \<times> atarix_discovery_database" where
  "put_records [] d = (ATARIX_DISCOVERY_OK, d)"
| "put_records (x # xs) d =
     (case put_record x d of
        (r, d') \<Rightarrow> if r = ATARIX_DISCOVERY_OK then put_records xs d' else (r, d'))"

lemmas put_defs =
  put_resource_def put_service_def put_dependency_def put_instrumentation_def

section \<open>Inserting keeps the database well formed\<close>

lemma put_resource_handles:
  assumes "db_ok d" "fst (put_resource e d) = ATARIX_DISCOVERY_OK"
  shows "db_ok (snd (put_resource e d))"
    and "resource_list (snd (put_resource e d)) = resource_list d @ [e]"
    and "re_handle e \<notin> set (db_handles d)"
    and "db_handles (snd (put_resource e d)) =
      map re_handle (resource_list d) @ re_handle e # map se_handle (service_list d) @
      map ie_handle (instrumentation_list d)"
  using assms table_store [of "the (resources d)" "resource_capacity d" "resource_count d" e]
  by (auto simp: put_resource_def db_ok_def db_handles_def split: option.splits if_splits)

lemma put_service_handles:
  assumes "db_ok d" "fst (put_service e d) = ATARIX_DISCOVERY_OK"
  shows "db_ok (snd (put_service e d))"
    and "service_list (snd (put_service e d)) = service_list d @ [e]"
    and "se_handle e \<notin> set (db_handles d)"
    and "db_handles (snd (put_service e d)) =
      (map re_handle (resource_list d) @ map se_handle (service_list d)) @ se_handle e #
      map ie_handle (instrumentation_list d)"
  using assms table_store [of "the (services d)" "service_capacity d" "service_count d" e]
  by (auto simp: put_service_def db_ok_def db_handles_def split: option.splits if_splits)

lemma put_instrumentation_handles:
  assumes "db_ok d" "fst (put_instrumentation e d) = ATARIX_DISCOVERY_OK"
  shows "db_ok (snd (put_instrumentation e d))"
    and "instrumentation_list (snd (put_instrumentation e d)) = instrumentation_list d @ [e]"
    and "ie_handle e \<notin> set (db_handles d)"
    and "db_handles (snd (put_instrumentation e d)) =
      (map re_handle (resource_list d) @ map se_handle (service_list d) @
       map ie_handle (instrumentation_list d)) @ [ie_handle e]"
  using assms
    table_store [of "the (instrumentation d)" "instrumentation_capacity d" "instrumentation_count d" e]
  by (auto simp: put_instrumentation_def db_ok_def db_handles_def split: option.splits if_splits)

lemma put_dependency_handles:
  assumes "db_ok d"
  shows "db_ok (snd (put_dependency e d))"
    and "db_handles (snd (put_dependency e d)) = db_handles d"
    and "fst (put_dependency e d) = ATARIX_DISCOVERY_OK \<Longrightarrow>
      dependency_list (snd (put_dependency e d)) = dependency_list d @ [e]"
  using assms table_store [of "the (dependencies d)" "dependency_capacity d" "dependency_count d" e]
  by (auto simp: put_dependency_def db_ok_def db_handles_def split: option.splits)

lemma put_fail:
  "fst (put_resource e d) \<noteq> ATARIX_DISCOVERY_OK \<Longrightarrow> snd (put_resource e d) = d"
  "fst (put_service f d) \<noteq> ATARIX_DISCOVERY_OK \<Longrightarrow> snd (put_service f d) = d"
  "fst (put_dependency g d) \<noteq> ATARIX_DISCOVERY_OK \<Longrightarrow> snd (put_dependency g d) = d"
  "fst (put_instrumentation h d) \<noteq> ATARIX_DISCOVERY_OK \<Longrightarrow> snd (put_instrumentation h d) = d"
  by (auto simp: put_defs split: option.splits if_splits)

interpretation resources: handle_insertion db_ok db_handles
    "\<lambda>d. atarix_discovery_database_contains_handle (Some d)" put_resource re_handle
    ATARIX_DISCOVERY_OK
proof unfold_locales
  fix d e
  assume "db_ok d"
  then show "db_ok (snd (put_resource e d))"
    using put_resource_handles(1) put_fail(1) by metis
next
  fix d e
  assume d: "db_ok d" and ok: "fst (put_resource e d) = ATARIX_DISCOVERY_OK"
  note p = put_resource_handles [OF d ok]
  show "atarix_discovery_database_contains_handle (Some d) (re_handle e) = Some False \<and>
      (\<exists>xs ys. db_handles d = xs @ ys \<and> db_handles (snd (put_resource e d)) = xs @ re_handle e # ys)"
    using p(3,4) by (auto simp: db.contains_eq [OF d] db_handles_def)
qed (rule put_fail)

interpretation services: handle_insertion db_ok db_handles
    "\<lambda>d. atarix_discovery_database_contains_handle (Some d)" put_service se_handle
    ATARIX_DISCOVERY_OK
proof unfold_locales
  fix d e
  assume "db_ok d"
  then show "db_ok (snd (put_service e d))"
    using put_service_handles(1) put_fail(2) by metis
next
  fix d e
  assume d: "db_ok d" and ok: "fst (put_service e d) = ATARIX_DISCOVERY_OK"
  note p = put_service_handles [OF d ok]
  show "atarix_discovery_database_contains_handle (Some d) (se_handle e) = Some False \<and>
      (\<exists>xs ys. db_handles d = xs @ ys \<and> db_handles (snd (put_service e d)) = xs @ se_handle e # ys)"
    unfolding p(4) db.contains_eq [OF d]
    using p(3) by (intro conjI exI [of _ "map re_handle (resource_list d) @ map se_handle (service_list d)"]
        exI [of _ "map ie_handle (instrumentation_list d)"]) (simp_all add: db_handles_def)
qed (rule put_fail)

interpretation probes: handle_insertion db_ok db_handles
    "\<lambda>d. atarix_discovery_database_contains_handle (Some d)" put_instrumentation ie_handle
    ATARIX_DISCOVERY_OK
proof unfold_locales
  fix d e
  assume "db_ok d"
  then show "db_ok (snd (put_instrumentation e d))"
    using put_instrumentation_handles(1) put_fail(4) by metis
next
  fix d e
  assume d: "db_ok d" and ok: "fst (put_instrumentation e d) = ATARIX_DISCOVERY_OK"
  note p = put_instrumentation_handles [OF d ok]
  show "atarix_discovery_database_contains_handle (Some d) (ie_handle e) = Some False \<and>
      (\<exists>xs ys. db_handles d = xs @ ys \<and>
        db_handles (snd (put_instrumentation e d)) = xs @ ie_handle e # ys)"
    unfolding p(4) db.contains_eq [OF d]
    using p(3) by (intro conjI exI [of _ "db_handles d"] exI [of _ "[]"]) (simp_all add: db_handles_def)
qed (rule put_fail)

lemma put_record_keeps:
  assumes "db_ok d"
  shows "db_ok (snd (put_record x d))"
    and "distinct (db_handles d) \<Longrightarrow> distinct (db_handles (snd (put_record x d)))"
  using assms
  by (cases x; simp add: resources.insert_keeps services.insert_keeps probes.insert_keeps
      put_dependency_handles resources.insert_distinct services.insert_distinct
      probes.insert_distinct)+

lemma put_records_keeps:
  "db_ok d \<Longrightarrow> db_ok (snd (put_records xs d)) \<and>
    (distinct (db_handles d) \<longrightarrow> distinct (db_handles (snd (put_records xs d))))"
proof (induction xs arbitrary: d)
  case Nil
  then show ?case by simp
next
  case (Cons x xs)
  obtain r d' where p: "put_record x d = (r, d')" by (cases "put_record x d")
  with put_record_keeps [OF Cons.prems, of x]
  have "db_ok d'" "distinct (db_handles d) \<longrightarrow> distinct (db_handles d')" by simp_all
  with Cons.IH [of d'] show ?case by (simp add: p)
qed


section \<open>The parser implements the specification\<close>

lemma add_resource_refines:
  assumes "db_ok d" "r + 32 \<le> length img"
  shows "add_resource d img r = Some (put_resource (resource_at img r) d)"
  using assms table_okD [of "the (resources d)" "resource_capacity d" "resource_count d"]
  by (auto simp: add_resource_def put_resource_def resource_at_def field_defs fields_at
      db.contains_eq db_ok_def table_ok_def array_store_def split: option.splits)

lemma add_service_refines:
  assumes "db_ok d" "r + 32 \<le> length img"
  shows "add_service d img r = Some (put_service (service_at img r) d)"
  using assms table_okD [of "the (services d)" "service_capacity d" "service_count d"]
  by (auto simp: add_service_def put_service_def service_at_def field_defs fields_at
      db.contains_eq db_ok_def table_ok_def array_store_def split: option.splits)

lemma add_dependency_refines:
  assumes "db_ok d" "r + 32 \<le> length img"
  shows "add_dependency d img r = Some (put_dependency (dependency_at img r) d)"
  using assms table_okD [of "the (dependencies d)" "dependency_capacity d" "dependency_count d"]
  by (auto simp: add_dependency_def put_dependency_def dependency_at_def field_defs fields_at
      db_ok_def table_ok_def array_store_def split: option.splits)

lemma add_instrumentation_refines:
  assumes "db_ok d" "r + 32 \<le> length img"
  shows "add_instrumentation d img r = Some (put_instrumentation (instrumentation_at img r) d)"
  using assms
    table_okD [of "the (instrumentation d)" "instrumentation_capacity d" "instrumentation_count d"]
  by (auto simp: add_instrumentation_def put_instrumentation_def instrumentation_at_def field_defs
      fields_at db.contains_eq db_ok_def table_ok_def array_store_def split: option.splits)

lemma add_record_refines:
  assumes "db_ok d" "body_inside img r"
  shows "add_record d img r (record_type_at img r) = Some (put_record (record_at img r) d)"
  using assms
  by (simp add: add_record_def record_at_def body_inside_def Let_def add_resource_refines
      add_service_refines add_dependency_refines add_instrumentation_refines split: if_splits)

lemma next_record_chain:
  assumes "record_chain img tot off (off # rs)" "rs \<noteq> []" "tot \<le> n" "n \<le> length img"
  shows "atarix_discovery_next_record (Some img) n (Some off) = Some (Some (hd rs))"
proof -
  from assms(1,2) have tail: "record_chain img tot (off + record_length_at img off) rs"
    and al: "off mod 8 = 0" "record_length_at img off mod 8 = 0" "8 \<le> record_length_at img off"
    by (auto elim: record_chain.cases)
  from record_chain_starts [OF tail] have hd: "hd rs = off + record_length_at img off" by auto
  from record_chain_length [OF tail] assms(2) have lt: "off + record_length_at img off < tot"
    by (cases rs) auto
  with assms al obtain w where
    "field32 atarix_discovery_record_header_v1 img off ''length'' = Some w"
    "unat w = record_length_at img off"
    using record_header_reads(2) [of off img] by auto
  with lt al assms hd show ?thesis
    by (auto simp: atarix_discovery_next_record_def aligned8_iff mod_add_eq [symmetric, of off])
qed

lemma parse_loop_refines:
  assumes "record_chain img tot off rs" "tot \<le> n" "n \<le> length img" "db_ok d"
    "\<forall>r \<in> set rs. body_inside img r"
  shows "parse_loop img n d (Some off) = Some (put_records (map (record_at img) (butlast rs)) d)"
  using assms
proof (induction arbitrary: d rule: record_chain.induct)
  case (chain_end off img tot)
  then have "off + 8 \<le> length img" by simp
  from record_header_reads(1) [OF this] chain_end show ?case
    by (subst parse_loop.simps) simp
next
  case (chain_more off img tot rs)
  let ?next = "off + record_length_at img off"
  have chain: "record_chain img tot off (off # rs)"
    using chain_more.hyps by (rule record_chain.chain_more)
  have ne: "rs \<noteq> []" "hd rs = ?next" using record_chain_starts [OF chain_more.hyps(6)] by auto
  have "off + 8 \<le> length img" using chain_more by simp
  note type = record_header_reads(1) [OF this]
  have add: "add_record d img off (record_type_at img off) = Some (put_record (record_at img off) d)"
    using chain_more.prems by (intro add_record_refines) auto
  have step: "parse_loop img n d (Some off) =
      (if fst (put_record (record_at img off) d) \<noteq> ATARIX_DISCOVERY_OK
       then Some (put_record (record_at img off) d)
       else parse_loop img n (snd (put_record (record_at img off) d)) (Some ?next))"
    using next_record_chain [OF chain ne(1) chain_more.prems(1,2)] chain_more.hyps ne(2)
    by (subst parse_loop.simps) (simp add: type add)
  have "db_ok (snd (put_record (record_at img off) d))"
    using chain_more.prems by (intro put_record_keeps)
  from chain_more.IH [OF chain_more.prems(1,2) this] chain_more.prems(4) show ?case
    using ne(1) by (simp add: step split: prod.split)
qed

lemma parse_refines:
  assumes "n \<le> length img" "db_ok d" "record_chain img (image_length img) 32 rs"
    "\<forall>r \<in> set rs. body_inside img r" "image_accepted img n"
  shows "\<exists>r d'. put_records (map (record_at img) (butlast rs)) d = (r, d') \<and>
    atarix_discovery_parse (Some img) n (Some d) = Some (r, Some d')"
proof -
  from validate_Some [OF assms(1)] assms(5)
  have valid: "atarix_discovery_validate (Some img) n = Some ATARIX_DISCOVERY_OK" by auto
  from assms(5) have n: "32 \<le> n" "image_length img \<le> n" by (simp_all add: image_accepted_def)
  have "parse_loop img n d (Some 32) = Some (put_records (map (record_at img) (butlast rs)) d)"
    using parse_loop_refines [OF assms(3) n(2) assms(1,2,4)] .
  then show ?thesis
    using n(1)
    by (cases "put_records (map (record_at img) (butlast rs)) d")
       (simp add: atarix_discovery_parse_def valid atarix_discovery_first_record_def)
qed

text \<open>Whatever the image: an image the validator refuses leaves the database as it was.\<close>

lemma parse_refused:
  assumes "n \<le> length img" "\<not> image_accepted img n"
  shows "\<exists>r. r \<noteq> ATARIX_DISCOVERY_OK \<and> atarix_discovery_validate (Some img) n = Some r \<and>
    atarix_discovery_parse (Some img) n (Some d) = Some (r, Some d)"
  using validate_Some [OF assms(1)] assms(2) by (auto simp: atarix_discovery_parse_def)


section \<open>What a successful parse has stored\<close>

definition resources_of :: "discovery_record list \<Rightarrow> atarix_resource_entry list" where
  "resources_of xs = concat (map (\<lambda>x. case x of Resource_Record e \<Rightarrow> [e] | _ \<Rightarrow> []) xs)"

definition services_of :: "discovery_record list \<Rightarrow> atarix_service_entry list" where
  "services_of xs = concat (map (\<lambda>x. case x of Service_Record e \<Rightarrow> [e] | _ \<Rightarrow> []) xs)"

definition dependencies_of :: "discovery_record list \<Rightarrow> atarix_dependency_entry list" where
  "dependencies_of xs = concat (map (\<lambda>x. case x of Dependency_Record e \<Rightarrow> [e] | _ \<Rightarrow> []) xs)"

definition instrumentation_of :: "discovery_record list \<Rightarrow> atarix_instrumentation_entry list" where
  "instrumentation_of xs =
     concat (map (\<lambda>x. case x of Instrumentation_Record e \<Rightarrow> [e] | _ \<Rightarrow> []) xs)"

lemmas contents_of_defs =
  resources_of_def services_of_def dependencies_of_def instrumentation_of_def

definition extends_by ::
  "atarix_discovery_database \<Rightarrow> discovery_record list \<Rightarrow> atarix_discovery_database \<Rightarrow> bool" where
  "extends_by d xs d' \<longleftrightarrow>
     resource_list d' = resource_list d @ resources_of xs \<and>
     service_list d' = service_list d @ services_of xs \<and>
     dependency_list d' = dependency_list d @ dependencies_of xs \<and>
     instrumentation_list d' = instrumentation_list d @ instrumentation_of xs"

lemma extends_by_Nil: "extends_by d [] d"
  by (simp add: extends_by_def contents_of_defs)

lemma extends_by_Cons: "extends_by d [x] d1 \<Longrightarrow> extends_by d1 xs d2 \<Longrightarrow> extends_by d (x # xs) d2"
  by (simp add: extends_by_def contents_of_defs)

lemma put_others:
  "service_list (snd (put_resource e d)) = service_list d"
  "dependency_list (snd (put_resource e d)) = dependency_list d"
  "instrumentation_list (snd (put_resource e d)) = instrumentation_list d"
  "resource_list (snd (put_service f d)) = resource_list d"
  "dependency_list (snd (put_service f d)) = dependency_list d"
  "instrumentation_list (snd (put_service f d)) = instrumentation_list d"
  "resource_list (snd (put_dependency g d)) = resource_list d"
  "service_list (snd (put_dependency g d)) = service_list d"
  "instrumentation_list (snd (put_dependency g d)) = instrumentation_list d"
  "resource_list (snd (put_instrumentation h d)) = resource_list d"
  "service_list (snd (put_instrumentation h d)) = service_list d"
  "dependency_list (snd (put_instrumentation h d)) = dependency_list d"
  by (simp_all add: put_defs split: option.split)

lemma put_record_extends:
  assumes "db_ok d" "put_record x d = (ATARIX_DISCOVERY_OK, d')"
  shows "extends_by d [x] d'"
proof -
  from assms(2) have "fst (put_record x d) = ATARIX_DISCOVERY_OK" "d' = snd (put_record x d)" by simp_all
  then show ?thesis
    using assms(1)
    by (cases x) (simp_all add: extends_by_def contents_of_defs put_others put_resource_handles
        put_service_handles put_dependency_handles put_instrumentation_handles)
qed

lemma put_records_extends:
  "\<lbrakk>db_ok d; put_records xs d = (ATARIX_DISCOVERY_OK, d')\<rbrakk> \<Longrightarrow> extends_by d xs d'"
proof (induction xs arbitrary: d)
  case Nil
  then show ?case by (simp add: extends_by_Nil)
next
  case (Cons x xs)
  then obtain d1 where d1: "put_record x d = (ATARIX_DISCOVERY_OK, d1)"
    "put_records xs d1 = (ATARIX_DISCOVERY_OK, d')"
    by (auto split: prod.splits if_splits)
  moreover have "db_ok d1" using put_record_keeps(1) [OF Cons.prems(1), of x] d1(1) by simp
  ultimately show ?case
    using put_record_extends [OF Cons.prems(1)] Cons.IH extends_by_Cons by blast
qed


section \<open>A database with room\<close>

definition blank_resource :: atarix_resource_entry where
  "blank_resource = \<lparr>re_handle = 0, re_resource_type = 0, re_resource_version = 0,
     re_resource_flags = 0, re_provider_id = 0, re_instance_id = 0\<rparr>"

definition blank_service :: atarix_service_entry where
  "blank_service = \<lparr>se_handle = 0, se_service_id = 0, se_service_version = 0,
     se_service_flags = 0, se_provider_id = 0, se_instance_id = 0\<rparr>"

definition small_db :: atarix_discovery_database where
  "small_db =
     \<lparr>resources = Some (replicate 4 blank_resource), resource_capacity = 4, resource_count = 0,
      services = Some (replicate 4 blank_service), service_capacity = 4, service_count = 0,
      dependencies = None, dependency_capacity = 0, dependency_count = 0,
      instrumentation = None, instrumentation_capacity = 0, instrumentation_count = 0\<rparr>"

lemma small_db_ok [simp]: "db_ok small_db" "db_handles small_db = []"
  by (simp_all add: small_db_def db_ok_def table_ok_def db_handles_def table_def)

section \<open>Properties\<close>

text \<open>
  C4. The parser refines the specification. On an accepted image whose known records lie inside
  the buffer, parsing into a well-formed database returns, without an access outside the image or
  the tables, exactly what inserting the decoded records in order gives: it stops at the first
  duplicate handle or full table, keeps the database well formed and its handles distinct, and
  when it answers OK each of the four tables has grown by exactly the image's records of its kind,
  in image order.
\<close>

theorem parse_refinement:
  assumes "n \<le> length img" "db_ok d" "image_accepted img n"
    "record_chain img (image_length img) 32 rs" "\<forall>r \<in> set rs. body_inside img r"
  shows "\<exists>r d'. atarix_discovery_parse (Some img) n (Some d) = Some (r, Some d') \<and>
    put_records (map (record_at img) (butlast rs)) d = (r, d') \<and> db_ok d' \<and>
    (distinct (db_handles d) \<longrightarrow> distinct (db_handles d')) \<and>
    (r = ATARIX_DISCOVERY_OK \<longrightarrow> extends_by d (map (record_at img) (butlast rs)) d')"
proof -
  from parse_refines [OF assms(1,2,4,5,3)] obtain r d' where
    p: "put_records (map (record_at img) (butlast rs)) d = (r, d')"
    "atarix_discovery_parse (Some img) n (Some d) = Some (r, Some d')" by blast
  then show ?thesis
    using put_records_keeps [OF assms(2), of "map (record_at img) (butlast rs)"]
      put_records_extends [OF assms(2), of "map (record_at img) (butlast rs)" d'] by auto
qed

text \<open>A 72-byte image: the header and the records of a valid one-resource image.\<close>

definition one_resource_image :: bytes where
  "one_resource_image =
     [0x41, 0x54, 0x44, 0x58, 0x01, 0x00, 0x00, 0x00, 0x48, 0x00, 0x00, 0x00,
      0x02, 0x00, 0x00, 0x00, 0x03, 0x00, 0x00, 0x00, 0x00, 0x00, 0x00, 0x00,
      0x44, 0x08, 0xC9, 0xE6, 0xA3, 0xF3, 0x80, 0x7F, 0x01, 0x00, 0x01, 0x00,
      0x20, 0x00, 0x00, 0x00, 0x00, 0x20, 0x01, 0x00, 0x00, 0x00, 0x00, 0x00,
      0x01, 0x00, 0x00, 0x00, 0x00, 0x20, 0x03, 0x00, 0x03, 0x00, 0x00, 0x00,
      0x01, 0x00, 0x00, 0x00, 0xFF, 0xFF, 0x01, 0x00, 0x08, 0x00, 0x00, 0x00]"

lemma length_one_resource_image [simp]: "length one_resource_image = 72"
  by (simp add: one_resource_image_def)

lemma one_resource_chain: "record_chain one_resource_image 72 32 [32, 64]"
  by (rule chain_more, simp_all add: record_type_at_def record_length_at_def one_resource_image_def
      le16_val_def le32_val_def)
     (rule chain_end, simp_all add: record_type_at_def record_length_at_def one_resource_image_def
      le16_val_def le32_val_def)

lemma one_resource_header:
  "header32 one_resource_image ''magic'' = ATARIX_DISCOVERY_MAGIC_ATDX"
  "header16 one_resource_image ''version_major'' = 1"
  "header32 one_resource_image ''total_length'' = 72"
  "header32 one_resource_image ''record_count'' = 2"
  "header32 one_resource_image ''header_crc32'' = 0xE6C90844"
  "header32 one_resource_image ''image_crc32'' = 0x7F80F3A3"
  by (simp_all add: header32_def header16_def one_resource_image_def le32_val_def le16_val_def)

lemma one_resource_checksums:
  "header_checksum one_resource_image = 0xE6C90844"
  "image_checksum one_resource_image 72 = 0x7F80F3A3"
  by (simp_all add: header_checksum_def image_checksum_def crc_of_def mailbox_crc_bit_def funpow_8
      one_resource_image_def overwrite_def replicate_zeros)

lemma one_resource_accepted: "image_accepted one_resource_image 72"
  using one_resource_chain
  by (auto simp: image_accepted_def one_resource_header one_resource_checksums
      intro!: exI [of _ "[32, 64]"])

lemma one_resource_records:
  "map (record_at one_resource_image) (butlast [32, 64]) =
    [Resource_Record \<lparr>re_handle = 0x0003200000000001, re_resource_type = 0x2000,
       re_resource_version = 1, re_resource_flags = 0, re_provider_id = 3, re_instance_id = 1\<rparr>]"
  "record_at one_resource_image 64 = Skipped_Record"
  by (simp_all add: record_at_def resource_at_def record_type_at_def u16_at_def u32_at_def u64_at_def
      one_resource_image_def le16_val_def le32_val_def le64_val_def Let_def)

lemma one_resource_put:
  "\<exists>d'. put_records (map (record_at one_resource_image) (butlast [32, 64])) small_db
      = (ATARIX_DISCOVERY_OK, d') \<and>
    map re_handle (resource_list d') = [0x0003200000000001] \<and> service_list d' = []"
  unfolding one_resource_records
  by (simp add: put_resource_def small_db_def db_handles_def table_def replicate_zeros)

theorem parse_refinement_witness:
  "\<exists>d'. atarix_discovery_parse (Some one_resource_image) 72 (Some small_db)
      = Some (ATARIX_DISCOVERY_OK, Some d') \<and>
    map re_handle (resource_list d') = [0x0003200000000001] \<and> service_list d' = []"
proof -
  have "\<forall>r \<in> set [32, 64]. body_inside one_resource_image r"
    by (simp add: body_inside_def one_resource_records)
  moreover have "record_chain one_resource_image (image_length one_resource_image) 32 [32, 64]"
    using one_resource_chain by (simp add: one_resource_header)
  ultimately show ?thesis
    using parse_refinement [OF _ small_db_ok(1) one_resource_accepted, of "[32, 64]"] one_resource_put
    by auto
qed

text \<open>
  C31. A refused image changes nothing: whenever validation does not answer OK, the parser returns
  the same error and leaves the database exactly as it was.
\<close>

theorem parse_refused_unchanged:
  assumes "n \<le> length img" "atarix_discovery_validate (Some img) n \<noteq> Some ATARIX_DISCOVERY_OK"
  shows "\<exists>r. r \<noteq> ATARIX_DISCOVERY_OK \<and> atarix_discovery_validate (Some img) n = Some r \<and>
    atarix_discovery_parse (Some img) n (Some d) = Some (r, Some d)"
  using validate_Some [OF assms(1)] assms(2) parse_refused [OF assms(1), of d] by auto

theorem parse_refused_unchanged_witness:
  "\<exists>r. r \<noteq> ATARIX_DISCOVERY_OK \<and>
    atarix_discovery_parse (Some (replicate 64 0)) 64 (Some small_db) = Some (r, Some small_db)"
proof -
  have "header32 (replicate 64 0) ''magic'' = 0"
    by (simp add: header32_def le32_val_def)
  then have "\<not> image_accepted (replicate 64 0) 64" by (simp add: image_accepted_def)
  then have "atarix_discovery_validate (Some (replicate 64 0)) 64 \<noteq> Some ATARIX_DISCOVERY_OK"
    using validate_Some [of 64 "replicate 64 0"] by auto
  with parse_refused_unchanged [of 64 "replicate 64 0" small_db] show ?thesis by auto
qed

text \<open>
  C32. The validator does not protect the parser. There is an image of 48 bytes, with correct
  checksums, that the validator accepts and on which the parser reads outside the image, with any
  database: a RESOURCE record of eight bytes is long enough for the validator, and the parser reads
  the 32-byte struct.
\<close>

theorem parse_reads_outside_accepted_image:
  "atarix_discovery_validate (Some short_record_image) 48 = Some ATARIX_DISCOVERY_OK \<and>
   length short_record_image = 48 \<and>
   atarix_discovery_parse (Some short_record_image) 48 (Some d) = None"
proof -
  have valid: "atarix_discovery_validate (Some short_record_image) 48 = Some ATARIX_DISCOVERY_OK"
    using validate_Some [of 48 short_record_image] short_record_accepted by auto
  have type: "field16 atarix_discovery_record_header_v1 short_record_image 32 ''type''
      = Some ATARIX_DISCOVERY_RECORD_RESOURCE"
    by (simp add: field_defs read_le_in short_record_image_def le16_val_def)
  have "read_le64 short_record_image 48 = None" by (simp add: read_le_None)
  then have "add_resource d short_record_image 32 = None"
    by (simp add: add_resource_def field_defs)
  then have "parse_loop short_record_image 48 d (Some 32) = None"
    by (subst parse_loop.simps) (simp add: type add_record_def)
  with valid show ?thesis
    by (simp add: atarix_discovery_parse_def atarix_discovery_first_record_def)
qed

end
