(* ===== verification/Registries.thy ===== *)
theory Registries
  imports Atarix_Prelude
begin

text \<open>
  The identifier registries: \<open>include/atarix/resource_types.h\<close>, \<open>include/atarix/service_ids.h\<close>
  and \<open>include/atarix/operations.h\<close>. A registry is the list of its macros with their values, in
  the order of the header. The experimental range is a predicate on \<open>unsigned int\<close> in each header.

  The locale \<open>id_registry\<close> says what the users of a registry rely on: no identifier is assigned
  twice, identifier 0 is the reserved INVALID entry, and no assigned identifier is experimental.
\<close>

type_synonym registry = "(string \<times> u32) list"

definition atarix_resource_types :: registry where
  "atarix_resource_types =
     [(''ATARIX_RESOURCE_INVALID'', 0x0000), (''ATARIX_RESOURCE_MAILBOX'', 0x0001),
      (''ATARIX_RESOURCE_DMA'', 0x0002), (''ATARIX_RESOURCE_TIMER'', 0x0003),
      (''ATARIX_RESOURCE_INTERRUPT_CONTROLLER'', 0x0004), (''ATARIX_RESOURCE_GPIO'', 0x0005),
      (''ATARIX_RESOURCE_UART'', 0x0006), (''ATARIX_RESOURCE_FABRIC_MEMORY'', 0x0007),
      (''ATARIX_RESOURCE_SHARED_MEMORY'', 0x0008), (''ATARIX_RESOURCE_EVENT_QUEUE'', 0x0009),
      (''ATARIX_RESOURCE_ENUMERATION_FABRIC'', 0x000A),
      (''ATARIX_RESOURCE_MANAGEMENT_FABRIC'', 0x000B),
      (''ATARIX_RESOURCE_TRANSPORT_FABRIC'', 0x000C), (''ATARIX_RESOURCE_SUPERVISOR'', 0x0010),
      (''ATARIX_RESOURCE_HEALTH_MONITOR'', 0x0011),
      (''ATARIX_RESOURCE_PROVISIONING_ENGINE'', 0x0012),
      (''ATARIX_RESOURCE_VALIDATION_ENGINE'', 0x0013), (''ATARIX_RESOURCE_LOGIC_ANALYZER'', 0x1000),
      (''ATARIX_RESOURCE_OSCILLOSCOPE'', 0x1001), (''ATARIX_RESOURCE_DSP'', 0x1002),
      (''ATARIX_RESOURCE_PATTERN_GENERATOR'', 0x1003),
      (''ATARIX_RESOURCE_PROTOCOL_DECODER'', 0x1004), (''ATARIX_RESOURCE_COUNTER_BANK'', 0x1005),
      (''ATARIX_RESOURCE_TRIGGER_ROUTER'', 0x1006), (''ATARIX_RESOURCE_TRACE_BUFFER'', 0x1007),
      (''ATARIX_RESOURCE_CPU'', 0x2000), (''ATARIX_RESOURCE_CPU_DIAGNOSTICS'', 0x2001),
      (''ATARIX_RESOURCE_CPU_TRACE'', 0x2002), (''ATARIX_RESOURCE_CPU_HEALTH'', 0x2003),
      (''ATARIX_RESOURCE_CPU_BOOT_STATUS'', 0x2004), (''ATARIX_RESOURCE_NETWORK_INTERFACE'', 0x3000),
      (''ATARIX_RESOURCE_PACKET_ENGINE'', 0x3001), (''ATARIX_RESOURCE_NETWORK_BOOT'', 0x3002),
      (''ATARIX_RESOURCE_BLOCK_STORAGE'', 0x4000), (''ATARIX_RESOURCE_FILE_STORAGE'', 0x4001),
      (''ATARIX_RESOURCE_ROM_STORAGE'', 0x4002), (''ATARIX_RESOURCE_CONFIGURATION_STORAGE'', 0x4003),
      (''ATARIX_RESOURCE_GPU'', 0x6000), (''ATARIX_RESOURCE_AI_ACCELERATOR'', 0x6001),
      (''ATARIX_RESOURCE_VECTOR_ENGINE'', 0x6002), (''ATARIX_RESOURCE_FPGA_COMPUTE'', 0x6003),
      (''ATARIX_RESOURCE_CRYPTO_ENGINE'', 0x6004)]"

definition atarix_service_ids :: registry where
  "atarix_service_ids =
     [(''ATARIX_SERVICE_INVALID'', 0x0000), (''ATARIX_SERVICE_DISCOVERY'', 0x0001),
      (''ATARIX_SERVICE_DIRECTORY'', 0x0002), (''ATARIX_SERVICE_PROVISIONING'', 0x0003),
      (''ATARIX_SERVICE_VALIDATION'', 0x0004), (''ATARIX_SERVICE_MONITOR'', 0x0005),
      (''ATARIX_SERVICE_HEALTH'', 0x0006), (''ATARIX_SERVICE_FAULT_LOG'', 0x0007),
      (''ATARIX_SERVICE_EVENT_LOG'', 0x0008), (''ATARIX_SERVICE_TIMEBASE'', 0x0009),
      (''ATARIX_SERVICE_MAILBOX'', 0x000A), (''ATARIX_SERVICE_DMA'', 0x000B),
      (''ATARIX_SERVICE_INTERRUPT_ROUTING'', 0x000C), (''ATARIX_SERVICE_RECOVERY'', 0x000D),
      (''ATARIX_SERVICE_INSTRUMENTATION'', 0x1000), (''ATARIX_SERVICE_CAPTURE'', 0x1001),
      (''ATARIX_SERVICE_ANALYSIS'', 0x1002), (''ATARIX_SERVICE_TRACE'', 0x1003),
      (''ATARIX_SERVICE_LOGIC_ANALYZER'', 0x1004), (''ATARIX_SERVICE_OSCILLOSCOPE'', 0x1005),
      (''ATARIX_SERVICE_PATTERN_GENERATOR'', 0x1006), (''ATARIX_SERVICE_PROTOCOL_DECODER'', 0x1007),
      (''ATARIX_SERVICE_COUNTERS'', 0x1008), (''ATARIX_SERVICE_TRIGGER_ROUTER'', 0x1009),
      (''ATARIX_SERVICE_CPU_DIAGNOSTICS'', 0x2000), (''ATARIX_SERVICE_CPU_HEALTH'', 0x2001),
      (''ATARIX_SERVICE_CPU_TRACE'', 0x2002), (''ATARIX_SERVICE_CPU_BOOT_STATUS'', 0x2003),
      (''ATARIX_SERVICE_CPU_VALIDATION'', 0x2004), (''ATARIX_SERVICE_NETWORK_INTERFACE'', 0x3000),
      (''ATARIX_SERVICE_NETWORK_BOOT'', 0x3001), (''ATARIX_SERVICE_PACKET_TRANSPORT'', 0x3002),
      (''ATARIX_SERVICE_TIME_SYNC'', 0x3003), (''ATARIX_SERVICE_BLOCK_STORAGE'', 0x4000),
      (''ATARIX_SERVICE_FILE_STORAGE'', 0x4001), (''ATARIX_SERVICE_ROM_STORAGE'', 0x4002),
      (''ATARIX_SERVICE_CONFIGURATION_STORAGE'', 0x4003), (''ATARIX_SERVICE_GPU_COMPUTE'', 0x6000),
      (''ATARIX_SERVICE_AI_ACCELERATION'', 0x6001), (''ATARIX_SERVICE_VECTOR_COMPUTE'', 0x6002),
      (''ATARIX_SERVICE_FPGA_COMPUTE'', 0x6003), (''ATARIX_SERVICE_CRYPTO_ACCELERATION'', 0x6004)]"

definition atarix_operations :: registry where
  "atarix_operations =
     [(''ATARIX_OPERATION_INVALID'', 0x00000000), (''ATARIX_OPERATION_READ'', 0x00000001),
      (''ATARIX_OPERATION_WRITE'', 0x00000002), (''ATARIX_OPERATION_CONTROL'', 0x00000003),
      (''ATARIX_OPERATION_RESET'', 0x00000004), (''ATARIX_OPERATION_CAPTURE'', 0x00000005),
      (''ATARIX_OPERATION_STIMULATE'', 0x00000006), (''ATARIX_OPERATION_BOOT'', 0x00000007),
      (''ATARIX_OPERATION_RECOVER'', 0x00000008), (''ATARIX_OPERATION_PROVISION'', 0x00000009),
      (''ATARIX_OPERATION_ENUMERATE'', 0x0000000A), (''ATARIX_OPERATION_VALIDATE'', 0x0000000B),
      (''ATARIX_OPERATION_MONITOR'', 0x0000000C), (''ATARIX_OPERATION_BIND'', 0x0000000D),
      (''ATARIX_OPERATION_DELEGATE'', 0x0000000E), (''ATARIX_OPERATION_REVOKE'', 0x0000000F),
      (''ATARIX_OPERATION_TRACE_START'', 0x00001000), (''ATARIX_OPERATION_TRACE_STOP'', 0x00001001),
      (''ATARIX_OPERATION_TRACE_EXPORT'', 0x00001002),
      (''ATARIX_OPERATION_TRIGGER_ARM'', 0x00001003),
      (''ATARIX_OPERATION_TRIGGER_FIRE'', 0x00001004),
      (''ATARIX_OPERATION_PATTERN_LOAD'', 0x00001005),
      (''ATARIX_OPERATION_PATTERN_START'', 0x00001006),
      (''ATARIX_OPERATION_PATTERN_STOP'', 0x00001007),
      (''ATARIX_OPERATION_CPU_READ_HEALTH'', 0x00002000),
      (''ATARIX_OPERATION_CPU_READ_BOOT_STATUS'', 0x00002001),
      (''ATARIX_OPERATION_CPU_HOLD_RESET'', 0x00002002),
      (''ATARIX_OPERATION_CPU_RELEASE_RESET'', 0x00002003),
      (''ATARIX_OPERATION_CPU_CAPTURE_TRACE'', 0x00002004),
      (''ATARIX_OPERATION_CPU_VALIDATE'', 0x00002005)]"

text \<open>The identifiers the image tool uses, at the width of a record's field.\<close>

abbreviation ATARIX_RESOURCE_CPU :: u16 where "ATARIX_RESOURCE_CPU \<equiv> 0x2000"
abbreviation ATARIX_RESOURCE_CPU_HEALTH :: u16 where "ATARIX_RESOURCE_CPU_HEALTH \<equiv> 0x2003"
abbreviation ATARIX_RESOURCE_SUPERVISOR :: u16 where "ATARIX_RESOURCE_SUPERVISOR \<equiv> 0x0010"
abbreviation ATARIX_RESOURCE_LOGIC_ANALYZER :: u16 where "ATARIX_RESOURCE_LOGIC_ANALYZER \<equiv> 0x1000"
abbreviation ATARIX_SERVICE_CPU_DIAGNOSTICS :: u16 where "ATARIX_SERVICE_CPU_DIAGNOSTICS \<equiv> 0x2000"
abbreviation ATARIX_SERVICE_CPU_HEALTH :: u16 where "ATARIX_SERVICE_CPU_HEALTH \<equiv> 0x2001"
abbreviation ATARIX_SERVICE_HEALTH :: u16 where "ATARIX_SERVICE_HEALTH \<equiv> 0x0006"
abbreviation ATARIX_SERVICE_INSTRUMENTATION :: u16 where "ATARIX_SERVICE_INSTRUMENTATION \<equiv> 0x1000"

text \<open>The experimental ranges.\<close>

abbreviation ATARIX_RESOURCE_EXPERIMENTAL_BEGIN :: u32 where
  "ATARIX_RESOURCE_EXPERIMENTAL_BEGIN \<equiv> 0x8000"
abbreviation ATARIX_RESOURCE_EXPERIMENTAL_END :: u32 where "ATARIX_RESOURCE_EXPERIMENTAL_END \<equiv> 0xFFFF"
abbreviation ATARIX_SERVICE_EXPERIMENTAL_BEGIN :: u32 where
  "ATARIX_SERVICE_EXPERIMENTAL_BEGIN \<equiv> 0x8000"
abbreviation ATARIX_SERVICE_EXPERIMENTAL_END :: u32 where "ATARIX_SERVICE_EXPERIMENTAL_END \<equiv> 0xFFFF"
abbreviation ATARIX_OPERATION_EXPERIMENTAL_BEGIN :: u32 where
  "ATARIX_OPERATION_EXPERIMENTAL_BEGIN \<equiv> 0x80000000"
abbreviation ATARIX_OPERATION_EXPERIMENTAL_END :: u32 where
  "ATARIX_OPERATION_EXPERIMENTAL_END \<equiv> 0xFFFFFFFF"

definition atarix_resource_is_experimental :: "u32 \<Rightarrow> bool" where
  "atarix_resource_is_experimental resource_type \<longleftrightarrow> 
     resource_type \<ge> ATARIX_RESOURCE_EXPERIMENTAL_BEGIN \<and>
     resource_type \<le> ATARIX_RESOURCE_EXPERIMENTAL_END"

definition atarix_service_is_experimental :: "u32 \<Rightarrow> bool" where
  "atarix_service_is_experimental service_id \<longleftrightarrow> 
     service_id \<ge> ATARIX_SERVICE_EXPERIMENTAL_BEGIN \<and> service_id \<le> ATARIX_SERVICE_EXPERIMENTAL_END"

definition atarix_operation_is_experimental :: "u32 \<Rightarrow> bool" where
  "atarix_operation_is_experimental operation_id \<longleftrightarrow> operation_id \<ge> ATARIX_OPERATION_EXPERIMENTAL_BEGIN"

section \<open>The interface of a registry\<close>

locale id_registry =
  fixes entries :: registry
    and experimental :: "u32 \<Rightarrow> bool"
    and invalid :: string
  assumes ids_distinct: "distinct (map snd entries)"
    and first_entry: "\<exists>rest. entries = (invalid, 0) # rest"
    and not_experimental: "\<forall>(name, i) \<in> set entries. \<not> experimental i"
begin

lemma name_of_id: "(n, i) \<in> set entries \<Longrightarrow> (m, i) \<in> set entries \<Longrightarrow> n = m"
  using ids_distinct by (fastforce simp: distinct_map inj_on_def)

lemma invalid_assigned: "(invalid, 0) \<in> set entries"
  using first_entry by (metis list.set_intros(1))

lemma only_invalid_is_0: "(n, 0) \<in> set entries \<Longrightarrow> n = invalid"
  using first_entry name_of_id by fastforce

end

lemma resource_registry:
  "distinct (map snd atarix_resource_types)"
  "\<forall>(name, i) \<in> set atarix_resource_types. \<not> atarix_resource_is_experimental i"
  by (simp_all add: atarix_resource_types_def atarix_resource_is_experimental_def word_le_nat_alt)

lemma service_registry:
  "distinct (map snd atarix_service_ids)"
  "\<forall>(name, i) \<in> set atarix_service_ids. \<not> atarix_service_is_experimental i"
  by (simp_all add: atarix_service_ids_def atarix_service_is_experimental_def word_le_nat_alt)

lemma operation_registry:
  "distinct (map snd atarix_operations)"
  "\<forall>(name, i) \<in> set atarix_operations. \<not> atarix_operation_is_experimental i"
  by (simp_all add: atarix_operations_def atarix_operation_is_experimental_def word_le_nat_alt)

interpretation resource_ids: id_registry atarix_resource_types atarix_resource_is_experimental
    "''ATARIX_RESOURCE_INVALID''"
  by unfold_locales (rule resource_registry | simp add: atarix_resource_types_def)+

interpretation service_ids: id_registry atarix_service_ids atarix_service_is_experimental
    "''ATARIX_SERVICE_INVALID''"
  by unfold_locales (rule service_registry | simp add: atarix_service_ids_def)+

interpretation operation_ids: id_registry atarix_operations atarix_operation_is_experimental
    "''ATARIX_OPERATION_INVALID''"
  by unfold_locales (rule operation_registry | simp add: atarix_operations_def)+

section \<open>Properties\<close>

text \<open>
  C39. The identifier registries are sound: in each of the three registries no two names share an
  identifier, 0 is the reserved INVALID entry, no assigned identifier lies in the experimental range,
  and that range is 0x8000 to 0xFFFF for resources and services and everything from 0x80000000 on for
  operations.
\<close>

theorem registries_sound:
  "distinct (map snd atarix_resource_types) \<and> distinct (map snd atarix_service_ids) \<and>
   distinct (map snd atarix_operations) \<and>
   ((n, 0) \<in> set atarix_resource_types \<longleftrightarrow> n = ''ATARIX_RESOURCE_INVALID'') \<and>
   ((n, 0) \<in> set atarix_service_ids \<longleftrightarrow> n = ''ATARIX_SERVICE_INVALID'') \<and>
   ((n, 0) \<in> set atarix_operations \<longleftrightarrow> n = ''ATARIX_OPERATION_INVALID'') \<and>
   list_all (\<lambda>(n, i). \<not> atarix_resource_is_experimental i) atarix_resource_types \<and>
   list_all (\<lambda>(n, i). \<not> atarix_service_is_experimental i) atarix_service_ids \<and>
   list_all (\<lambda>(n, i). \<not> atarix_operation_is_experimental i) atarix_operations \<and>
   (atarix_resource_is_experimental i \<longleftrightarrow> 0x8000 \<le> unat i \<and> unat i < 0x10000) \<and>
   (atarix_service_is_experimental i \<longleftrightarrow> 0x8000 \<le> unat i \<and> unat i < 0x10000) \<and>
   (atarix_operation_is_experimental i \<longleftrightarrow> bit i 31)"
proof -
  have range: "0x8000 \<le> i \<and> i \<le> 0xFFFF \<longleftrightarrow> 0x8000 \<le> unat i \<and> unat i < 0x10000"
    by (auto simp: word_le_nat_alt)
  have "0x80000000 \<le> i \<longleftrightarrow> bit i 31"
  proof -
    have "unat i < 2 ^ LENGTH(32)" by (rule unsigned_less)
    then have div: "unat i div 2 ^ 31 = (if 2 ^ 31 \<le> unat i then 1 else 0)"
      by (simp add: div_nat_eqI)
    have "bit i 31 \<longleftrightarrow> bit (unat i) 31" by (simp add: bit_unsigned_iff)
    also have "\<dots> \<longleftrightarrow> 2 ^ 31 \<le> unat i" unfolding bit_iff_odd div by simp
    finally show ?thesis by (simp add: word_le_nat_alt)
  qed
  moreover have "(n, 0) \<in> set atarix_resource_types \<longleftrightarrow> n = ''ATARIX_RESOURCE_INVALID''"
    using resource_ids.invalid_assigned resource_ids.only_invalid_is_0 by metis
  moreover have "(n, 0) \<in> set atarix_service_ids \<longleftrightarrow> n = ''ATARIX_SERVICE_INVALID''"
    using service_ids.invalid_assigned service_ids.only_invalid_is_0 by metis
  moreover have "(n, 0) \<in> set atarix_operations \<longleftrightarrow> n = ''ATARIX_OPERATION_INVALID''"
    using operation_ids.invalid_assigned operation_ids.only_invalid_is_0 by metis
  moreover have "list_all (\<lambda>(n, i). \<not> atarix_resource_is_experimental i) atarix_resource_types"
    "list_all (\<lambda>(n, i). \<not> atarix_service_is_experimental i) atarix_service_ids"
    "list_all (\<lambda>(n, i). \<not> atarix_operation_is_experimental i) atarix_operations"
    unfolding list_all_iff by (rule resource_registry service_registry operation_registry)+
  ultimately show ?thesis
    using resource_registry(1) service_registry(1) operation_registry(1) range
    by (simp only: atarix_resource_is_experimental_def [of i] atarix_service_is_experimental_def [of i]
        atarix_operation_is_experimental_def [of i] simp_thms)
qed

end
