(* ===== verification/Mkdiscovery.thy ===== *)
theory Mkdiscovery
  imports Discovery_Parser Registries
begin

text \<open>
  The image tool, \<open>tools/mkdiscovery/mkdiscovery.c\<close>: it builds the discovery image of a named
  profile in a buffer and writes it to a file. The struct a C function builds on its stack is a
  byte string of the struct's size, written through the struct's layout. The file system is a
  parameter of \<open>mkdiscovery_main\<close>: whether \<open>fopen\<close> succeeds and how many bytes \<open>fwrite\<close> takes.

  \<open>discovery_image\<close> is the byte string a profile stands for. The code builds exactly it
  (\<open>build_profile_image\<close>), the validator accepts every such image (\<open>discovery_image_accepted\<close>) and
  its record chain decodes to the profile's entries (\<open>discovery_image_chain\<close>). Whether the parser takes
  them all depends on their handles: \<open>profile_put\<close> tells the profiles with distinct handles from the two
  in which a resource and a service collide.
\<close>

section \<open>Operations\<close>

abbreviation MKDISCOVERY_MAX_IMAGE :: nat where
  "MKDISCOVERY_MAX_IMAGE \<equiv> 4096"

definition patch_crc32 :: "bytes \<Rightarrow> nat \<Rightarrow> bytes option" where
  "patch_crc32 img img_len = do {
     img \<leftarrow> set_field32 atarix_discovery_header_v1 img 0 ''header_crc32'' 0;
     img \<leftarrow> set_field32 atarix_discovery_header_v1 img 0 ''image_crc32'' 0;
     header_crc \<leftarrow> crc32_iso_hdlc img ATARIX_DISCOVERY_HEADER_SIZE_V1;
     img \<leftarrow> set_field32 atarix_discovery_header_v1 img 0 ''header_crc32'' header_crc;
     image_crc \<leftarrow> crc32_iso_hdlc img img_len;
     set_field32 atarix_discovery_header_v1 img 0 ''image_crc32'' image_crc
   }"

definition append_bytes ::
  "bytes \<Rightarrow> nat \<Rightarrow> nat \<Rightarrow> bytes \<Rightarrow> nat \<Rightarrow> (int \<times> bytes \<times> nat) option" where
  "append_bytes img image_capacity offset src len =
     (if len > size_sub image_capacity offset then Some (1, img, offset)
      else do {
        img \<leftarrow> memcpy_at img offset src len;
        Some (0, img, offset + len)
      })"

definition append_end :: "bytes \<Rightarrow> nat \<Rightarrow> nat \<Rightarrow> (int \<times> bytes \<times> nat) option" where
  "append_end img image_capacity offset = do {
     let size = size_of atarix_discovery_record_header_v1;
     rec \<leftarrow> memset_at (replicate size 0) 0 0 size;
     rec \<leftarrow> set_field16 atarix_discovery_record_header_v1 rec 0 ''type'' ATARIX_DISCOVERY_RECORD_END;
     rec \<leftarrow> set_field16 atarix_discovery_record_header_v1 rec 0 ''version'' 1;
     rec \<leftarrow> set_field32 atarix_discovery_record_header_v1 rec 0 ''length'' (of_nat size);
     append_bytes img image_capacity offset rec size
   }"

definition append_resource ::
  "bytes \<Rightarrow> nat \<Rightarrow> nat \<Rightarrow> u16 \<Rightarrow> u32 \<Rightarrow> u32 \<Rightarrow> (int \<times> bytes \<times> nat) option" where
  "append_resource img image_capacity offset type provider_id instance_id = do {
     let L = atarix_discovery_resource_record_v1;
     let size = size_of L;
     rec \<leftarrow> memset_at (replicate size 0) 0 0 size;
     rec \<leftarrow> set_field16 atarix_discovery_record_header_v1 rec 0 ''type''
              ATARIX_DISCOVERY_RECORD_RESOURCE;
     rec \<leftarrow> set_field16 atarix_discovery_record_header_v1 rec 0 ''version'' 1;
     rec \<leftarrow> set_field32 atarix_discovery_record_header_v1 rec 0 ''length'' (of_nat size);
     rec \<leftarrow> set_field16 L rec 0 ''resource_type_id'' type;
     rec \<leftarrow> set_field16 L rec 0 ''resource_version'' 1;
     rec \<leftarrow> set_field64 L rec 0 ''resource_handle''
              (atarix_discovery_make_handle (ucast provider_id) type instance_id);
     rec \<leftarrow> set_field32 L rec 0 ''provider_id'' provider_id;
     rec \<leftarrow> set_field32 L rec 0 ''instance_id'' instance_id;
     append_bytes img image_capacity offset rec size
   }"

definition append_service ::
  "bytes \<Rightarrow> nat \<Rightarrow> nat \<Rightarrow> u16 \<Rightarrow> u32 \<Rightarrow> u32 \<Rightarrow> (int \<times> bytes \<times> nat) option" where
  "append_service img image_capacity offset service_id provider_id instance_id = do {
     let L = atarix_discovery_service_record_v1;
     let size = size_of L;
     rec \<leftarrow> memset_at (replicate size 0) 0 0 size;
     rec \<leftarrow> set_field16 atarix_discovery_record_header_v1 rec 0 ''type''
              ATARIX_DISCOVERY_RECORD_SERVICE;
     rec \<leftarrow> set_field16 atarix_discovery_record_header_v1 rec 0 ''version'' 1;
     rec \<leftarrow> set_field32 atarix_discovery_record_header_v1 rec 0 ''length'' (of_nat size);
     rec \<leftarrow> set_field16 L rec 0 ''service_id'' service_id;
     rec \<leftarrow> set_field16 L rec 0 ''service_version'' 1;
     rec \<leftarrow> set_field64 L rec 0 ''service_handle''
              (atarix_discovery_make_handle (ucast provider_id) service_id instance_id);
     rec \<leftarrow> set_field32 L rec 0 ''provider_id'' provider_id;
     rec \<leftarrow> set_field32 L rec 0 ''instance_id'' instance_id;
     append_bytes img image_capacity offset rec size
   }"

text \<open>
  The branch of a profile: \<open>append_status\<close>, the image, \<open>offset\<close> and \<open>record_count\<close> after the
  appends, \<open>None\<close> inside when the profile is unknown.
\<close>

definition profile_records ::
  "string \<Rightarrow> bytes \<Rightarrow> nat \<Rightarrow> nat \<Rightarrow> (int \<times> bytes \<times> nat \<times> u32) option option" where
  "profile_records profile img image_capacity offset =
     (let provider_id = 3; append_status = 0; record_count = 0 in
      if profile = ''minimal'' then Some (Some (append_status, img, offset, record_count))
      else if profile = ''cpu-card'' then do {
        (s1, img, offset) \<leftarrow>
          append_resource img image_capacity offset ATARIX_RESOURCE_CPU provider_id 1;
        (s2, img, offset) \<leftarrow>
          append_resource img image_capacity offset ATARIX_RESOURCE_CPU_HEALTH provider_id 1;
        (s3, img, offset) \<leftarrow>
          append_service img image_capacity offset ATARIX_SERVICE_CPU_DIAGNOSTICS provider_id 1;
        (s4, img, offset) \<leftarrow>
          append_service img image_capacity offset ATARIX_SERVICE_CPU_HEALTH provider_id 1;
        Some (Some (append_status OR s1 OR s2 OR s3 OR s4, img, offset,
                    record_count + 1 + 1 + 1 + 1))
      }
      else if profile = ''supervisor'' then do {
        let provider_id = 1;
        img \<leftarrow> set_field32 atarix_discovery_header_v1 img 0 ''provider_id'' provider_id;
        (s1, img, offset) \<leftarrow>
          append_resource img image_capacity offset ATARIX_RESOURCE_SUPERVISOR provider_id 1;
        (s2, img, offset) \<leftarrow>
          append_service img image_capacity offset ATARIX_SERVICE_HEALTH provider_id 1;
        Some (Some (append_status OR s1 OR s2, img, offset, record_count + 1 + 1))
      }
      else if profile = ''instrumentation'' then do {
        let provider_id = 5;
        img \<leftarrow> set_field32 atarix_discovery_header_v1 img 0 ''provider_id'' provider_id;
        (s1, img, offset) \<leftarrow>
          append_resource img image_capacity offset ATARIX_RESOURCE_LOGIC_ANALYZER provider_id 1;
        (s2, img, offset) \<leftarrow>
          append_service img image_capacity offset ATARIX_SERVICE_INSTRUMENTATION provider_id 1;
        Some (Some (append_status OR s1 OR s2, img, offset, record_count + 1 + 1))
      }
      else Some None)"

definition build_profile ::
  "string \<Rightarrow> bytes \<Rightarrow> nat \<Rightarrow> nat \<Rightarrow> (int \<times> bytes \<times> nat) option" where
  "build_profile profile img image_capacity img_len = do {
     let offset = ATARIX_DISCOVERY_HEADER_SIZE_V1;
     img \<leftarrow> memset_at img 0 0 image_capacity;
     img \<leftarrow> set_field32 atarix_discovery_header_v1 img 0 ''magic'' ATARIX_DISCOVERY_MAGIC_ATDX;
     img \<leftarrow> set_field16 atarix_discovery_header_v1 img 0 ''version_major''
              ATARIX_DISCOVERY_VERSION_MAJOR_V1;
     img \<leftarrow> set_field16 atarix_discovery_header_v1 img 0 ''version_minor''
              ATARIX_DISCOVERY_VERSION_MINOR_V0;
     img \<leftarrow> set_field32 atarix_discovery_header_v1 img 0 ''provider_id'' 3;
     branch \<leftarrow> profile_records profile img image_capacity offset;
     case branch of
       None \<Rightarrow> Some (1, img, img_len)
     | Some (append_status, img, offset, record_count) \<Rightarrow> do {
         (s, img, offset) \<leftarrow> append_end img image_capacity offset;
         if append_status OR s \<noteq> 0 then Some (1, img, img_len)
         else do {
           img \<leftarrow> set_field32 atarix_discovery_header_v1 img 0 ''total_length'' (of_nat offset);
           img \<leftarrow> set_field32 atarix_discovery_header_v1 img 0 ''record_count'' (record_count + 1);
           img \<leftarrow> patch_crc32 img offset;
           Some (0, img, offset)
         }
       }
   }"

text \<open>The option loop of \<open>main\<close>: \<open>profile\<close> and \<open>output\<close> after the arguments.\<close>

fun parse_args :: "string list \<Rightarrow> string option \<Rightarrow> string option \<Rightarrow> string option \<times> string option" where
  "parse_args (a # b # rest) profile output =
     (if a = ''--profile'' then parse_args rest (Some b) output
      else if a = ''--output'' then parse_args rest profile (Some b)
      else parse_args (b # rest) profile output)"
| "parse_args [a] profile output = (profile, output)"
| "parse_args [] profile output = (profile, output)"

text \<open>The exit code of the program, and the file it wrote with its bytes.\<close>

definition mkdiscovery_main ::
  "(string \<Rightarrow> bool) \<Rightarrow> (nat \<Rightarrow> nat) \<Rightarrow> bytes \<Rightarrow> string list
    \<Rightarrow> (int \<times> (string \<times> bytes) option) option" where
  "mkdiscovery_main fopen_ok fwrite_count img args =
     (case parse_args args None None of
        (Some profile, Some output) \<Rightarrow> do {
          (status, img, img_len) \<leftarrow> build_profile profile img (length img) 0;
          if status \<noteq> 0 then Some (1, None)
          else if \<not> fopen_ok output then Some (1, None)
          else
            let written = fwrite_count img_len in
            Some (if written \<noteq> img_len then 1 else 0, Some (output, take written img))
        }
      | _ \<Rightarrow> Some (2, None))"

section \<open>The image of a profile\<close>

datatype profile_entry =
    Profile_Resource u16 u32
  | Profile_Service u16 u32

fun entry_bytes :: "u32 \<Rightarrow> profile_entry \<Rightarrow> bytes" where
  "entry_bytes prov (Profile_Resource t i) =
     le16_bytes ATARIX_DISCOVERY_RECORD_RESOURCE @ le16_bytes 1 @ le32_bytes 32 @ le16_bytes t @
     le16_bytes 1 @ le32_bytes 0 @ le64_bytes (atarix_discovery_make_handle (ucast prov) t i) @
     le32_bytes prov @ le32_bytes i"
| "entry_bytes prov (Profile_Service t i) =
     le16_bytes ATARIX_DISCOVERY_RECORD_SERVICE @ le16_bytes 1 @ le32_bytes 32 @ le16_bytes t @
     le16_bytes 1 @ le32_bytes 0 @ le64_bytes (atarix_discovery_make_handle (ucast prov) t i) @
     le32_bytes prov @ le32_bytes i"

fun entry_record :: "u32 \<Rightarrow> profile_entry \<Rightarrow> discovery_record" where
  "entry_record prov (Profile_Resource t i) = Resource_Record
     \<lparr>re_handle = atarix_discovery_make_handle (ucast prov) t i, re_resource_type = t,
      re_resource_version = 1, re_resource_flags = 0, re_provider_id = prov, re_instance_id = i\<rparr>"
| "entry_record prov (Profile_Service t i) = Service_Record
     \<lparr>se_handle = atarix_discovery_make_handle (ucast prov) t i, se_service_id = t,
      se_service_version = 1, se_service_flags = 0, se_provider_id = prov, se_instance_id = i\<rparr>"

definition end_bytes :: bytes where
  "end_bytes = le16_bytes ATARIX_DISCOVERY_RECORD_END @ le16_bytes 1 @ le32_bytes 8"

definition header_bytes :: "u32 \<Rightarrow> u32 \<Rightarrow> u32 \<Rightarrow> u32 \<Rightarrow> u32 \<Rightarrow> bytes" where
  "header_bytes tot count prov hcrc icrc =
     le32_bytes ATARIX_DISCOVERY_MAGIC_ATDX @ le16_bytes ATARIX_DISCOVERY_VERSION_MAJOR_V1 @
     le16_bytes ATARIX_DISCOVERY_VERSION_MINOR_V0 @ le32_bytes tot @ le32_bytes count @
     le32_bytes prov @ le32_bytes 0 @ le32_bytes hcrc @ le32_bytes icrc"

definition records_bytes :: "u32 \<Rightarrow> profile_entry list \<Rightarrow> bytes" where
  "records_bytes prov es = concat (map (entry_bytes prov) es) @ end_bytes"

definition discovery_image :: "u32 \<Rightarrow> profile_entry list \<Rightarrow> bytes" where
  "discovery_image prov es =
     (let tot = of_nat (40 + 32 * length es);
          count = of_nat (Suc (length es));
          body = records_bytes prov es;
          hcrc = crc_of mailbox_crc_bit (header_bytes tot count prov 0 0);
          icrc = crc_of mailbox_crc_bit (header_bytes tot count prov hcrc 0 @ body)
      in header_bytes tot count prov hcrc icrc @ body)"

definition profile_entries :: "string \<Rightarrow> (u32 \<times> profile_entry list) option" where
  "profile_entries profile =
     (if profile = ''minimal'' then Some (3, [])
      else if profile = ''cpu-card'' then Some (3,
        [Profile_Resource ATARIX_RESOURCE_CPU 1, Profile_Resource ATARIX_RESOURCE_CPU_HEALTH 1,
         Profile_Service ATARIX_SERVICE_CPU_DIAGNOSTICS 1, Profile_Service ATARIX_SERVICE_CPU_HEALTH 1])
      else if profile = ''supervisor'' then Some (1,
        [Profile_Resource ATARIX_RESOURCE_SUPERVISOR 1, Profile_Service ATARIX_SERVICE_HEALTH 1])
      else if profile = ''instrumentation'' then Some (5,
        [Profile_Resource ATARIX_RESOURCE_LOGIC_ANALYZER 1,
         Profile_Service ATARIX_SERVICE_INSTRUMENTATION 1])
      else None)"

lemma lengths [simp]:
  "length (entry_bytes prov e) = 32" "length end_bytes = 8"
  "length (header_bytes tot count prov hcrc icrc) = 32"
  by (cases e; simp add: end_bytes_def header_bytes_def)+

lemma length_entries [simp]: "length (concat (map (entry_bytes prov) es)) = 32 * length es"
  by (induction es) auto

lemma length_records_bytes [simp]: "length (records_bytes prov es) = 32 * length es + 8"
  by (simp add: records_bytes_def)

lemma length_discovery_image [simp]: "length (discovery_image prov es) = 40 + 32 * length es"
  by (simp add: discovery_image_def Let_def)


section \<open>The code builds the image\<close>

text \<open>The stack structs: every field written, so the byte strings are the concatenated fields.\<close>

lemmas le_bytes_defs = le16_bytes_def le32_bytes_def le64_bytes_def

lemma layout_sizes:
  "size_of atarix_discovery_record_header_v1 = 8"
  "size_of atarix_discovery_resource_record_v1 = 32"
  "size_of atarix_discovery_service_record_v1 = 32"
  by (rule discovery_sizes)+

lemma append_bytes_eq:
  assumes "length img = cap" "offset + length src \<le> cap"
  shows "append_bytes img cap offset src (length src)
    = Some (0, overwrite img offset src, offset + length src)"
  using assms by (simp add: append_bytes_def c_mem)

lemma overwrite_memset: "overwrite (replicate n x) 0 (replicate n y) = replicate n y"
  by (simp add: overwrite_def)

lemma header_struct:
  "overwrite (overwrite (overwrite (replicate 8 0) 0 (le16_bytes a)) 2 (le16_bytes b))
      4 (le32_bytes c) = le16_bytes a @ le16_bytes b @ le32_bytes c"
  by (simp add: overwrite_def le_bytes_defs numeral_eq_Suc)

lemma record_struct:
  "overwrite (overwrite (overwrite (overwrite (overwrite (overwrite (overwrite (overwrite
      (replicate 32 0) 0 (le16_bytes a)) 2 (le16_bytes b)) 4 (le32_bytes c)) 8 (le16_bytes t))
      10 (le16_bytes v)) 16 (le64_bytes h)) 24 (le32_bytes p)) 28 (le32_bytes i)
    = le16_bytes a @ le16_bytes b @ le32_bytes c @ le16_bytes t @ le16_bytes v @ replicate 4 0 @
      le64_bytes h @ le32_bytes p @ le32_bytes i"
  by (simp add: overwrite_def le_bytes_defs numeral_eq_Suc)

lemma append_end_eq:
  assumes "length img = cap" "offset + 8 \<le> cap"
  shows "append_end img cap offset = Some (0, overwrite img offset end_bytes, offset + 8)"
  using append_bytes_eq [OF assms(1), of offset end_bytes] assms(2)
  by (simp add: append_end_def layout_sizes c_mem set_field_defs header_struct overwrite_memset
      end_bytes_def del: add_2_eq_Suc add_2_eq_Suc')

lemma append_resource_eq:
  assumes "length img = cap" "offset + 32 \<le> cap"
  shows "append_resource img cap offset t prov i
    = Some (0, overwrite img offset (entry_bytes prov (Profile_Resource t i)), offset + 32)"
  using append_bytes_eq [OF assms(1), of offset "entry_bytes prov (Profile_Resource t i)"] assms(2)
  by (simp add: append_resource_def layout_sizes c_mem set_field_defs overwrite_memset record_struct
      le32_bytes_0 del: add_2_eq_Suc add_2_eq_Suc')

lemma append_service_eq:
  assumes "length img = cap" "offset + 32 \<le> cap"
  shows "append_service img cap offset t prov i
    = Some (0, overwrite img offset (entry_bytes prov (Profile_Service t i)), offset + 32)"
  using append_bytes_eq [OF assms(1), of offset "entry_bytes prov (Profile_Service t i)"] assms(2)
  by (simp add: append_service_def layout_sizes c_mem set_field_defs overwrite_memset record_struct
      le32_bytes_0 del: add_2_eq_Suc add_2_eq_Suc')


text \<open>Writing one header field, and the header the tool starts from.\<close>

lemma header_bytes_fields:
  "overwrite (header_bytes tot count prov hcrc icrc @ q) 8 (le32_bytes tot') =
     header_bytes tot' count prov hcrc icrc @ q"
  "overwrite (header_bytes tot count prov hcrc icrc @ q) 12 (le32_bytes count') =
     header_bytes tot count' prov hcrc icrc @ q"
  "overwrite (header_bytes tot count prov hcrc icrc @ q) 16 (le32_bytes prov') =
     header_bytes tot count prov' hcrc icrc @ q"
  "overwrite (header_bytes tot count prov hcrc icrc @ q) 24 (le32_bytes hcrc') =
     header_bytes tot count prov hcrc' icrc @ q"
  "overwrite (header_bytes tot count prov hcrc icrc @ q) 28 (le32_bytes icrc') =
     header_bytes tot count prov hcrc icrc' @ q"
  by (simp_all add: overwrite_append_left)
     (simp_all add: overwrite_def header_bytes_def)

lemma header_bytes_init:
  assumes "32 \<le> n"
  shows "overwrite (overwrite (overwrite (overwrite (replicate n 0) 0 (le32_bytes m)) 4
      (le16_bytes 1)) 6 (le16_bytes 0)) 16 (le32_bytes prov) =
    (le32_bytes m @ le16_bytes 1 @ le16_bytes 0 @ replicate 8 0 @ le32_bytes prov @ replicate 12 0)
      @ replicate (n - 32) 0"
proof -
  have "replicate n (0 :: u8) = replicate 32 0 @ replicate (n - 32) 0"
    using assms by (simp flip: replicate_add)
  then show ?thesis
    by (simp add: overwrite_append_left del: append_assoc)
       (simp add: overwrite_def le_bytes_defs numeral_eq_Suc)
qed

lemma header_bytes_start:
  "le32_bytes ATARIX_DISCOVERY_MAGIC_ATDX @ le16_bytes 1 @ le16_bytes 0 @ replicate 8 0 @
     le32_bytes prov @ replicate 12 0 = header_bytes 0 0 prov 0 0"
  by (simp add: header_bytes_def le32_bytes_0 flip: replicate_add)

text \<open>An append behind what is already there.\<close>

lemma overwrite_behind:
  "offset = length a + length b \<Longrightarrow> overwrite (a @ b @ z) offset bs = a @ (b @ bs) @ drop (length bs) z"
  by (simp add: overwrite_def)

lemma append_resource_at:
  assumes "offset = length h + length b" "cap = offset + length z" "32 \<le> length z"
  shows "append_resource (h @ b @ z) cap offset t prov i =
    Some (0, h @ (b @ entry_bytes prov (Profile_Resource t i)) @ drop 32 z, offset + 32)"
  using assms append_resource_eq [of "h @ b @ z" cap offset t prov i]
  by (simp add: overwrite_behind del: entry_bytes.simps)

lemma append_service_at:
  assumes "offset = length h + length b" "cap = offset + length z" "32 \<le> length z"
  shows "append_service (h @ b @ z) cap offset t prov i =
    Some (0, h @ (b @ entry_bytes prov (Profile_Service t i)) @ drop 32 z, offset + 32)"
  using assms append_service_eq [of "h @ b @ z" cap offset t prov i]
  by (simp add: overwrite_behind del: entry_bytes.simps)

lemmas append_first = append_resource_at [of _ _ "[]", unfolded append_Nil list.size add_0_right]

lemma append_end_at:
  assumes "offset = length h + length b" "cap = offset + length z" "8 \<le> length z"
  shows "append_end (h @ b @ z) cap offset = Some (0, h @ (b @ end_bytes) @ drop 8 z, offset + 8)"
  using assms append_end_eq [of "h @ b @ z" cap offset] by (simp add: overwrite_behind)

lemma patch_crc32_eq:
  fixes tot count prov hcrc0 icrc0 body z
  defines "hcrc \<equiv> crc_of mailbox_crc_bit (header_bytes tot count prov 0 0)"
  defines "icrc \<equiv> crc_of mailbox_crc_bit (header_bytes tot count prov hcrc 0 @ body)"
  assumes "n = 32 + length body"
  shows "patch_crc32 (header_bytes tot count prov hcrc0 icrc0 @ body @ z) n
    = Some (header_bytes tot count prov hcrc icrc @ body @ z)"
  using assms
  by (simp add: patch_crc32_def set_field_defs c_mem header_bytes_fields crc32_iso_hdlc_eq)

lemma build_profile_image:
  assumes "profile_entries profile = Some (prov, es)" "40 + 32 * length es \<le> length img"
  shows "build_profile profile img (length img) n0 =
    Some (0, discovery_image prov es @ replicate (length img - (40 + 32 * length es)) 0,
      40 + 32 * length es)"
proof -
  let ?z = "replicate (length img - 32) 0 :: bytes"
  have start: "overwrite (overwrite (overwrite (overwrite (replicate (length img) 0) 0
      (le32_bytes ATARIX_DISCOVERY_MAGIC_ATDX)) 4 (le16_bytes 1)) 6 (le16_bytes 0)) 16 (le32_bytes 3)
      = header_bytes 0 0 3 0 0 @ [] @ ?z"
    using assms(2) header_bytes_init [of "length img" ATARIX_DISCOVERY_MAGIC_ATDX 3]
    by (simp add: header_bytes_start [symmetric])
  have zero: "overwrite img 0 (replicate (length img) 0) = replicate (length img) 0"
    by (simp add: overwrite_def)
  have recs: "profile_records profile (header_bytes 0 0 3 0 0 @ [] @ ?z) (length img) 32 =
      Some (Some (0, header_bytes 0 0 prov 0 0 @ concat (map (entry_bytes prov) es) @
        replicate (length img - (32 + 32 * length es)) 0, 32 + 32 * length es, of_nat (length es)))"
    using assms
    by (auto simp: profile_entries_def profile_records_def set_field_defs c_mem header_bytes_fields
        append_first append_resource_at append_service_at
        simp del: append_assoc entry_bytes.simps split: if_splits)
  note patch = patch_crc32_eq [of _ "concat (map (entry_bytes prov) es) @ end_bytes",
      simplified append_assoc]
  show ?thesis
    using assms(2) start recs
    by (simp add: build_profile_def c_mem set_field_defs zero append_end_at header_bytes_fields
        patch discovery_image_def records_bytes_def Let_def add.commute [of 1])
qed


section \<open>The validator accepts the image, and its records are the entries\<close>

lemma image_header_fields:
  fixes prov es
  defines "img \<equiv> discovery_image prov es"
  shows "header32 img ''magic'' = ATARIX_DISCOVERY_MAGIC_ATDX"
    "header16 img ''version_major'' = ATARIX_DISCOVERY_VERSION_MAJOR_V1"
    "header32 img ''total_length'' = of_nat (40 + 32 * length es)"
    "header32 img ''record_count'' = of_nat (Suc (length es))"
  by (simp_all add: img_def discovery_image_def Let_def header32_def header16_def header_bytes_def
      le32_val_bytes le16_val_bytes)

lemma image_checksums:
  fixes prov es
  defines "img \<equiv> discovery_image prov es"
  shows "header_checksum img = header32 img ''header_crc32''"
    "image_checksum img (length img) = header32 img ''image_crc32''"
proof -
  let ?tot = "of_nat (40 + 32 * length es)" and ?count = "of_nat (Suc (length es))"
  let ?h = "crc_of mailbox_crc_bit (header_bytes ?tot ?count prov 0 0)"
  let ?i = "crc_of mailbox_crc_bit (header_bytes ?tot ?count prov ?h 0 @ records_bytes prov es)"
  have img: "img = header_bytes ?tot ?count prov ?h ?i @ records_bytes prov es"
    by (simp add: img_def discovery_image_def Let_def)
  have zero: "take 24 (header_bytes ?tot ?count prov ?h ?i) @ replicate 8 0
      = header_bytes ?tot ?count prov 0 0"
    by (simp add: header_bytes_def le32_bytes_0 flip: replicate_add)
  have "header32 img ''header_crc32'' = ?h" "header32 img ''image_crc32'' = ?i"
    unfolding img by (simp_all add: header32_def header_bytes_def le32_val_bytes)
  moreover have "header_checksum img = ?h"
    unfolding img header_checksum_def using zero by simp
  moreover have "image_checksum img (length img) = ?i"
    unfolding img image_checksum_def
    by (simp add: header_bytes_fields(5) flip: le32_bytes_0)
  ultimately show "header_checksum img = header32 img ''header_crc32''"
    "image_checksum img (length img) = header32 img ''image_crc32''" by simp_all
qed

text \<open>The record at the front of a suffix of the image.\<close>

lemma entry_at:
  assumes "off = length pre"
  shows "record_type_at (pre @ entry_bytes prov e @ q) off \<noteq> ATARIX_DISCOVERY_RECORD_END"
    and "record_length_at (pre @ entry_bytes prov e @ q) off = 32"
    and "record_at (pre @ entry_bytes prov e @ q) off = entry_record prov e"
  using assms
  by (cases e; simp add: record_type_at_def record_length_at_def record_at_def resource_at_def
      service_at_def u16_at_def u32_at_def u64_at_def le16_val_bytes le32_val_bytes le64_val_bytes)+

lemma end_at:
  assumes "off = length pre"
  shows "record_type_at (pre @ end_bytes @ q) off = ATARIX_DISCOVERY_RECORD_END"
    and "record_length_at (pre @ end_bytes @ q) off = 8"
    and "record_at (pre @ end_bytes @ q) off = Skipped_Record"
  using assms
  by (simp_all add: end_bytes_def record_type_at_def record_length_at_def record_at_def
      le16_val_bytes le32_val_bytes)

lemma entries_chain:
  assumes "length pre mod 8 = 0"
  shows "\<exists>rs. record_chain (pre @ records_bytes prov es) (length pre + 32 * length es + 8)
      (length pre) rs \<and> length rs = Suc (length es) \<and>
    map (record_at (pre @ records_bytes prov es)) (butlast rs) = map (entry_record prov) es \<and>
    (\<forall>r \<in> set rs. body_inside (pre @ records_bytes prov es) r)"
  using assms
proof (induction es arbitrary: pre)
  case Nil
  have e: "records_bytes prov [] = end_bytes" by (simp add: records_bytes_def)
  note end_at = end_at [of _ _ "[]", unfolded append_Nil2]
  have "record_chain (pre @ records_bytes prov []) (length pre + 32 * length [] + 8) (length pre)
      [length pre]"
    using Nil by (intro chain_end) (simp_all add: e end_at)
  then show ?case
    by (intro exI [of _ "[length pre]"]) (simp add: body_inside_def e end_at)
next
  case (Cons e es)
  have img: "pre @ records_bytes prov (e # es) = (pre @ entry_bytes prov e) @ records_bytes prov es"
    by (simp add: records_bytes_def)
  have split: "pre @ records_bytes prov (e # es) = pre @ entry_bytes prov e @ records_bytes prov es"
    by (simp add: records_bytes_def)
  from Cons.prems have "(length pre + 32) mod 8 = 0" by presburger
  then have "length (pre @ entry_bytes prov e) mod 8 = 0" by simp
  from Cons.IH [OF this] obtain rs where
    chain: "record_chain (pre @ records_bytes prov (e # es)) (length pre + 32 * length (e # es) + 8)
      (length pre + 32) rs" and
    len: "length rs = Suc (length es)" and
    dec: "map (record_at (pre @ records_bytes prov (e # es))) (butlast rs) = map (entry_record prov) es"
    and body: "\<forall>r \<in> set rs. body_inside (pre @ records_bytes prov (e # es)) r"
    unfolding img by (auto simp: algebra_simps)
  have "record_chain (pre @ records_bytes prov (e # es)) (length pre + 32 * length (e # es) + 8)
      (length pre) (length pre # rs)"
    using chain Cons.prems by (intro chain_more) (simp_all add: split entry_at)
  moreover from len have "rs \<noteq> []" by auto
  moreover have "body_inside (pre @ records_bytes prov (e # es)) (length pre)"
    by (simp add: body_inside_def)
  ultimately show ?case
    using len dec body
    by (intro exI [of _ "length pre # rs"]) (simp add: split entry_at)
qed

lemma discovery_image_chain:
  "\<exists>rs. record_chain (discovery_image prov es) (40 + 32 * length es) 32 rs \<and>
    length rs = Suc (length es) \<and>
    map (record_at (discovery_image prov es)) (butlast rs) = map (entry_record prov) es \<and>
    (\<forall>r \<in> set rs. body_inside (discovery_image prov es) r)"
proof -
  obtain h where "discovery_image prov es = h @ records_bytes prov es" "length h = 32"
    by (simp add: discovery_image_def Let_def)
  with entries_chain [of h prov es] show ?thesis by (simp add: algebra_simps)
qed

lemma image_length_eq:
  "40 + 32 * length es < 2 ^ 32 \<Longrightarrow> image_length (discovery_image prov es) = 40 + 32 * length es"
  unfolding image_header_fields by (subst unat_of_nat_small) simp_all

lemma discovery_image_accepted:
  assumes "40 + 32 * length es < 2 ^ 32"
  shows "image_accepted (discovery_image prov es) (length (discovery_image prov es))"
proof -
  have "(40 + 32 * length es) mod 8 = 0" by presburger
  moreover obtain rs where "record_chain (discovery_image prov es) (40 + 32 * length es) 32 rs"
    "length rs = Suc (length es)"
    using discovery_image_chain by blast
  ultimately show ?thesis
    using assms image_checksums [of prov es] image_header_fields(1,2,4) [of prov es]
    by (auto simp: image_accepted_def image_length_eq simp del: of_nat_Suc intro!: exI [of _ rs])
qed

text \<open>Parsing the image of any profile inserts its entries.\<close>

lemma parse_discovery_image:
  assumes "40 + 32 * length es < 2 ^ 32" "db_ok d"
  shows "\<exists>r d'. put_records (map (entry_record prov) es) d = (r, d') \<and>
    atarix_discovery_parse (Some (discovery_image prov es)) (40 + 32 * length es) (Some d)
      = Some (r, Some d')"
proof -
  obtain rs where
    "record_chain (discovery_image prov es) (image_length (discovery_image prov es)) 32 rs"
    "map (record_at (discovery_image prov es)) (butlast rs) = map (entry_record prov) es"
    "\<forall>r \<in> set rs. body_inside (discovery_image prov es) r"
    using discovery_image_chain [of prov es] image_length_eq [OF assms(1), of prov] by auto
  with parse_refines [of "40 + 32 * length es" "discovery_image prov es" d rs]
    discovery_image_accepted [OF assms(1)] assms(2)
  show ?thesis by simp
qed


section \<open>What the parser inserts\<close>

fun is_resource :: "profile_entry \<Rightarrow> bool" where
  "is_resource (Profile_Resource t i) \<longleftrightarrow> True"
| "is_resource (Profile_Service t i) \<longleftrightarrow> False"

fun entry_handle :: "u32 \<Rightarrow> profile_entry \<Rightarrow> atarix_discovery_handle" where
  "entry_handle prov (Profile_Resource t i) = atarix_discovery_make_handle (ucast prov) t i"
| "entry_handle prov (Profile_Service t i) = atarix_discovery_make_handle (ucast prov) t i"

text \<open>A database with tables large enough for the entries.\<close>

definition has_room :: "profile_entry list \<Rightarrow> atarix_discovery_database \<Rightarrow> bool" where
  "has_room es d \<longleftrightarrow> resources d \<noteq> None \<and> services d \<noteq> None \<and>
     resource_count d + length (filter is_resource es) \<le> resource_capacity d \<and>
     service_count d + length (filter (\<lambda>e. \<not> is_resource e) es) \<le> service_capacity d"

lemma put_entry:
  assumes "db_ok d" "has_room (e # es) d"
  shows "if entry_handle prov e \<in> set (db_handles d)
    then put_record (entry_record prov e) d = (ATARIX_DISCOVERY_ERROR_DUPLICATE_HANDLE, d)
    else \<exists>d'. put_record (entry_record prov e) d = (ATARIX_DISCOVERY_OK, d') \<and> db_ok d' \<and> has_room es d' \<and>
      set (db_handles d') = insert (entry_handle prov e) (set (db_handles d))"
proof (cases "entry_handle prov e \<in> set (db_handles d)")
  case True
  then show ?thesis by (cases e) (simp_all add: put_resource_def put_service_def)
next
  case False
  let ?d = "snd (put_record (entry_record prov e) d)"
  have ok: "fst (put_record (entry_record prov e) d) = ATARIX_DISCOVERY_OK" "has_room es ?d"
    using False assms(2) by (cases e; auto simp: put_resource_def put_service_def has_room_def)+
  moreover have "db_ok ?d" using put_record_keeps(1) [OF assms(1)] .
  moreover have "set (db_handles ?d) = insert (entry_handle prov e) (set (db_handles d))"
    using ok(1) put_resource_handles(4) [OF assms(1)] put_service_handles(4) [OF assms(1)]
    by (cases e) (auto simp: db_handles_def)
  ultimately show ?thesis
    using False by (cases "put_record (entry_record prov e) d") auto
qed

text \<open>Entries with new and distinct handles are all inserted.\<close>

lemma put_new_entries:
  assumes "db_ok d" "has_room (es @ fs) d" "distinct (map (entry_handle prov) es)"
    "\<forall>e \<in> set es. entry_handle prov e \<notin> set (db_handles d)"
  shows "\<exists>d'. put_records (map (entry_record prov) es) d = (ATARIX_DISCOVERY_OK, d') \<and> db_ok d' \<and>
    has_room fs d' \<and> set (db_handles d') = set (db_handles d) \<union> entry_handle prov ` set es"
  using assms
proof (induction es arbitrary: d)
  case (Cons e es)
  have "has_room (e # es @ fs) d" using Cons.prems(2) by simp
  from put_entry [OF Cons.prems(1) this, of prov] Cons.prems(4) obtain d1 where
    d1: "put_record (entry_record prov e) d = (ATARIX_DISCOVERY_OK, d1)" "db_ok d1" "has_room (es @ fs) d1"
      "set (db_handles d1) = insert (entry_handle prov e) (set (db_handles d))" by auto
  have "\<forall>e \<in> set es. entry_handle prov e \<notin> set (db_handles d1)"
    using Cons.prems(3,4) d1(4) by (metis image_eqI insert_iff list.set_intros(2) list.simps(9) distinct.simps(2) list.set_map)
  with Cons.IH [OF d1(2,3)] Cons.prems(3) d1(1,4) show ?case by auto
qed simp

lemma put_records_append:
  "put_records (xs @ ys) d =
     (case put_records xs d of (r, d') \<Rightarrow> if r = ATARIX_DISCOVERY_OK then put_records ys d' else (r, d'))"
  by (induction xs arbitrary: d) (auto split: prod.split)

text \<open>The first entry whose handle repeats an earlier one stops the parser.\<close>

lemma put_colliding_entry:
  assumes "db_ok d" "has_room (es @ e # fs) d" "distinct (map (entry_handle prov) es)"
    "\<forall>e \<in> set es. entry_handle prov e \<notin> set (db_handles d)" "entry_handle prov e \<in> entry_handle prov ` set es"
  shows "\<exists>d'. put_records (map (entry_record prov) (es @ e # fs)) d = (ATARIX_DISCOVERY_ERROR_DUPLICATE_HANDLE, d') \<and>
    extends_by d (map (entry_record prov) es) d'"
proof -
  from put_new_entries [OF assms(1-4)] obtain d1 where
    d1: "put_records (map (entry_record prov) es) d = (ATARIX_DISCOVERY_OK, d1)" "db_ok d1" "has_room (e # fs) d1"
      "set (db_handles d1) = set (db_handles d) \<union> entry_handle prov ` set es" by blast
  have "entry_handle prov e \<in> set (db_handles d1)" using d1(4) assms(5) by blast
  with put_entry [OF d1(2,3), of prov] have
    "put_record (entry_record prov e) d1 = (ATARIX_DISCOVERY_ERROR_DUPLICATE_HANDLE, d1)" by simp
  with d1(1) put_records_extends [OF assms(1) d1(1)] show ?thesis by (simp add: put_records_append)
qed

text \<open>
  Resource types and service identifiers are two registries that share the handle format: with the
  same provider and instance, resource CPU and service CPU_DIAGNOSTICS have one handle, and so have
  LOGIC_ANALYZER and INSTRUMENTATION.
\<close>

definition collision_free :: "string \<Rightarrow> bool" where
  "collision_free profile \<longleftrightarrow> profile \<in> {''minimal'', ''supervisor''}"

lemma profile_put:
  assumes "profile_entries profile = Some (prov, es)" "db_ok d" "has_room es d"
    "\<forall>e \<in> set es. entry_handle prov e \<notin> set (db_handles d)"
  shows "\<exists>d'. put_records (map (entry_record prov) es) d =
      (if collision_free profile then ATARIX_DISCOVERY_OK else ATARIX_DISCOVERY_ERROR_DUPLICATE_HANDLE, d') \<and>
    extends_by d (map (entry_record prov) (if collision_free profile then es else filter is_resource es)) d'"
proof (cases "collision_free profile")
  case True
  then have "distinct (map (entry_handle prov) es)"
    using assms(1) by (auto simp: collision_free_def profile_entries_def atarix_discovery_make_handle_def split: if_splits)
  from put_new_entries [OF assms(2) _ this assms(4), of "[]"] assms(3) obtain d' where
    "put_records (map (entry_record prov) es) d = (ATARIX_DISCOVERY_OK, d')" by auto
  with put_records_extends [OF assms(2) this] True show ?thesis by auto
next
  case False
  from assms(1) False consider
      (cpu) "prov = 3" "es = [Profile_Resource ATARIX_RESOURCE_CPU 1, Profile_Resource ATARIX_RESOURCE_CPU_HEALTH 1]
        @ Profile_Service ATARIX_SERVICE_CPU_DIAGNOSTICS 1 # [Profile_Service ATARIX_SERVICE_CPU_HEALTH 1]"
    | (probe) "prov = 5" "es = [Profile_Resource ATARIX_RESOURCE_LOGIC_ANALYZER 1]
        @ Profile_Service ATARIX_SERVICE_INSTRUMENTATION 1 # []"
    by (auto simp: collision_free_def profile_entries_def split: if_splits)
  then show ?thesis
  proof cases
    case cpu
    from put_colliding_entry [of d "[Profile_Resource ATARIX_RESOURCE_CPU 1, Profile_Resource ATARIX_RESOURCE_CPU_HEALTH 1]"
        "Profile_Service ATARIX_SERVICE_CPU_DIAGNOSTICS 1" "[Profile_Service ATARIX_SERVICE_CPU_HEALTH 1]" prov]
      assms(2-4) cpu False
    show ?thesis by (simp add: atarix_discovery_make_handle_def)
  next
    case probe
    from put_colliding_entry [of d "[Profile_Resource ATARIX_RESOURCE_LOGIC_ANALYZER 1]"
        "Profile_Service ATARIX_SERVICE_INSTRUMENTATION 1" "[]" prov] assms(2-4) probe False
    show ?thesis by (simp add: atarix_discovery_make_handle_def)
  qed
qed

section \<open>Properties\<close>

text \<open>
  C11. What the parser makes of the tool's images. For each of the four profiles, run with the profile and
  an output file, a writable file system and the 4096-byte buffer of \<open>main\<close> (whatever it holds), the tool
  exits with 0 and writes a file; parsing it into any well-formed database does exactly what inserting
  the profile's entries in order does. With room for the entries and none of their handles taken, the
  images of \<open>minimal\<close> and \<open>supervisor\<close> parse with OK and every resource and service is inserted; those of
  \<open>cpu-card\<close> and \<open>instrumentation\<close> are refused with DUPLICATE_HANDLE after the resources, because the
  first service has the handle of the first resource. An unknown profile makes the tool exit with 1 and
  write nothing.
\<close>

theorem mkdiscovery_round_trip:
  assumes "length img = MKDISCOVERY_MAX_IMAGE" "fopen_ok output" "\<And>n. fwrite_count n = n" "db_ok d"
  shows "case profile_entries profile of
      None \<Rightarrow> mkdiscovery_main fopen_ok fwrite_count img [''--profile'', profile, ''--output'', output]
        = Some (1, None)
    | Some (prov, es) \<Rightarrow> \<exists>file r d'.
        mkdiscovery_main fopen_ok fwrite_count img [''--profile'', profile, ''--output'', output]
          = Some (0, Some (output, file)) \<and>
        atarix_discovery_parse (Some file) (length file) (Some d) = Some (r, Some d') \<and>
        put_records (map (entry_record prov) es) d = (r, d') \<and>
        (has_room es d \<and> (\<forall>e \<in> set es. entry_handle prov e \<notin> set (db_handles d)) \<longrightarrow>
          (if profile = ''minimal'' \<or> profile = ''supervisor''
           then r = ATARIX_DISCOVERY_OK \<and> extends_by d (map (entry_record prov) es) d'
           else r = ATARIX_DISCOVERY_ERROR_DUPLICATE_HANDLE \<and>
             extends_by d (map (entry_record prov) (filter is_resource es)) d'))"
proof (cases "profile_entries profile")
  case None
  then have "profile_records profile q cap off = Some None" for q cap off
    by (simp add: profile_entries_def profile_records_def split: if_splits)
  with None assms(1) show ?thesis
    by (simp add: mkdiscovery_main_def build_profile_def c_mem set_field_defs)
next
  case (Some pe)
  obtain prov es where pe: "pe = (prov, es)" by (cases pe)
  have small: "length es \<le> 4"
    using Some pe by (auto simp: profile_entries_def split: if_splits)
  let ?file = "discovery_image prov es"
  have "mkdiscovery_main fopen_ok fwrite_count img [''--profile'', profile, ''--output'', output]
      = Some (0, Some (output, ?file))"
    using build_profile_image [of profile prov es img 0] Some pe small assms
    by (simp add: mkdiscovery_main_def)
  moreover obtain r d' where "put_records (map (entry_record prov) es) d = (r, d')"
    "atarix_discovery_parse (Some ?file) (length ?file) (Some d) = Some (r, Some d')"
    using parse_discovery_image [of es d prov] small assms(4) by auto
  moreover from profile_put [of profile prov es d] Some pe assms(4) have
    "has_room es d \<and> (\<forall>e \<in> set es. entry_handle prov e \<notin> set (db_handles d)) \<longrightarrow>
      (\<exists>d'. put_records (map (entry_record prov) es) d =
        (if collision_free profile then ATARIX_DISCOVERY_OK else ATARIX_DISCOVERY_ERROR_DUPLICATE_HANDLE, d') \<and>
      extends_by d (map (entry_record prov) (if collision_free profile then es else filter is_resource es)) d')"
    by blast
  ultimately show ?thesis using Some pe by (auto simp: collision_free_def split: if_splits)
qed

theorem mkdiscovery_round_trip_witness:
  "\<exists>file d' file2 d2. mkdiscovery_main (\<lambda>_. True) (\<lambda>n. n) (replicate 4096 0xAA)
      [''--profile'', ''supervisor'', ''--output'', ''rom.bin''] = Some (0, Some (''rom.bin'', file)) \<and>
    atarix_discovery_parse (Some file) (length file) (Some small_db)
      = Some (ATARIX_DISCOVERY_OK, Some d') \<and>
    mkdiscovery_main (\<lambda>_. True) (\<lambda>n. n) (replicate 4096 0xAA)
      [''--profile'', ''instrumentation'', ''--output'', ''rom.bin''] = Some (0, Some (''rom.bin'', file2)) \<and>
    atarix_discovery_parse (Some file2) (length file2) (Some small_db)
      = Some (ATARIX_DISCOVERY_ERROR_DUPLICATE_HANDLE, Some d2)"
proof -
  note rt = mkdiscovery_round_trip [of "replicate 4096 0xAA" "\<lambda>_. True" "''rom.bin''" "\<lambda>n. n" small_db]
  have room: "has_room es small_db" if "length es \<le> 4" for es
    using that sum_length_filter_compl [of is_resource es] by (simp add: has_room_def small_db_def)
  have "profile_entries ''supervisor'' = Some (1, [Profile_Resource 0x0010 1, Profile_Service 0x0006 1])"
    "profile_entries ''instrumentation'' = Some (5, [Profile_Resource 0x1000 1, Profile_Service 0x1000 1])"
    by (simp_all add: profile_entries_def)
  with rt [of "''supervisor''"] rt [of "''instrumentation''"] room show ?thesis by fastforce
qed

end
