(* ===== verification/Sim_Fabric.thy ===== *)
theory Sim_Fabric
  imports Atarix_Prelude
begin

text \<open>
  The simulated fabric: \<open>include/atarix/sim_types.h\<close>, \<open>include/atarix/sim_node.h\<close>,
  \<open>src/sim/sim_node.c\<close>, \<open>include/atarix/sim_fabric.h\<close> and \<open>src/sim/sim_fabric.c\<close>.

  Nodes are shared: the fabric and the mailbox endpoints keep pointers to them. They live in a store,
  a map from addresses to nodes, and a node pointer is an address or \<open>None\<close> for \<open>NULL\<close>. Dereferencing an
  address outside the store is the outer \<open>None\<close>. The fabric implements the interface
  \<open>handle_insertion\<close> with node ids as handles.
\<close>

section \<open>Node identifiers\<close>

definition atarix_sim_node_ranges :: "(string \<times> u32 \<times> u32) list" where
  "atarix_sim_node_ranges =
     [(''SUPERVISOR'', 0x0000, 0x0000), (''FABRIC'', 0x0001, 0x00FF), (''CPU'', 0x0100, 0x01FF),
      (''STORAGE'', 0x0200, 0x02FF), (''DISPLAY'', 0x0300, 0x03FF), (''NETWORK'', 0x0400, 0x04FF),
      (''PERIPHERAL'', 0x0500, 0x05FF), (''TEST'', 0xFF00, 0xFFFF)]"

section \<open>Nodes\<close>

record atarix_sim_node =
  node_id :: u32
  node_name :: "string option"
  tx_count :: u32
  rx_count :: u32

type_synonym node_ptr = "nat option"
type_synonym node_store = "nat \<Rightarrow> atarix_sim_node option"

definition atarix_sim_node_init ::
  "node_store \<Rightarrow> node_ptr \<Rightarrow> u32 \<Rightarrow> string option \<Rightarrow> node_store option" where
  "atarix_sim_node_init st node nid name =
     (case node of
        None \<Rightarrow> Some st
      | Some a \<Rightarrow> do {
          n \<leftarrow> st a;
          Some (st(a \<mapsto> n\<lparr>node_id := nid, node_name := name, tx_count := 0, rx_count := 0\<rparr>))
        })"

definition atarix_sim_node_record_tx :: "node_store \<Rightarrow> node_ptr \<Rightarrow> node_store option" where
  "atarix_sim_node_record_tx st node =
     (case node of
        None \<Rightarrow> Some st
      | Some a \<Rightarrow> do {
          n \<leftarrow> st a;
          Some (st(a \<mapsto> n\<lparr>tx_count := tx_count n + 1\<rparr>))
        })"

definition atarix_sim_node_record_rx :: "node_store \<Rightarrow> node_ptr \<Rightarrow> node_store option" where
  "atarix_sim_node_record_rx st node =
     (case node of
        None \<Rightarrow> Some st
      | Some a \<Rightarrow> do {
          n \<leftarrow> st a;
          Some (st(a \<mapsto> n\<lparr>rx_count := rx_count n + 1\<rparr>))
        })"

section \<open>The fabric\<close>

abbreviation ATARIX_SIM_FABRIC_MAX_NODES :: nat where
  "ATARIX_SIM_FABRIC_MAX_NODES \<equiv> 256"

datatype atarix_sim_fabric_status =
    ATARIX_SIM_FABRIC_STATUS_OK
  | ATARIX_SIM_FABRIC_STATUS_NULL
  | ATARIX_SIM_FABRIC_STATUS_DUPLICATE_NODE
  | ATARIX_SIM_FABRIC_STATUS_FULL
  | ATARIX_SIM_FABRIC_STATUS_NOT_FOUND

record atarix_sim_fabric_slot =
  slot_node_id :: u32
  slot_node :: node_ptr

record atarix_sim_fabric =
  slots :: "atarix_sim_fabric_slot list"
  node_count :: nat

text \<open>\<open>memset(fabric, 0, sizeof *fabric)\<close>: all ids 0, all pointers \<open>NULL\<close>, no nodes.\<close>

definition atarix_sim_fabric_init :: "atarix_sim_fabric option \<Rightarrow> atarix_sim_fabric option" where
  "atarix_sim_fabric_init fabric =
     (case fabric of
        None \<Rightarrow> None
      | Some f \<Rightarrow> Some (f\<lparr>
          slots := replicate ATARIX_SIM_FABRIC_MAX_NODES \<lparr>slot_node_id = 0, slot_node = None\<rparr>,
          node_count := 0\<rparr>))"

definition atarix_sim_fabric_attach ::
  "node_store \<Rightarrow> atarix_sim_fabric option \<Rightarrow> node_ptr
    \<Rightarrow> (atarix_sim_fabric_status \<times> atarix_sim_fabric option) option" where
  "atarix_sim_fabric_attach st fabric node =
     (case (fabric, node) of
        (Some f, Some a) \<Rightarrow> do {
          n \<leftarrow> st a;
          hit \<leftarrow> array_scan slot_node_id (slots f) (node_count f) (node_id n) 0;
          if hit \<noteq> None then Some (ATARIX_SIM_FABRIC_STATUS_DUPLICATE_NODE, Some f)
          else if node_count f \<ge> ATARIX_SIM_FABRIC_MAX_NODES
          then Some (ATARIX_SIM_FABRIC_STATUS_FULL, Some f)
          else do {
            s \<leftarrow> array_store (slots f) (node_count f)
                   \<lparr>slot_node_id = node_id n, slot_node = Some a\<rparr>;
            Some (ATARIX_SIM_FABRIC_STATUS_OK,
                  Some (f\<lparr>slots := s, node_count := node_count f + 1\<rparr>))
          }
        }
      | _ \<Rightarrow> Some (ATARIX_SIM_FABRIC_STATUS_NULL, fabric))"

definition atarix_sim_fabric_lookup ::
  "atarix_sim_fabric option \<Rightarrow> u32 \<Rightarrow> node_ptr option" where
  "atarix_sim_fabric_lookup fabric nid =
     (case fabric of
        None \<Rightarrow> Some None
      | Some f \<Rightarrow> do {
          hit \<leftarrow> array_scan slot_node_id (slots f) (node_count f) nid 0;
          case hit of None \<Rightarrow> Some None | Some i \<Rightarrow> Some (slot_node (slots f ! i))
        })"

definition atarix_sim_fabric_node_count :: "atarix_sim_fabric option \<Rightarrow> nat" where
  "atarix_sim_fabric_node_count fabric = (case fabric of None \<Rightarrow> 0 | Some f \<Rightarrow> node_count f)"

section \<open>Invariant and contents\<close>

definition fabric_ok :: "atarix_sim_fabric \<Rightarrow> bool" where
  "fabric_ok f \<longleftrightarrow>
     length (slots f) = ATARIX_SIM_FABRIC_MAX_NODES \<and> node_count f \<le> ATARIX_SIM_FABRIC_MAX_NODES \<and>
     distinct (map slot_node_id (take (node_count f) (slots f))) \<and>
     (\<forall>s \<in> set (take (node_count f) (slots f)). slot_node s \<noteq> None)"

definition fabric_ids :: "atarix_sim_fabric \<Rightarrow> u32 list" where
  "fabric_ids f = map slot_node_id (take (node_count f) (slots f))"

text \<open>The fabric as a map from node ids to node addresses.\<close>

definition fabric_map :: "atarix_sim_fabric \<Rightarrow> u32 \<Rightarrow> node_ptr" where
  "fabric_map f = (\<lambda>nid. case map_of (map (\<lambda>s. (slot_node_id s, slot_node s)) (take (node_count f) (slots f))) nid
     of None \<Rightarrow> None | Some p \<Rightarrow> p)"

definition fabric_contains :: "atarix_sim_fabric \<Rightarrow> u32 \<Rightarrow> bool option" where
  "fabric_contains f nid =
     map_option (\<lambda>hit. hit \<noteq> None) (array_scan slot_node_id (slots f) (node_count f) nid 0)"

text \<open>The attachment of a node with a known id and address.\<close>

definition attach_slot ::
  "atarix_sim_fabric_slot \<Rightarrow> atarix_sim_fabric \<Rightarrow> atarix_sim_fabric_status \<times> atarix_sim_fabric" where
  "attach_slot s f =
     (if slot_node_id s \<in> set (fabric_ids f) then (ATARIX_SIM_FABRIC_STATUS_DUPLICATE_NODE, f)
      else if slot_node s = None then (ATARIX_SIM_FABRIC_STATUS_NULL, f)
      else if ATARIX_SIM_FABRIC_MAX_NODES \<le> node_count f then (ATARIX_SIM_FABRIC_STATUS_FULL, f)
      else (ATARIX_SIM_FABRIC_STATUS_OK,
            f\<lparr>slots := (slots f)[node_count f := s], node_count := Suc (node_count f)\<rparr>))"

lemma fabric_scan:
  assumes "fabric_ok f"
  shows "array_scan slot_node_id (slots f) (node_count f) nid 0 =
    Some (find_index (\<lambda>s. slot_node_id s = nid) (take (node_count f) (slots f)))"
  using assms by (intro array_scan_find) (simp add: fabric_ok_def)

lemma find_id_None:
  "find_index (\<lambda>s. slot_node_id s = nid) (take (node_count f) (slots f)) = None \<longleftrightarrow>
    nid \<notin> set (fabric_ids f)"
  by (auto simp: find_index_def fabric_ids_def)

lemma contains_fabric: "fabric_ok f \<Longrightarrow> fabric_contains f nid = Some (nid \<in> set (fabric_ids f))"
  using find_id_None [of nid f] by (simp add: fabric_contains_def fabric_scan del: not_None_eq)

lemma attach_slot_ok:
  assumes "fabric_ok f" "fst (attach_slot s f) = ATARIX_SIM_FABRIC_STATUS_OK"
  shows "take (node_count (snd (attach_slot s f))) (slots (snd (attach_slot s f)))
      = take (node_count f) (slots f) @ [s]"
    and "fabric_ids (snd (attach_slot s f)) = fabric_ids f @ [slot_node_id s]"
    and "slot_node_id s \<notin> set (fabric_ids f)" "slot_node s \<noteq> None" "node_count f < 256"
    and "fabric_ok (snd (attach_slot s f))"
proof -
  from assms show tk: "take (node_count (snd (attach_slot s f))) (slots (snd (attach_slot s f)))
      = take (node_count f) (slots f) @ [s]"
    by (auto simp: attach_slot_def fabric_ok_def take_Suc_conv_app_nth split: if_splits)
  then show "fabric_ids (snd (attach_slot s f)) = fabric_ids f @ [slot_node_id s]"
    by (simp add: fabric_ids_def)
  from assms show new: "slot_node_id s \<notin> set (fabric_ids f)" "slot_node s \<noteq> None" "node_count f < 256"
    by (auto simp: attach_slot_def split: if_splits)
  with tk assms show "fabric_ok (snd (attach_slot s f))"
    by (auto simp: fabric_ok_def fabric_ids_def attach_slot_def take_Suc_conv_app_nth split: if_splits)
qed

lemma attach_slot_fail:
  "fst (attach_slot s f) \<noteq> ATARIX_SIM_FABRIC_STATUS_OK \<Longrightarrow> snd (attach_slot s f) = f"
  by (simp add: attach_slot_def split: if_splits)

interpretation fabric: handle_insertion fabric_ok fabric_ids fabric_contains attach_slot slot_node_id
    ATARIX_SIM_FABRIC_STATUS_OK
proof unfold_locales
  fix f s
  assume f: "fabric_ok f"
  show "fabric_contains f h = Some (h \<in> set (fabric_ids f))" for h using f by (rule contains_fabric)
  show "fabric_ok (snd (attach_slot s f))"
    using f attach_slot_ok(6) attach_slot_fail by metis
  show "fst (attach_slot s f) \<noteq> ATARIX_SIM_FABRIC_STATUS_OK \<Longrightarrow> snd (attach_slot s f) = f"
    by (rule attach_slot_fail)
  assume ok: "fst (attach_slot s f) = ATARIX_SIM_FABRIC_STATUS_OK"
  note a = attach_slot_ok [OF f ok]
  show "fabric_contains f (slot_node_id s) = Some False \<and>
      (\<exists>xs ys. fabric_ids f = xs @ ys \<and> fabric_ids (snd (attach_slot s f)) = xs @ slot_node_id s # ys)"
    using a(2,3) by (simp add: contains_fabric [OF f]) (intro exI [of _ "fabric_ids f"] exI [of _ "[]"], simp)
qed

lemma attach_eq:
  assumes "fabric_ok f" "st a = Some n"
  shows "atarix_sim_fabric_attach st (Some f) (Some a) =
    (case attach_slot \<lparr>slot_node_id = node_id n, slot_node = Some a\<rparr> f of (r, f') \<Rightarrow> Some (r, Some f'))"
  using assms fabric_scan [OF assms(1), of "node_id n"] find_id_None [of "node_id n" f]
  by (simp add: atarix_sim_fabric_attach_def attach_slot_def array_store_def)
     (auto simp: fabric_ok_def)

lemma lookup_eq:
  assumes "fabric_ok f"
  shows "atarix_sim_fabric_lookup (Some f) nid = Some (fabric_map f nid)"
proof -
  let ?xs = "take (node_count f) (slots f)"
  have "(case find_index (\<lambda>s. slot_node_id s = nid) xs of None \<Rightarrow> None | Some i \<Rightarrow> slot_node (xs ! i))
      = (case map_of (map (\<lambda>s. (slot_node_id s, slot_node s)) xs) nid of None \<Rightarrow> None | Some p \<Rightarrow> p)" for xs
    by (induction xs) (auto simp: find_index_def split: option.splits if_splits)
  from this [of ?xs] have "(case find_index (\<lambda>s. slot_node_id s = nid) ?xs of None \<Rightarrow> None
      | Some i \<Rightarrow> slot_node (?xs ! i)) = fabric_map f nid"
    by (simp add: fabric_map_def)
  moreover have "i < node_count f" if "find_index (\<lambda>s. slot_node_id s = nid) ?xs = Some i" for i
    using find_index_Some(1) [OF that] by simp
  ultimately show ?thesis
    using fabric_scan [OF assms, of nid]
    by (auto simp: atarix_sim_fabric_lookup_def split: option.splits)
qed


section \<open>Reached fabrics\<close>

text \<open>One call of \<open>atarix_sim_fabric_attach\<close>, with any store and any pointer.\<close>

definition fabric_step :: "atarix_sim_fabric \<Rightarrow> atarix_sim_fabric \<Rightarrow> bool" where
  "fabric_step f f' \<longleftrightarrow> (\<exists>st p r. atarix_sim_fabric_attach st (Some f) p = Some (r, Some f'))"

definition fabric_start :: "atarix_sim_fabric \<Rightarrow> bool" where
  "fabric_start f \<longleftrightarrow> (\<exists>g. atarix_sim_fabric_init (Some g) = Some f)"

lemma init_fabric_ok: "fabric_start f \<Longrightarrow> fabric_ok f \<and> fabric_ids f = []"
  by (auto simp: fabric_start_def atarix_sim_fabric_init_def fabric_ok_def fabric_ids_def)

lemma step_fabric_ok:
  assumes "fabric_ok f" "fabric_step f f'"
  shows "fabric_ok f'"
proof -
  from assms(2) obtain st p r where at: "atarix_sim_fabric_attach st (Some f) p = Some (r, Some f')"
    by (auto simp: fabric_step_def)
  show ?thesis
  proof (cases p)
    case None
    with at assms(1) show ?thesis by (simp add: atarix_sim_fabric_attach_def)
  next
    case (Some a)
    with at obtain n where "st a = Some n" by (auto simp: atarix_sim_fabric_attach_def bind_eq_Some_conv)
    from attach_eq [where st = st, OF assms(1) this] at Some show ?thesis
      using fabric.insert_keeps [OF assms(1), of "\<lparr>slot_node_id = node_id n, slot_node = Some a\<rparr>"]
      by (auto split: prod.splits)
  qed
qed

interpretation fabric_calls: step_system fabric_start fabric_step fabric_ok
  by unfold_locales (auto dest: init_fabric_ok step_fabric_ok)

lemma fabric_map_attached: "fabric_ok f \<Longrightarrow> fabric_map f nid \<noteq> None \<longleftrightarrow> nid \<in> set (fabric_ids f)"
proof -
  have "\<forall>s \<in> set xs. slot_node s \<noteq> None \<Longrightarrow>
      (case map_of (map (\<lambda>s. (slot_node_id s, slot_node s)) xs) nid of None \<Rightarrow> None | Some p \<Rightarrow> p) \<noteq> None
      \<longleftrightarrow> nid \<in> slot_node_id ` set xs" for xs :: "atarix_sim_fabric_slot list"
    by (induction xs) auto
  then show "fabric_ok f \<Longrightarrow> ?thesis" by (simp add: fabric_ok_def fabric_map_def fabric_ids_def del: not_None_eq)
qed

lemma fabric_map_attach:
  assumes "fabric_ok f" "fst (attach_slot s f) = ATARIX_SIM_FABRIC_STATUS_OK"
  shows "fabric_map (snd (attach_slot s f)) k = (if k = slot_node_id s then slot_node s else fabric_map f k)"
proof -
  note a = attach_slot_ok [OF assms]
  from a(3) have "map_of (map (\<lambda>s. (slot_node_id s, slot_node s)) (take (node_count f) (slots f)))
      (slot_node_id s) = None"
    by (auto simp: map_of_eq_None_iff fabric_ids_def image_image)
  then show ?thesis
    by (simp add: fabric_map_def a(1) map_add_def split: option.split)
qed

section \<open>Properties\<close>

text \<open>
  C8. The fabric is a map from node ids to nodes with room for 256. In every fabric reached from
  initialisation by attach calls, attaching a live node never leaves the slot array; it answers
  DUPLICATE_NODE when the id is taken, FULL when 256 nodes are attached, and OK otherwise; after OK,
  looking the id up gives that node and every other lookup is unchanged, and after an error the fabric
  is unchanged. The ids stay distinct and there are never more than 256.
\<close>

theorem fabric_attach_lookup:
  assumes "fabric_start f0" "fabric_step\<^sup>*\<^sup>* f0 f" "st a = Some n"
  shows "\<exists>r f'. atarix_sim_fabric_attach st (Some f) (Some a) = Some (r, Some f') \<and>
    r = (if atarix_sim_fabric_lookup (Some f) (node_id n) \<noteq> Some None
         then ATARIX_SIM_FABRIC_STATUS_DUPLICATE_NODE
         else if atarix_sim_fabric_node_count (Some f) = 256 then ATARIX_SIM_FABRIC_STATUS_FULL
         else ATARIX_SIM_FABRIC_STATUS_OK) \<and>
    (if r = ATARIX_SIM_FABRIC_STATUS_OK
     then (\<forall>k. atarix_sim_fabric_lookup (Some f') k =
             (if k = node_id n then Some (Some a) else atarix_sim_fabric_lookup (Some f) k)) \<and>
          atarix_sim_fabric_node_count (Some f') = Suc (atarix_sim_fabric_node_count (Some f))
     else f' = f) \<and>
    distinct (fabric_ids f') \<and> length (fabric_ids f') \<le> 256"
proof -
  let ?s = "\<lparr>slot_node_id = node_id n, slot_node = Some a\<rparr>"
  have ok: "fabric_ok f" using assms(1,2) by (rule fabric_calls.inv_reached)
  obtain r f' where p: "attach_slot ?s f = (r, f')" by (cases "attach_slot ?s f")
  have at: "atarix_sim_fabric_attach st (Some f) (Some a) = Some (r, Some f')"
    using attach_eq [where st = st, OF ok assms(3)] p by simp
  have ok': "fabric_ok f'" using fabric.insert_keeps [OF ok, of ?s] p by simp
  have r: "r = (if fabric_map f (node_id n) \<noteq> None then ATARIX_SIM_FABRIC_STATUS_DUPLICATE_NODE
      else if node_count f = 256 then ATARIX_SIM_FABRIC_STATUS_FULL else ATARIX_SIM_FABRIC_STATUS_OK)"
    using p ok unfolding fabric_map_attached [OF ok]
    by (auto simp: attach_slot_def fabric_ok_def split: if_splits)
  have "fabric_map f' k = (if k = node_id n then Some a else fabric_map f k)" "node_count f' = Suc (node_count f)"
    if "r = ATARIX_SIM_FABRIC_STATUS_OK" for k
    using fabric_map_attach [OF ok, of ?s k] p that by (auto simp: attach_slot_def split: if_splits)
  moreover have "f' = f" if "r \<noteq> ATARIX_SIM_FABRIC_STATUS_OK"
    using attach_slot_fail [of ?s f] p that by simp
  moreover have "distinct (fabric_ids f')" "length (fabric_ids f') \<le> 256"
    using ok' by (auto simp: fabric_ok_def fabric_ids_def)
  ultimately show ?thesis
    using at r by (auto simp: lookup_eq [OF ok] lookup_eq [OF ok'] atarix_sim_fabric_node_count_def)
qed

definition sample_store :: node_store where
  "sample_store =
     [0 \<mapsto> \<lparr>node_id = 0x0100, node_name = Some ''cpu0'', tx_count = 0, rx_count = 0\<rparr>,
      1 \<mapsto> \<lparr>node_id = 0x0101, node_name = Some ''cpu1'', tx_count = 0, rx_count = 0\<rparr>]"

definition empty_fabric :: atarix_sim_fabric where
  "empty_fabric = \<lparr>slots = replicate 256 \<lparr>slot_node_id = 0, slot_node = None\<rparr>, node_count = 0\<rparr>"

lemma empty_fabric_start: "fabric_start empty_fabric"
  by (auto simp: fabric_start_def atarix_sim_fabric_init_def empty_fabric_def intro: exI [of _ empty_fabric])

theorem fabric_attach_lookup_witness:
  "\<exists>f'. atarix_sim_fabric_attach sample_store (Some empty_fabric) (Some 1)
      = Some (ATARIX_SIM_FABRIC_STATUS_OK, Some f') \<and>
    atarix_sim_fabric_lookup (Some f') 0x0101 = Some (Some 1) \<and>
    atarix_sim_fabric_lookup (Some f') 0x0100 = Some None"
proof -
  have "atarix_sim_fabric_lookup (Some empty_fabric) k = Some None" for k
    by (simp add: atarix_sim_fabric_lookup_def empty_fabric_def array_scan.simps)
  moreover have "sample_store 1 = Some \<lparr>node_id = 0x0101, node_name = Some ''cpu1'', tx_count = 0, rx_count = 0\<rparr>"
    by (simp add: sample_store_def)
  moreover have "atarix_sim_fabric_node_count (Some empty_fabric) = 0"
    by (simp add: atarix_sim_fabric_node_count_def empty_fabric_def)
  ultimately show ?thesis
    using fabric_attach_lookup [OF empty_fabric_start rtranclp.rtrancl_refl, of sample_store 1] by auto
qed

end
