(* ===== verification/Sim_Mailbox.thy ===== *)
theory Sim_Mailbox
  imports Mailbox Sim_Fabric
begin

text \<open>
  Mailbox traffic between simulated nodes: \<open>include/atarix/sim_mailbox.h\<close> and
  \<open>src/sim/sim_mailbox.c\<close>. A packet keeps a pointer to the sender's payload, not a copy; \<open>pk_payload\<close> is
  what that pointer reads when the packet is received, so a payload changed after sending is a packet
  with a changed \<open>pk_payload\<close>. Node pointers are addresses in the store of \<open>Sim_Fabric\<close>.
\<close>

section \<open>Data and operations\<close>

record atarix_sim_mailbox_packet =
  pk_header :: atarix_mailbox_header_v1
  pk_payload :: "bytes option"
  pk_payload_length :: nat

record atarix_sim_mailbox_endpoint =
  ep_node :: node_ptr
  rx_window :: atarix_mailbox_sequence_window

definition atarix_sim_mailbox_endpoint_init ::
  "atarix_sim_mailbox_endpoint option \<Rightarrow> node_ptr \<Rightarrow> atarix_sim_mailbox_endpoint option" where
  "atarix_sim_mailbox_endpoint_init endpoint node =
     (case endpoint of
        None \<Rightarrow> None
      | Some e \<Rightarrow> Some (e\<lparr>ep_node := node, rx_window := \<lparr>last_sequence = 0, initialized = 0\<rparr>\<rparr>))"

definition atarix_sim_mailbox_send ::
  "node_store \<Rightarrow> node_ptr \<Rightarrow> atarix_sim_mailbox_packet option \<Rightarrow> u16 \<Rightarrow> u32 \<Rightarrow> bytes option \<Rightarrow> u16
    \<Rightarrow> (atarix_mailbox_status \<times> node_store \<times> atarix_sim_mailbox_packet option) option" where
  "atarix_sim_mailbox_send st source packet type sequence payload payload_length =
     (if source = None \<or> packet = None \<or> payload = None \<and> payload_length \<noteq> 0
      then Some (ATARIX_MAILBOX_STATUS_NULL, st, packet)
      else do {
        let pk = the packet;
        (status, header) \<leftarrow>
          atarix_mailbox_build_header (Some (pk_header pk)) type sequence payload payload_length;
        let pk = pk\<lparr>pk_header := the header\<rparr>;
        if status \<noteq> ATARIX_MAILBOX_STATUS_OK then Some (status, st, Some pk)
        else do {
          let pk = pk\<lparr>pk_payload := payload, pk_payload_length := unat payload_length\<rparr>;
          st \<leftarrow> atarix_sim_node_record_tx st source;
          Some (ATARIX_MAILBOX_STATUS_OK, st, Some pk)
        }
      })"

definition atarix_sim_mailbox_receive ::
  "node_store \<Rightarrow> atarix_sim_mailbox_endpoint option \<Rightarrow> atarix_sim_mailbox_packet option
    \<Rightarrow> (atarix_mailbox_status \<times> node_store \<times> atarix_sim_mailbox_endpoint option) option" where
  "atarix_sim_mailbox_receive st destination packet =
     (case (destination, packet) of
        (Some d, Some pk) \<Rightarrow>
          if ep_node d = None then Some (ATARIX_MAILBOX_STATUS_NULL, st, destination)
          else do {
            status \<leftarrow> atarix_mailbox_validate_header (Some (pk_header pk)) (pk_payload pk)
                       (pk_payload_length pk);
            if status \<noteq> ATARIX_MAILBOX_STATUS_OK then Some (status, st, destination)
            else
              let (status, window) =
                atarix_mailbox_sequence_accept (Some (rx_window d)) (mh_sequence (pk_header pk));
                  d = d\<lparr>rx_window := the window\<rparr> in
              if status \<noteq> ATARIX_MAILBOX_STATUS_OK then Some (status, st, Some d)
              else do {
                st \<leftarrow> atarix_sim_node_record_rx st (ep_node d);
                Some (ATARIX_MAILBOX_STATUS_OK, st, Some d)
              }
          }
      | _ \<Rightarrow> Some (ATARIX_MAILBOX_STATUS_NULL, st, destination))"

section \<open>One packet\<close>

text \<open>A packet whose payload pointer covers its length.\<close>

definition packet_ok :: "atarix_sim_mailbox_packet \<Rightarrow> bool" where
  "packet_ok pk \<longleftrightarrow> pk_payload_length pk \<le> length (payload_bytes (pk_payload pk))"

definition packet_valid :: "atarix_sim_mailbox_packet \<Rightarrow> bool" where
  "packet_valid pk \<longleftrightarrow> atarix_mailbox_validate_header (Some (pk_header pk)) (pk_payload pk)
     (pk_payload_length pk) = Some ATARIX_MAILBOX_STATUS_OK"

lemma receive_cases:
  assumes "packet_ok pk" "ep_node d = Some a" "st a = Some n"
  obtains (accepted) w where "packet_valid pk"
      "atarix_mailbox_sequence_accept (Some (rx_window d)) (mh_sequence (pk_header pk))
        = (ATARIX_MAILBOX_STATUS_OK, Some w)"
      "atarix_sim_mailbox_receive st (Some d) (Some pk) =
        Some (ATARIX_MAILBOX_STATUS_OK, st(a \<mapsto> n\<lparr>rx_count := rx_count n + 1\<rparr>), Some (d\<lparr>rx_window := w\<rparr>))"
  | (refused) status where "status \<noteq> ATARIX_MAILBOX_STATUS_OK" "packet_valid pk"
      "atarix_mailbox_sequence_accept (Some (rx_window d)) (mh_sequence (pk_header pk))
        = (status, Some (rx_window d))"
      "atarix_sim_mailbox_receive st (Some d) (Some pk) = Some (status, st, Some d)"
  | (invalid) status where "status \<noteq> ATARIX_MAILBOX_STATUS_OK" "\<not> packet_valid pk"
      "atarix_mailbox_validate_header (Some (pk_header pk)) (pk_payload pk) (pk_payload_length pk) = Some status"
      "atarix_sim_mailbox_receive st (Some d) (Some pk) = Some (status, st, Some d)"
proof -
  obtain v where v: "atarix_mailbox_validate_header (Some (pk_header pk)) (pk_payload pk)
      (pk_payload_length pk) = Some v"
    using validate_header_iff assms(1) unfolding packet_ok_def by blast
  obtain status w where s: "atarix_mailbox_sequence_accept (Some (rx_window d)) (mh_sequence (pk_header pk))
      = (status, Some w)"
    using accept_Some by blast
  have same: "w = rx_window d" if "status \<noteq> ATARIX_MAILBOX_STATUS_OK"
    using s that by (auto simp: atarix_mailbox_sequence_accept_def split: if_splits)
  show ?thesis
  proof (cases "v = ATARIX_MAILBOX_STATUS_OK")
    case False
    with v assms show ?thesis
      by (intro invalid) (simp_all add: packet_valid_def atarix_sim_mailbox_receive_def)
  next
    case valid: True
    show ?thesis
    proof (cases "status = ATARIX_MAILBOX_STATUS_OK")
      case True
      with valid v s assms show ?thesis
        by (intro accepted [of w])
           (simp_all add: packet_valid_def atarix_sim_mailbox_receive_def atarix_sim_node_record_rx_def)
    next
      case False
      with valid v s same assms show ?thesis
        by (intro refused [of status]) (simp_all add: packet_valid_def atarix_sim_mailbox_receive_def)
    qed
  qed
qed

lemma send_ok:
  assumes "st a = Some n" "atarix_mailbox_message_type_known type" "length payload \<le> 4096"
  shows "\<exists>pk'. atarix_sim_mailbox_send st (Some a) (Some pk) type sequence (Some payload)
      (of_nat (length payload)) =
      Some (ATARIX_MAILBOX_STATUS_OK, st(a \<mapsto> n\<lparr>tx_count := tx_count n + 1\<rparr>), Some pk') \<and>
    pk_payload pk' = Some payload \<and> pk_payload_length pk' = length payload \<and>
    mh_sequence (pk_header pk') = sequence \<and> packet_ok pk' \<and> packet_valid pk'"
proof -
  let ?n = "of_nat (length payload) :: u16"
  have n: "unat ?n = length payload" using assms(3) by (simp add: unat_of_nat_small)
  then have le: "?n \<le> 4096" using assms(3) by (simp add: word_le_nat_alt)
  note b = build_header_ok [OF assms(2) le, of "Some payload" "pk_header pk" sequence]
  show ?thesis
    using assms(1,2) b n le validate_header_iff [of "length payload" "Some payload"]
    by (auto simp: atarix_sim_mailbox_send_def atarix_sim_node_record_tx_def payload_bytes_def
        packet_ok_def packet_valid_def atarix_mailbox_validate_header_def atarix_mailbox_crc32_eq not_less)
qed

section \<open>A stream of packets\<close>

text \<open>Receiving packets one after the other: the sequence numbers delivered, the store and the endpoint.\<close>

fun receive_all ::
  "node_store \<Rightarrow> atarix_sim_mailbox_endpoint \<Rightarrow> atarix_sim_mailbox_packet list
    \<Rightarrow> (u32 list \<times> node_store \<times> atarix_sim_mailbox_endpoint) option" where
  "receive_all st d [] = Some ([], st, d)"
| "receive_all st d (pk # pks) = do {
     (status, st, d') \<leftarrow> atarix_sim_mailbox_receive st (Some d) (Some pk);
     (acc, st, d'') \<leftarrow> receive_all st (the d') pks;
     Some (if status = ATARIX_MAILBOX_STATUS_OK then mh_sequence (pk_header pk) # acc else acc, st, d'')
   }"

lemma accept_stream_fresh:
  assumes "initialized w = 0" "accept_stream w ss = (acc, w')"
  shows "\<exists>first :: u32. map unat acc = [unat first..<unat first + length acc]"
proof (cases ss)
  case Nil
  with assms(2) show ?thesis by simp
next
  case (Cons s rest)
  let ?w = "w\<lparr>last_sequence := s, initialized := 1\<rparr>"
  have "atarix_mailbox_sequence_accept (Some w) s = (ATARIX_MAILBOX_STATUS_OK, Some ?w)"
    using assms(1) by (simp add: atarix_mailbox_sequence_accept_def)
  with assms(2) Cons obtain acc1 where acc: "acc = s # acc1" and r: "accept_stream ?w rest = (acc1, w')"
    by (auto split: prod.splits)
  have "map unat acc1 = [Suc (unat s)..<Suc (unat s) + length acc1]"
    using accept_stream_run [OF _ r] by simp
  then have "map unat acc = [unat s..<unat s + length acc]" using acc by (simp add: upt_rec)
  then show ?thesis by blast
qed

lemma receive_all_stream:
  assumes "ep_node d = Some a" "st a = Some n" "\<forall>pk \<in> set pks. packet_ok pk"
  shows "receive_all st d pks =
    (case accept_stream (rx_window d) (map (\<lambda>pk. mh_sequence (pk_header pk)) (filter packet_valid pks)) of
       (acc, w) \<Rightarrow> Some (acc, st(a \<mapsto> n\<lparr>rx_count := rx_count n + of_nat (length acc)\<rparr>), d\<lparr>rx_window := w\<rparr>))"
  using assms
proof (induction pks arbitrary: st d n)
  case Nil
  then show ?case by (auto simp: fun_eq_iff)
next
  case (Cons pk pks)
  have ok: "packet_ok pk" "\<forall>pk \<in> set pks. packet_ok pk" using Cons.prems(3) by simp_all
  show ?case
  proof (cases rule: receive_cases [where st = st, OF ok(1) Cons.prems(1) Cons.prems(2)])
    case (1 w)
    let ?st = "st(a \<mapsto> n\<lparr>rx_count := rx_count n + 1\<rparr>)" and ?d = "d\<lparr>rx_window := w\<rparr>"
    have "?st a = Some (n\<lparr>rx_count := rx_count n + 1\<rparr>)" "ep_node ?d = Some a"
      using Cons.prems(1) by simp_all
    note ih = Cons.IH [where st = ?st, OF this(2,1) ok(2)]
    obtain acc w2 where acc: "accept_stream w (map (\<lambda>pk. mh_sequence (pk_header pk)) (filter packet_valid pks)) = (acc, w2)"
      by (cases "accept_stream w (map (\<lambda>pk. mh_sequence (pk_header pk)) (filter packet_valid pks))")
    have "receive_all ?st ?d pks = Some (acc,
        st(a \<mapsto> n\<lparr>rx_count := rx_count n + of_nat (Suc (length acc))\<rparr>), d\<lparr>rx_window := w2\<rparr>)"
      unfolding ih using acc by (simp add: ac_simps)
    with 1 acc show ?thesis by (simp add: fun_eq_iff)
  next
    case (2 status)
    then show ?thesis using Cons.IH [where st = st, OF Cons.prems(1,2) ok(2)] by (simp split: prod.split)
  next
    case (3 status)
    then show ?thesis using Cons.IH [where st = st, OF Cons.prems(1,2) ok(2)] by (simp split: prod.split)
  qed
qed


section \<open>Properties\<close>

text \<open>
  C15. End-to-end delivery. Sending a payload of up to 4096 bytes with a known type from a live node
  succeeds and adds one to the node's transmit counter and changes nothing else in the store. The
  packet is then accepted by a freshly initialised endpoint of a live node, which adds one to that
  node's receive counter and nothing else; delivered a second time it is refused as DUPLICATE and
  leaves the store and the endpoint as they are.
\<close>

theorem sim_delivery:
  assumes "st a = Some n" "st b = Some m" "atarix_mailbox_message_type_known type"
    "length payload \<le> 4096" "atarix_sim_mailbox_endpoint_init (Some e) (Some b) = Some d"
  shows "\<exists>st1 pk st2 d2 m1.
    atarix_sim_mailbox_send st (Some a) (Some p) type sequence (Some payload) (of_nat (length payload))
      = Some (ATARIX_MAILBOX_STATUS_OK, st1, Some pk) \<and>
    st1 = st(a \<mapsto> n\<lparr>tx_count := tx_count n + 1\<rparr>) \<and> st1 b = Some m1 \<and>
    atarix_sim_mailbox_receive st1 (Some d) (Some pk) = Some (ATARIX_MAILBOX_STATUS_OK, st2, Some d2) \<and>
    st2 = st1(b \<mapsto> m1\<lparr>rx_count := rx_count m1 + 1\<rparr>) \<and> rx_count m1 = rx_count m \<and>
    atarix_sim_mailbox_receive st2 (Some d2) (Some pk)
      = Some (ATARIX_MAILBOX_STATUS_DUPLICATE, st2, Some d2)"
proof -
  let ?st1 = "st(a \<mapsto> n\<lparr>tx_count := tx_count n + 1\<rparr>)"
  from send_ok [where st = st, OF assms(1,3,4)] obtain pk where
    snd: "atarix_sim_mailbox_send st (Some a) (Some p) type sequence (Some payload)
      (of_nat (length payload)) = Some (ATARIX_MAILBOX_STATUS_OK, ?st1, Some pk)" and
    pk: "mh_sequence (pk_header pk) = sequence" "packet_valid pk" by blast
  obtain m1 where m1: "?st1 b = Some m1" "rx_count m1 = rx_count m"
    using assms(1,2) by (cases "a = b") auto
  have d: "ep_node d = Some b" "initialized (rx_window d) = 0"
    using assms(5) by (auto simp: atarix_sim_mailbox_endpoint_init_def)
  let ?d2 = "d\<lparr>rx_window := (rx_window d)\<lparr>last_sequence := sequence, initialized := 1\<rparr>\<rparr>"
  let ?st2 = "?st1(b \<mapsto> m1\<lparr>rx_count := rx_count m1 + 1\<rparr>)"
  have "atarix_sim_mailbox_receive ?st1 (Some d) (Some pk)
      = Some (ATARIX_MAILBOX_STATUS_OK, ?st2, Some ?d2)"
    using d m1(1) pk by (simp add: atarix_sim_mailbox_receive_def packet_valid_def
        atarix_mailbox_sequence_accept_def atarix_sim_node_record_rx_def)
  moreover have "atarix_sim_mailbox_receive ?st2 (Some ?d2) (Some pk)
      = Some (ATARIX_MAILBOX_STATUS_DUPLICATE, ?st2, Some ?d2)"
    using d pk by (simp add: atarix_sim_mailbox_receive_def packet_valid_def
        atarix_mailbox_sequence_accept_def)
  ultimately show ?thesis using snd m1 by blast
qed

definition blank_packet :: atarix_sim_mailbox_packet where
  "blank_packet = \<lparr>pk_header = \<lparr>mh_magic = 0, mh_type = 0, mh_length = 0, mh_sequence = 0, mh_crc32 = 0\<rparr>,
     pk_payload = None, pk_payload_length = 0\<rparr>"

definition endpoint_of :: "nat \<Rightarrow> atarix_sim_mailbox_endpoint" where
  "endpoint_of a = \<lparr>ep_node = Some a, rx_window = \<lparr>last_sequence = 0, initialized = 0\<rparr>\<rparr>"

lemma sample_nodes:
  "sample_store 0 = Some \<lparr>node_id = 0x0100, node_name = Some ''cpu0'', tx_count = 0, rx_count = 0\<rparr>"
  "sample_store 1 = Some \<lparr>node_id = 0x0101, node_name = Some ''cpu1'', tx_count = 0, rx_count = 0\<rparr>"
  by (simp_all add: sample_store_def)

theorem sim_delivery_witness:
  "\<exists>st1 pk st2 d2.
    atarix_sim_mailbox_send sample_store (Some 0) (Some blank_packet) ATARIX_MAILBOX_MESSAGE_PING 7
      (Some [1, 2]) 2 = Some (ATARIX_MAILBOX_STATUS_OK, st1, Some pk) \<and>
    atarix_sim_mailbox_receive st1 (Some (endpoint_of 1)) (Some pk)
      = Some (ATARIX_MAILBOX_STATUS_OK, st2, Some d2) \<and>
    map_option rx_count (st2 1) = Some 1"
proof -
  have known: "atarix_mailbox_message_type_known ATARIX_MAILBOX_MESSAGE_PING"
    by (simp add: atarix_mailbox_message_type_known_def)
  have ini: "atarix_sim_mailbox_endpoint_init (Some (endpoint_of 1)) (Some 1) = Some (endpoint_of 1)"
    by (simp add: atarix_sim_mailbox_endpoint_init_def endpoint_of_def)
  show ?thesis
    using sim_delivery [where st = sample_store and payload = "[1, 2]" and p = blank_packet and sequence = 7,
        OF sample_nodes known _ ini]
    by (auto simp: sample_nodes)
qed

text \<open>
  C14. Receiving any sequence of packets, valid or not, at a fresh endpoint of a live node never reads
  outside a payload; the packets delivered are exactly those the sequence window accepts among the
  valid ones, their sequence numbers are consecutive and distinct, the node's receive counter grows by
  their number modulo \<open>2\<^sup>3\<^sup>2\<close>, and no other node changes.
\<close>

theorem sim_receive_stream:
  assumes "st a = Some n" "\<forall>pk \<in> set pks. packet_ok pk"
    "atarix_sim_mailbox_endpoint_init (Some e) (Some a) = Some d"
  shows "\<exists>acc d' (first :: u32). receive_all st d pks =
      Some (acc, st(a \<mapsto> n\<lparr>rx_count := rx_count n + of_nat (length acc)\<rparr>), d') \<and>
    acc = fst (accept_stream (rx_window d) (map (\<lambda>pk. mh_sequence (pk_header pk)) (filter packet_valid pks))) \<and>
    map unat acc = [unat first..<unat first + length acc] \<and> distinct acc"
proof -
  let ?ss = "map (\<lambda>pk. mh_sequence (pk_header pk)) (filter packet_valid pks)"
  have d: "ep_node d = Some a" "initialized (rx_window d) = 0"
    using assms(3) by (auto simp: atarix_sim_mailbox_endpoint_init_def)
  obtain acc w where r: "accept_stream (rx_window d) ?ss = (acc, w)" by (cases "accept_stream (rx_window d) ?ss")
  have all: "receive_all st d pks =
      Some (acc, st(a \<mapsto> n\<lparr>rx_count := rx_count n + of_nat (length acc)\<rparr>), d\<lparr>rx_window := w\<rparr>)"
    using receive_all_stream [where st = st, OF d(1) assms(1,2)] r by simp
  obtain first :: u32 where run: "map unat acc = [unat first..<unat first + length acc]"
    using accept_stream_fresh [OF d(2) r] by blast
  then have "distinct (map unat acc)" by simp
  then have "distinct acc" by (simp add: distinct_map)
  with all run r show ?thesis by auto
qed

theorem sim_receive_stream_witness:
  "\<exists>st' d'. receive_all sample_store (endpoint_of 1) [blank_packet, blank_packet] = Some ([], st', d')"
proof -
  have invalid: "\<not> packet_valid blank_packet"
    by (simp add: packet_valid_def atarix_mailbox_validate_header_def blank_packet_def)
  have ini: "atarix_sim_mailbox_endpoint_init (Some (endpoint_of 1)) (Some 1) = Some (endpoint_of 1)"
    by (simp add: atarix_sim_mailbox_endpoint_init_def endpoint_of_def)
  have "\<forall>pk \<in> set [blank_packet, blank_packet]. packet_ok pk"
    by (simp add: packet_ok_def blank_packet_def)
  from sim_receive_stream [where st = sample_store, OF sample_nodes(2) this ini] invalid
  show ?thesis by auto
qed

end
