(* ===== verification/Sim_Network.thy ===== *)
theory Sim_Network
  imports Sim_Mailbox
begin

text \<open>
  Simulated nodes on an unreliable network. \<open>sim_mailbox.c\<close> hands a packet from the sender to whoever calls
  the receiver; here everything that can happen between the two calls is a step of a transition system:
  packets are lost, repeated and reordered, their payload is damaged, and any node sends to any
  endpoint. The invariant relates what the endpoints accepted to what was sent.
\<close>

section \<open>The network\<close>

record network =
  net_store :: node_store
  net_ports :: "(atarix_sim_mailbox_endpoint \<times> atarix_sim_mailbox_packet list) list"
  net_sent :: "(nat \<times> atarix_sim_mailbox_packet) list"

text \<open>
  What reaches the receiver: the packet as sent, or with a window of at most four bytes of the payload
  replaced. A header is delivered as it was built: its checksum does not cover it.
\<close>

inductive damaged :: "atarix_sim_mailbox_packet \<Rightarrow> atarix_sim_mailbox_packet \<Rightarrow> bool" where
  intact: "damaged pk pk"
| burst: "pk_payload pk = Some (pre @ xs @ post) \<Longrightarrow> length ys = length xs \<Longrightarrow> length xs \<le> 4 \<Longrightarrow>
    damaged pk (pk\<lparr>pk_payload := Some (pre @ ys @ post)\<rparr>)"

text \<open>
  A node calls \<open>atarix_sim_mailbox_send\<close> with a readable payload, or some packet sent earlier is passed to
  \<open>atarix_sim_mailbox_receive\<close> at some endpoint. Losing a packet is never delivering it.
\<close>

inductive net_step :: "network \<Rightarrow> network \<Rightarrow> bool" where
  net_send: "atarix_sim_mailbox_send (net_store s) (Some a) (Some p) type sequence payload len
      = Some (status, st, Some pk) \<Longrightarrow> unat len \<le> length (payload_bytes payload) \<Longrightarrow>
    net_step s (s\<lparr>net_store := st,
      net_sent := (if status = ATARIX_MAILBOX_STATUS_OK then (a, pk) # net_sent s else net_sent s)\<rparr>)"
| net_deliver: "i < length (net_ports s) \<Longrightarrow> net_ports s ! i = (d, acc) \<Longrightarrow> (a, q) \<in> set (net_sent s) \<Longrightarrow>
    damaged q pk \<Longrightarrow>
    atarix_sim_mailbox_receive (net_store s) (Some d) (Some pk) = Some (status, st, Some d') \<Longrightarrow>
    net_step s (s\<lparr>net_store := st, net_ports := (net_ports s)
      [i := (d', if status = ATARIX_MAILBOX_STATUS_OK then acc @ [pk] else acc)]\<rparr>)"

text \<open>A network before any message: freshly initialised endpoints of live nodes.\<close>

definition net_start :: "node_store \<Rightarrow> network \<Rightarrow> bool" where
  "net_start st s \<longleftrightarrow> net_store s = st \<and> net_sent s = [] \<and>
     (\<forall>(d, acc) \<in> set (net_ports s). acc = [] \<and>
        (\<exists>e b. st b \<noteq> None \<and> atarix_sim_mailbox_endpoint_init (Some e) (Some b) = Some d))"

section \<open>What a packet delivers\<close>

definition delivered :: "atarix_sim_mailbox_packet \<Rightarrow> atarix_mailbox_header_v1 \<times> bytes" where
  "delivered pk = (pk_header pk, take (pk_payload_length pk) (payload_bytes (pk_payload pk)))"

lemma packet_valid_iff:
  assumes "packet_ok pk"
  shows "packet_valid pk \<longleftrightarrow>
    mh_magic (pk_header pk) = ATARIX_MAILBOX_MAGIC_V1 \<and>
    atarix_mailbox_message_type_known (mh_type (pk_header pk)) \<and> pk_payload_length pk \<le> 4096 \<and>
    unat (mh_length (pk_header pk)) = pk_payload_length pk \<and>
    mh_crc32 (pk_header pk) = crc_of mailbox_crc_bit (snd (delivered pk))"
  using validate_header_iff [OF assms [unfolded packet_ok_def], of "pk_header pk"]
  by (auto simp: packet_valid_def delivered_def)

lemma damaged_ok: "damaged q pk \<Longrightarrow> packet_ok q \<Longrightarrow> packet_ok pk"
  by (auto elim!: damaged.cases simp: packet_ok_def payload_bytes_def)

text \<open>A damaged packet that still validates delivers what was sent.\<close>

lemma damaged_delivered:
  assumes "damaged q pk" "packet_ok q" "packet_valid q" "packet_valid pk"
  shows "delivered pk = delivered q"
  using assms(1)
proof cases
  case (burst pre xs post ys)
  let ?n = "pk_payload_length q"
  have "crc_of mailbox_crc_bit (snd (delivered pk)) = crc_of mailbox_crc_bit (snd (delivered q))"
    using assms packet_valid_iff damaged_ok [OF assms(1,2)] burst(1) by simp
  then have "take (?n - length pre) ys = take (?n - length pre) xs"
    using burst iso.burst_detected [of "take (?n - length pre) ys" "take (?n - length pre) xs"
        "take ?n pre" "take (?n - (length pre + length xs)) post"]
    by (auto simp: delivered_def payload_bytes_def min_le_iff_disj)
  with burst show ?thesis by (simp add: delivered_def payload_bytes_def)
qed simp

section \<open>Sending\<close>

lemma send_cases:
  assumes "atarix_sim_mailbox_send st (Some a) (Some p) type sequence payload len = Some (status, st', Some pk)"
    "unat len \<le> length (payload_bytes payload)"
  obtains (sent) n where "status = ATARIX_MAILBOX_STATUS_OK" "st a = Some n"
      "st' = st(a \<mapsto> n\<lparr>tx_count := tx_count n + 1\<rparr>)" "packet_ok pk" "packet_valid pk"
  | (refused) "status \<noteq> ATARIX_MAILBOX_STATUS_OK" "st' = st"
proof (cases "atarix_mailbox_message_type_known type \<and> len \<le> ATARIX_MAILBOX_MAX_PAYLOAD_V1")
  case True
  note b = build_header_ok [OF True [THEN conjunct1] True [THEN conjunct2] assms(2), of "pk_header p" sequence]
  show ?thesis
  proof (cases "payload = None \<and> len \<noteq> 0")
    case True
    with assms show ?thesis by (intro refused) (auto simp: atarix_sim_mailbox_send_def)
  next
    case False
    with assms b obtain n where "st a = Some n" and s: "status = ATARIX_MAILBOX_STATUS_OK"
      "st' = st(a \<mapsto> n\<lparr>tx_count := tx_count n + 1\<rparr>)" and pk: "pk = p\<lparr>pk_header := (pk_header p)\<lparr>
        mh_magic := ATARIX_MAILBOX_MAGIC_V1, mh_type := type, mh_length := len, mh_sequence := sequence,
        mh_crc32 := crc_of mailbox_crc_bit (take (unat len) (payload_bytes payload))\<rparr>,
        pk_payload := payload, pk_payload_length := unat len\<rparr>"
      by (auto simp: atarix_sim_mailbox_send_def atarix_sim_node_record_tx_def bind_eq_Some_conv)
    moreover have ok: "packet_ok pk" using assms(2) pk by (simp add: packet_ok_def)
    moreover have "packet_valid pk"
      using True pk unfolding packet_valid_iff [OF ok] by (simp add: delivered_def word_le_nat_alt)
    ultimately show ?thesis by (intro sent)
  qed
next
  case False
  with assms show ?thesis
    by (intro refused) (auto simp: atarix_sim_mailbox_send_def atarix_mailbox_build_header_def split: if_splits)
qed

section \<open>The invariant\<close>

text \<open>The messages sent by a node, and those accepted by its endpoints.\<close>

definition sent_by :: "nat \<Rightarrow> network \<Rightarrow> nat" where
  "sent_by a s = length (filter (\<lambda>x. fst x = a) (net_sent s))"

definition port_count :: "nat \<Rightarrow> atarix_sim_mailbox_endpoint \<times> atarix_sim_mailbox_packet list \<Rightarrow> nat" where
  "port_count a x = (if ep_node (fst x) = Some a then length (snd x) else 0)"

definition accepted_at :: "nat \<Rightarrow> network \<Rightarrow> nat" where
  "accepted_at a s = sum_list (map (port_count a) (net_ports s))"

text \<open>A window that has accepted the packets \<open>acc\<close>: their numbers are consecutive and it holds the last one.\<close>

abbreviation packet_sequence :: "atarix_sim_mailbox_packet \<Rightarrow> u32" where
  "packet_sequence pk \<equiv> mh_sequence (pk_header pk)"

definition window_run :: "atarix_mailbox_sequence_window \<Rightarrow> atarix_sim_mailbox_packet list \<Rightarrow> bool" where
  "window_run w acc \<longleftrightarrow> (if acc = [] then initialized w = 0 else initialized w \<noteq> 0 \<and>
     last_sequence w = packet_sequence (last acc) \<and>
     map (unat \<circ> packet_sequence) acc
       = [unat (packet_sequence (hd acc))..<unat (packet_sequence (hd acc)) + length acc])"

lemma window_run_last:
  "window_run w acc \<Longrightarrow> acc \<noteq> [] \<Longrightarrow>
    unat (last_sequence w) + 1 = unat (packet_sequence (hd acc)) + length acc"
  by (cases acc rule: rev_cases) (auto simp: window_run_def)

lemma window_run_accept:
  assumes "window_run w acc" "atarix_mailbox_sequence_accept (Some w) (packet_sequence pk)
      = (ATARIX_MAILBOX_STATUS_OK, Some w')"
  shows "window_run w' (acc @ [pk])"
proof (cases "acc = []")
  case True
  with assms show ?thesis by (auto simp: window_run_def atarix_mailbox_sequence_accept_def)
next
  case False
  with assms(1) have "initialized w \<noteq> 0" by (simp add: window_run_def)
  with accept_initialized [OF this assms(2)] assms(1) False window_run_last [OF assms(1) False]
  show ?thesis by (simp add: window_run_def)
qed

definition counted :: "node_store \<Rightarrow> network \<Rightarrow> bool" where
  "counted st s \<longleftrightarrow> (\<forall>a. net_store s a = map_option (\<lambda>n. n\<lparr>tx_count := tx_count n + of_nat (sent_by a s),
     rx_count := rx_count n + of_nat (accepted_at a s)\<rparr>) (st a))"

definition net_inv :: "node_store \<Rightarrow> network \<Rightarrow> bool" where
  "net_inv st s \<longleftrightarrow> counted st s \<and>
     (\<forall>(a, q) \<in> set (net_sent s). st a \<noteq> None \<and> packet_ok q \<and> packet_valid q) \<and>
     (\<forall>(d, acc) \<in> set (net_ports s). (\<exists>b. ep_node d = Some b \<and> st b \<noteq> None) \<and> window_run (rx_window d) acc \<and>
        (\<forall>pk \<in> set acc. \<exists>(a, q) \<in> set (net_sent s). delivered pk = delivered q))"

lemma net_inv_start:
  assumes "net_start st s"
  shows "net_inv st s"
proof -
  have "accepted_at a s = 0" "sent_by a s = 0" for a
    using assms by (auto simp: net_start_def accepted_at_def sent_by_def port_count_def sum_list_eq_0_iff)
  then have "counted st s" using assms by (simp add: counted_def net_start_def option.map_ident)
  then show ?thesis
    using assms by (auto simp: net_start_def net_inv_def window_run_def atarix_sim_mailbox_endpoint_init_def)
qed

lemma counted_live: "counted st s \<Longrightarrow> net_store s a = None \<longleftrightarrow> st a = None"
  by (simp add: counted_def)

lemma counted_send:
  assumes "counted st s" "net_store s a = Some n"
  shows "counted st (s\<lparr>net_store := (net_store s)(a \<mapsto> n\<lparr>tx_count := tx_count n + 1\<rparr>),
    net_sent := (a, pk) # net_sent s\<rparr>)"
  using assms by (auto simp: counted_def sent_by_def accepted_at_def ac_simps)

lemma sum_list_map_update:
  fixes f :: "'a \<Rightarrow> nat"
  shows "i < length xs \<Longrightarrow> f y = f (xs ! i) + k \<Longrightarrow>
    sum_list (map f (xs[i := y])) = sum_list (map f xs) + k"
  by (induction xs arbitrary: i) (auto split: nat.splits)

lemma counted_deliver:
  assumes "counted st s" "net_store s b = Some n" "i < length (net_ports s)" "net_ports s ! i = (d, acc)"
    "ep_node d = Some b" "ep_node d' = Some b"
  shows "counted st (s\<lparr>net_store := (net_store s)(b \<mapsto> n\<lparr>rx_count := rx_count n + 1\<rparr>),
    net_ports := (net_ports s)[i := (d', acc @ [pk])]\<rparr>)"
proof -
  have "sum_list (map (port_count a) ((net_ports s)[i := (d', acc @ [pk])]))
      = sum_list (map (port_count a) (net_ports s)) + (if a = b then 1 else 0)" for a
    by (rule sum_list_map_update [OF assms(3)]) (use assms(4,5,6) in \<open>simp add: port_count_def\<close>)
  with assms(1,2) show ?thesis by (auto simp: counted_def sent_by_def accepted_at_def ac_simps)
qed

lemma net_inv_port:
  assumes "net_inv st s" "i < length (net_ports s)" "net_ports s ! i = (d, acc)"
  obtains b n where "ep_node d = Some b" "net_store s b = Some n" "window_run (rx_window d) acc"
    "\<forall>pk \<in> set acc. \<exists>(a, q) \<in> set (net_sent s). delivered pk = delivered q"
proof -
  have "(d, acc) \<in> set (net_ports s)" using assms(2,3) nth_mem by fastforce
  with assms(1) obtain b where "ep_node d = Some b" "st b \<noteq> None" "window_run (rx_window d) acc"
    "\<forall>pk \<in> set acc. \<exists>(a, q) \<in> set (net_sent s). delivered pk = delivered q" "counted st s"
    by (auto simp: net_inv_def)
  with that counted_live [of st s b] show thesis by (metis not_Some_eq)
qed

lemma net_inv_ports:
  assumes "net_inv st s" "counted st t" "net_sent t = net_sent s" "net_ports t = (net_ports s)[i := (d, acc)]"
    "ep_node d = Some b" "st b \<noteq> None" "window_run (rx_window d) acc"
    "\<forall>pk \<in> set acc. \<exists>(a, q) \<in> set (net_sent s). delivered pk = delivered q"
  shows "net_inv st t"
proof -
  have "x = (d, acc) \<or> x \<in> set (net_ports s)" if "x \<in> set (net_ports t)" for x
    using that assms(4) set_update_subset_insert [of "net_ports s" i "(d, acc)"] by auto
  with assms(1,5-8) have "\<forall>(d, acc) \<in> set (net_ports t). (\<exists>b. ep_node d = Some b \<and> st b \<noteq> None) \<and>
      window_run (rx_window d) acc \<and> (\<forall>pk \<in> set acc. \<exists>(a, q) \<in> set (net_sent s). delivered pk = delivered q)"
    unfolding net_inv_def by blast
  with assms(1-3) show ?thesis by (simp add: net_inv_def)
qed

lemma net_inv_step:
  assumes "net_inv st s" "net_step s t"
  shows "net_inv st t"
  using assms(2)
proof cases
  case (net_send a p type sequence payload len status st' pk)
  from net_send(2,3) show ?thesis
  proof (cases rule: send_cases)
    case (sent n)
    have "counted st t" using net_send(1) sent assms(1) counted_send by (auto simp: net_inv_def)
    with net_send(1) sent assms(1) counted_live [of st s a] show ?thesis by (fastforce simp: net_inv_def)
  next
    case refused
    with net_send(1) assms(1) show ?thesis by simp
  qed
next
  case (net_deliver i d acc a q pk status st' d')
  from net_deliver(4) assms(1) have q: "packet_ok q" "packet_valid q" by (auto simp: net_inv_def)
  have ok: "packet_ok pk" using damaged_ok [OF net_deliver(5) q(1)] .
  from net_inv_port [OF assms(1) net_deliver(2,3)] obtain b n where
    b: "ep_node d = Some b" "net_store s b = Some n" and w: "window_run (rx_window d) acc"
    "\<forall>pk \<in> set acc. \<exists>(a, q) \<in> set (net_sent s). delivered pk = delivered q" by blast
  have live: "st b \<noteq> None" and c: "counted st s"
    using assms(1) b(2) counted_live [of st s b] by (auto simp: net_inv_def)
  have same: "(net_ports s)[i := (d, acc)] = net_ports s"
    using net_deliver(3) list_update_id by metis
  from ok b show ?thesis
  proof (cases rule: receive_cases)
    case (accepted w')
    then have t: "status = ATARIX_MAILBOX_STATUS_OK" "d' = d\<lparr>rx_window := w'\<rparr>"
      "st' = (net_store s)(b \<mapsto> n\<lparr>rx_count := rx_count n + 1\<rparr>)"
      using net_deliver(6) by simp_all
    have "delivered pk = delivered q" using damaged_delivered [OF net_deliver(5) q accepted(1)] .
    then show ?thesis
      using net_deliver(1,4) t b(1) w counted_deliver [OF c b(2) net_deliver(2,3) b(1), of d' pk]
        window_run_accept [OF w(1) accepted(2)]
      by (intro net_inv_ports [OF assms(1), of t i d' "acc @ [pk]" b]) (auto simp: live)
  next
    case (refused s')
    with net_deliver(1,6) same assms(1) show ?thesis by auto
  next
    case (invalid s')
    with net_deliver(1,6) same assms(1) show ?thesis by auto
  qed
qed

interpretation network: step_system "net_start st" net_step "net_inv st" for st
  by unfold_locales (auto intro: net_inv_start net_inv_step)

lemma net_delivery_defined:
  assumes "net_inv st s" "i < length (net_ports s)" "net_ports s ! i = (d, acc)" "(a, q) \<in> set (net_sent s)"
    "damaged q pk"
  shows "\<exists>status st' d'. atarix_sim_mailbox_receive (net_store s) (Some d) (Some pk) = Some (status, st', Some d') \<and>
    (pk = q \<and> (acc = [] \<or> unat (packet_sequence pk) = Suc (unat (packet_sequence (last acc))))
      \<longrightarrow> status = ATARIX_MAILBOX_STATUS_OK)"
proof -
  from assms(1,4) have q: "packet_ok q" "packet_valid q" by (auto simp: net_inv_def)
  from net_inv_port [OF assms(1-3)] obtain b n where
    b: "ep_node d = Some b" "net_store s b = Some n" and w: "window_run (rx_window d) acc" by blast
  have "fst (atarix_mailbox_sequence_accept (Some (rx_window d)) (packet_sequence pk)) = ATARIX_MAILBOX_STATUS_OK"
    if "acc = [] \<or> unat (packet_sequence pk) = Suc (unat (packet_sequence (last acc)))"
  proof (cases "acc = []")
    case True
    with w show ?thesis by (simp add: window_run_def atarix_mailbox_sequence_accept_def)
  next
    case False
    with that w have i: "initialized (rx_window d) \<noteq> 0"
      and next_seq: "unat (packet_sequence pk) = Suc (unat (last_sequence (rx_window d)))"
      by (auto simp: window_run_def)
    have "packet_sequence pk = last_sequence (rx_window d) + 1"
      using arg_cong [OF next_seq, of "of_nat :: nat \<Rightarrow> u32"] by (simp only: of_nat_unat ucast_id of_nat_Suc add.commute)
    moreover have "last_sequence (rx_window d) \<noteq> UINT32_MAX"
      using next_seq unsigned_less [of "packet_sequence pk", where 'a = nat] by auto
    ultimately show ?thesis using accept_in_order [OF i] by simp
  qed
  with damaged_ok [OF assms(5) q(1)] b show ?thesis
    by (cases rule: receive_cases [where d = d and st = "net_store s"]) (use q(2) in auto)
qed

section \<open>Properties\<close>

text \<open>
  C13. Safety and progress on an unreliable network. However messages between any number of nodes are
  sent, lost, repeated, reordered and damaged in windows of up to four payload bytes, each endpoint has
  accepted only messages that a live node sent, with their header and payload intact; the accepted
  sequence numbers are consecutive and no number is accepted twice; and the transmit and receive
  counters of every node have grown by the messages it sent and those its endpoints accepted, modulo
  \<open>2\<^sup>3\<^sup>2\<close>. Passing any damaged message to any endpoint stays inside its payload, and an undamaged one
  with the next number is accepted.
\<close>

theorem network_safety:
  assumes "net_start st s0" "net_step\<^sup>*\<^sup>* s0 s" "i < length (net_ports s)" "net_ports s ! i = (d, acc)"
  shows "(\<forall>pk \<in> set acc. \<exists>(a, q) \<in> set (net_sent s). st a \<noteq> None \<and> delivered pk = delivered q) \<and>
    (\<exists>first. map (unat \<circ> packet_sequence) acc = [first..<first + length acc]) \<and>
    distinct (map packet_sequence acc) \<and>
    (\<forall>a. net_store s a = map_option (\<lambda>n. n\<lparr>tx_count := tx_count n + of_nat (sent_by a s),
       rx_count := rx_count n + of_nat (accepted_at a s)\<rparr>) (st a)) \<and>
    (\<forall>(a, q) \<in> set (net_sent s). \<forall>pk. damaged q pk \<longrightarrow>
      (\<exists>status st' d'. atarix_sim_mailbox_receive (net_store s) (Some d) (Some pk) = Some (status, st', Some d') \<and>
        (pk = q \<and> (acc = [] \<or> unat (packet_sequence pk) = Suc (unat (packet_sequence (last acc))))
          \<longrightarrow> status = ATARIX_MAILBOX_STATUS_OK)))"
proof (intro conjI)
  have inv: "net_inv st s" using network.inv_reached [OF assms(1,2)] .
  from net_inv_port [OF inv assms(3,4)] have port: "window_run (rx_window d) acc"
    "\<forall>pk \<in> set acc. \<exists>(a, q) \<in> set (net_sent s). delivered pk = delivered q" by blast+
  show run: "\<exists>first. map (unat \<circ> packet_sequence) acc = [first..<first + length acc]"
    using port(1) by (cases "acc = []") (auto simp: window_run_def)
  then have "distinct (map unat (map packet_sequence acc))" by (auto simp: distinct_upt)
  then show "distinct (map packet_sequence acc)" by (simp only: distinct_map)
  have sent: "st a \<noteq> None" if "(a, q) \<in> set (net_sent s)" for a q using inv that by (auto simp: net_inv_def)
  show "\<forall>pk \<in> set acc. \<exists>(a, q) \<in> set (net_sent s). st a \<noteq> None \<and> delivered pk = delivered q"
    using port(2) sent by fast
  show "\<forall>a. net_store s a = map_option (\<lambda>n. n\<lparr>tx_count := tx_count n + of_nat (sent_by a s),
       rx_count := rx_count n + of_nat (accepted_at a s)\<rparr>) (st a)"
    using inv by (simp add: net_inv_def counted_def)
qed (use net_delivery_defined [OF network.inv_reached [OF assms(1,2)] assms(3,4)] in blast)

text \<open>Two nodes, one endpoint, and a message sent and delivered.\<close>

definition sample_network :: network where
  "sample_network = \<lparr>net_store = sample_store, net_ports = [(endpoint_of 1, [])], net_sent = []\<rparr>"

lemma sample_network_start: "net_start sample_store sample_network"
proof -
  have "atarix_sim_mailbox_endpoint_init (Some (endpoint_of 1)) (Some 1) = Some (endpoint_of 1)"
    by (simp add: atarix_sim_mailbox_endpoint_init_def endpoint_of_def)
  moreover have "sample_store 1 \<noteq> None" by (simp add: sample_nodes del: One_nat_def)
  ultimately show ?thesis unfolding net_start_def sample_network_def by auto
qed

lemma sample_network_run:
  obtains s d pk where "net_step\<^sup>*\<^sup>* sample_network s" "net_ports s = [(d, [pk])]"
    "packet_sequence pk = 7" "net_sent s = [(0, pk)]" "ep_node d = Some 1"
proof -
  have "atarix_mailbox_message_type_known ATARIX_MAILBOX_MESSAGE_PING"
    by (simp add: atarix_mailbox_message_type_known_def)
  from send_ok [where st = sample_store, OF sample_nodes(1) this, of "[1, 2]" blank_packet 7]
  obtain st pk where snd: "atarix_sim_mailbox_send sample_store (Some 0) (Some blank_packet)
      ATARIX_MAILBOX_MESSAGE_PING 7 (Some [1, 2]) 2 = Some (ATARIX_MAILBOX_STATUS_OK, st, Some pk)"
    and pk: "packet_sequence pk = 7" by auto
  let ?s = "sample_network\<lparr>net_store := st, net_sent := [(0, pk)]\<rparr>"
  have one: "net_step sample_network ?s"
    using net_send [of sample_network 0 blank_packet ATARIX_MAILBOX_MESSAGE_PING 7 "Some [1, 2]" 2
        ATARIX_MAILBOX_STATUS_OK st pk] snd
    by (simp add: sample_network_def payload_bytes_def)
  then have inv: "net_inv sample_store ?s"
    using network.inv_reached [OF sample_network_start] by blast
  have port: "net_ports ?s ! 0 = (endpoint_of 1, [])" "0 < length (net_ports ?s)"
    by (simp_all add: sample_network_def)
  from net_delivery_defined [OF inv port(2,1) _ intact, of 0 pk] obtain st' d where
    rcv: "atarix_sim_mailbox_receive st (Some (endpoint_of 1)) (Some pk)
      = Some (ATARIX_MAILBOX_STATUS_OK, st', Some d)" by auto
  have two: "net_step ?s (?s\<lparr>net_store := st', net_ports := [(d, [pk])]\<rparr>)"
    using net_deliver [OF port(2,1) _ intact, of 0 pk] rcv by (fastforce simp: sample_network_def)
  have "ep_node d = Some 1"
    using rcv by (auto simp: atarix_sim_mailbox_receive_def endpoint_of_def bind_eq_Some_conv Let_def
        split: if_splits prod.splits)
  with pk show thesis
    by (intro that [OF rtranclp.rtrancl_into_rtrancl [OF r_into_rtranclp [of net_step, OF one] two]]) simp_all
qed

theorem network_safety_witness:
  "\<exists>s d pk. net_step\<^sup>*\<^sup>* sample_network s \<and> net_ports s = [(d, [pk])] \<and> net_sent s = [(0, pk)] \<and>
    map_option tx_count (net_store s 0) = Some 1 \<and> map_option rx_count (net_store s 1) = Some 1"
proof -
  obtain s d pk where s: "net_step\<^sup>*\<^sup>* sample_network s" "net_ports s = [(d, [pk])]"
    "net_sent s = [(0, pk)]" "ep_node d = Some 1" using sample_network_run by metis
  have "net_ports s ! 0 = (d, [pk])" "0 < length (net_ports s)" using s(2) by simp_all
  from network_safety [OF sample_network_start s(1) this(2,1)]
  have "map_option tx_count (net_store s 0) = Some 1 \<and> map_option rx_count (net_store s 1) = Some 1"
    using s(2,3,4) by (simp add: sample_nodes sent_by_def accepted_at_def port_count_def del: One_nat_def)
  with s show ?thesis by blast
qed

end
