(* ===== verification/Sim_Bib.thy ===== *)
theory Sim_Bib
  imports Bib_Reader
begin

text \<open>
  The simulator's boot information: \<open>include/atarix/sim_bib.h\<close> and \<open>src/sim/sim_bib.c\<close>. A capture builds
  an image with one service directory and one memory map reference in the caller's buffer; what the
  reader finds in it is what was captured.
\<close>

section \<open>Operations\<close>

abbreviation ATARIX_SIM_BIB_CAPTURE_SIZE :: nat where "ATARIX_SIM_BIB_CAPTURE_SIZE \<equiv> 176"

record atarix_sim_bib_capture_config =
  cap_header_flags :: u16
  cap_boot_id :: u64
  cap_producer_id :: u64
  cap_created_counter :: u64
  cap_service_object_id :: u64
  cap_service_address :: u64
  cap_service_length :: u64
  cap_memory_object_id :: u64
  cap_memory_address :: u64
  cap_memory_length :: u64

text \<open>
  The result is the code, the contents of the buffer and \<open>*serialized_length\<close>. The builder is a local
  variable; \<open>atarix_bib_builder_init\<close> assigns all its fields or fails.
\<close>

definition local_builder :: atarix_bib_builder where
  "local_builder = \<lparr>bld_buffer = None, bld_capacity = 0, bld_length = 0, bld_tlv_count = 0, bld_sealed = 0\<rparr>"

definition atarix_sim_bib_capture ::
  "atarix_sim_bib_capture_config option \<Rightarrow> bytes option \<Rightarrow> nat \<Rightarrow> u32 option
    \<Rightarrow> (atarix_bib_builder_result \<times> bytes option \<times> u32 option) option" where
  "atarix_sim_bib_capture config buffer capacity serialized_length =
     (if config = None \<or> buffer = None \<or> serialized_length = None
      then Some (ATARIX_BIB_BUILDER_E_ARGUMENT, buffer, serialized_length)
      else do {
        let c = the config;
        (result, builder) \<leftarrow> atarix_bib_builder_init (Some local_builder) buffer capacity
          (cap_header_flags c) (cap_boot_id c) (cap_producer_id c) (cap_created_counter c);
        if result \<noteq> ATARIX_BIB_BUILDER_OK then Some (result, buffer, serialized_length)
        else do {
          (result, builder) \<leftarrow> atarix_bib_builder_add_reference builder
            ATARIX_BIB_TLV_SERVICE_DIRECTORY_REFERENCE ATARIX_BIB_TLV_FLAG_MANDATORY
            (cap_service_object_id c) (cap_service_address c) (cap_service_length c) 1 0;
          if result \<noteq> ATARIX_BIB_BUILDER_OK
          then Some (result, bld_buffer (the builder), serialized_length)
          else do {
            (result, builder) \<leftarrow> atarix_bib_builder_add_reference builder
              ATARIX_BIB_TLV_MEMORY_MAP_REFERENCE ATARIX_BIB_TLV_FLAG_MANDATORY
              (cap_memory_object_id c) (cap_memory_address c) (cap_memory_length c) 1 0;
            if result \<noteq> ATARIX_BIB_BUILDER_OK
            then Some (result, bld_buffer (the builder), serialized_length)
            else do {
              (result, builder, serialized_length) \<leftarrow> atarix_bib_builder_seal builder serialized_length;
              Some (result, bld_buffer (the builder), serialized_length)
            }
          }
        }
      })"

section \<open>The image of a capture\<close>

definition capture_ids :: "atarix_sim_bib_capture_config \<Rightarrow> bib_ids" where
  "capture_ids c = \<lparr>ids_flags = cap_header_flags c, ids_boot = cap_boot_id c,
     ids_producer = cap_producer_id c, ids_counter = cap_created_counter c\<rparr>"

definition service_tlv :: "atarix_sim_bib_capture_config \<Rightarrow> bib_tlv" where
  "service_tlv c = \<lparr>tlv_type = 1, tlv_flags = 1, tlv_payload =
     reference_bytes (cap_service_object_id c) (cap_service_address c) (cap_service_length c) 1 0\<rparr>"

definition memory_tlv :: "atarix_sim_bib_capture_config \<Rightarrow> bib_tlv" where
  "memory_tlv c = \<lparr>tlv_type = 2, tlv_flags = 1, tlv_payload =
     reference_bytes (cap_memory_object_id c) (cap_memory_address c) (cap_memory_length c) 1 0\<rparr>"

definition capture_tlvs :: "atarix_sim_bib_capture_config \<Rightarrow> bib_tlv list" where
  "capture_tlvs c = [service_tlv c, memory_tlv c]"

lemma capture_lengths [simp]:
  "record_length (service_tlv c) = 56" "record_length (memory_tlv c) = 56"
  "bib_length (capture_tlvs c) = 176" "bib_length [service_tlv c] = 120"
  by (simp_all add: record_length_def align8_def service_tlv_def memory_tlv_def capture_tlvs_def bib_length_def)

lemma add_captured:
  assumes "building h ts b" "t = \<lparr>tlv_type = type, tlv_flags = 1,
      tlv_payload = reference_bytes oid addr len 1 0\<rparr>"
  shows "if bib_length ts + record_length t \<le> bld_capacity b
    then \<exists>b'. atarix_bib_builder_add_reference (Some b) type 1 oid addr len 1 0
        = Some (ATARIX_BIB_BUILDER_OK, Some b') \<and> building h (ts @ [t]) b' \<and>
        bld_capacity b' = bld_capacity b
    else atarix_bib_builder_add_reference (Some b) type 1 oid addr len 1 0
        = Some (ATARIX_BIB_BUILDER_E_CAPACITY, Some b)"
proof -
  have f: "atarix_bib_tlv_flags_are_known 1" by (simp add: atarix_bib_tlv_flags_are_known_def)
  have "record_length t = 56" by (simp add: assms(2) record_length_def align8_def)
  moreover have "atarix_bib_builder_add_tlv (Some b) type 1 (Some (reference_bytes oid addr len 1 0)) 40
      \<noteq> Some (ATARIX_BIB_BUILDER_E_LENGTH, Some b)"
    using building_states [OF assms(1)] f
    by (simp add: atarix_bib_builder_add_tlv_def align8_u32_def Let_def bind_eq_Some_conv)
  ultimately show ?thesis
    using add_tlv_building [OF assms(1) f, of 40 "reference_bytes oid addr len 1 0" type] assms(2)
    by (auto simp: add_reference_eq split: if_splits)
qed

lemma capture_image:
  assumes "176 \<le> cap" "cap \<le> unat UINT32_MAX" "cap = length buf"
    and "atarix_bib_header_flags_are_known (cap_header_flags c)"
  shows "atarix_sim_bib_capture (Some c) (Some buf) cap (Some n) =
    Some (ATARIX_BIB_BUILDER_OK,
      Some (bib_image (capture_ids c) (capture_tlvs c) @ replicate (cap - 176) 0), Some 176)"
proof -
  have "64 \<le> cap" using assms(1) by simp
  from init_building [OF this assms(2-4)]
  obtain b0 where b0: "atarix_bib_builder_init (Some local_builder) (Some buf) cap (cap_header_flags c)
        (cap_boot_id c) (cap_producer_id c) (cap_created_counter c) = Some (ATARIX_BIB_BUILDER_OK, Some b0)"
      "bld_capacity b0 = cap" "building (capture_ids c) [] b0"
    unfolding capture_ids_def by blast
  from add_captured [OF b0(3) service_tlv_def] assms(1) b0(2)
  obtain b1 where b1: "atarix_bib_builder_add_reference (Some b0) 1 1 (cap_service_object_id c)
        (cap_service_address c) (cap_service_length c) 1 0 = Some (ATARIX_BIB_BUILDER_OK, Some b1)"
      "bld_capacity b1 = cap" "building (capture_ids c) [service_tlv c] b1"
    by auto
  from add_captured [OF b1(3) memory_tlv_def] assms(1) b1(2)
  obtain b2 where b2: "atarix_bib_builder_add_reference (Some b1) 2 1 (cap_memory_object_id c)
        (cap_memory_address c) (cap_memory_length c) 1 0 = Some (ATARIX_BIB_BUILDER_OK, Some b2)"
      "bld_capacity b2 = cap" "building (capture_ids c) (capture_tlvs c) b2"
    by (auto simp: capture_tlvs_def)
  from seal_building [OF b2(3), of "Some n"] show ?thesis
    by (auto simp: atarix_sim_bib_capture_def b0(1) b1(1) b2(1,2))
qed

lemma capture_too_small:
  assumes "64 \<le> cap" "cap < 176" "cap = length buf"
    and "atarix_bib_header_flags_are_known (cap_header_flags c)"
  shows "\<exists>rest. atarix_sim_bib_capture (Some c) (Some buf) cap (Some n)
    = Some (ATARIX_BIB_BUILDER_E_CAPACITY, rest, Some n)"
proof -
  have "cap \<le> unat UINT32_MAX" using assms(2) by simp
  from init_building [OF assms(1) this assms(3,4)]
  obtain b0 where b0: "atarix_bib_builder_init (Some local_builder) (Some buf) cap (cap_header_flags c)
        (cap_boot_id c) (cap_producer_id c) (cap_created_counter c) = Some (ATARIX_BIB_BUILDER_OK, Some b0)"
      "bld_capacity b0 = cap" "building (capture_ids c) [] b0"
    unfolding capture_ids_def by blast
  show ?thesis
  proof (cases "cap < 120")
    case True
    with add_captured [OF b0(3) service_tlv_def] b0(2) show ?thesis
      by (simp add: atarix_sim_bib_capture_def b0(1))
  next
    case False
    with add_captured [OF b0(3) service_tlv_def] b0(2)
    obtain b1 where b1: "atarix_bib_builder_add_reference (Some b0) 1 1 (cap_service_object_id c)
          (cap_service_address c) (cap_service_length c) 1 0 = Some (ATARIX_BIB_BUILDER_OK, Some b1)"
        "bld_capacity b1 = cap" "building (capture_ids c) [service_tlv c] b1"
      by auto
    from add_captured [OF b1(3) memory_tlv_def] assms(2) b1(2) show ?thesis
      by (simp add: atarix_sim_bib_capture_def b0(1) b1(1))
  qed
qed

section \<open>Reading it back\<close>

lemma capture_readable:
  "readable (capture_tlvs c) \<longleftrightarrow>
     unat (cap_service_address c) + unat (cap_service_length c) < 2 ^ 64 \<and>
     unat (cap_memory_address c) + unat (cap_memory_length c) < 2 ^ 64"
  by (auto simp: readable_def readable_tlv_def atarix_bib_tlv_flags_are_known_def known_type_def reference_bytes_at)
     (simp_all add: capture_tlvs_def service_tlv_def memory_tlv_def readable_tlv_def
       atarix_bib_tlv_flags_are_known_def known_type_def reference_bytes_at)

text \<open>The records a window accepts are those of the capture.\<close>

lemma capture_chain:
  "records_from (bib_image h (capture_tlvs c) @ z) 176 64 (tlv_views 64 (capture_tlvs c)) 176"
proof -
  have p: "bib_image h (capture_tlvs c) @ z = bib_header h (of_nat (bib_length (capture_tlvs c)))
      (bib_checksum h (capture_tlvs c)) (of_nat (length (capture_tlvs c))) @ (tlvs_bytes (capture_tlvs c) @ z)"
    by (simp only: bib_image_def append_assoc)
  show ?thesis
    unfolding p using tlv_views_chain [of "bib_header h (of_nat (bib_length (capture_tlvs c)))
      (bib_checksum h (capture_tlvs c)) (of_nat (length (capture_tlvs c)))" 64 "capture_tlvs c" 176 z]
    by (simp add: capture_tlvs_def) (simp add: service_tlv_def memory_tlv_def atarix_bib_tlv_flags_are_known_def)
qed

lemma capture_payloads:
  defines "rs \<equiv> \<lambda>c. tlv_views 64 (capture_tlvs c)"
  shows "rs c = [tlv_view 64 (service_tlv c), tlv_view 120 (memory_tlv c)]"
    "take 40 (drop 80 (bib_image h (capture_tlvs c) @ z)) = tlv_payload (service_tlv c)"
    "take 40 (drop 136 (bib_image h (capture_tlvs c) @ z)) = tlv_payload (memory_tlv c)"
proof -
  let ?H = "bib_header h (of_nat (bib_length (capture_tlvs c))) (bib_checksum h (capture_tlvs c))
    (of_nat (length (capture_tlvs c)))"
  have p: "bib_image h (capture_tlvs c) @ z = ?H @ (tlvs_bytes (capture_tlvs c) @ z)"
    by (simp only: bib_image_def append_assoc)
  show rs: "rs c = [tlv_view 64 (service_tlv c), tlv_view 120 (memory_tlv c)]"
    by (simp add: rs_def capture_tlvs_def)
  have at: "rec_payload (tlv_view 64 (service_tlv c)) = 80" "rec_payload (tlv_view 120 (memory_tlv c)) = 136"
    "length (tlv_payload (service_tlv c)) = 40" "length (tlv_payload (memory_tlv c)) = 40"
    "capture_tlvs c ! 0 = service_tlv c" "capture_tlvs c ! Suc 0 = memory_tlv c" "length (capture_tlvs c) = 2"
    by (simp_all add: tlv_view_def service_tlv_def memory_tlv_def capture_tlvs_def)
  show "take 40 (drop 80 (bib_image h (capture_tlvs c) @ z)) = tlv_payload (service_tlv c)"
    using tlv_views_nth(2) [of ?H 64 0 "capture_tlvs c" z] unfolding p
    by (simp add: rs [unfolded rs_def] at del: take_append drop_append)
  show "take 40 (drop 136 (bib_image h (capture_tlvs c) @ z)) = tlv_payload (memory_tlv c)"
    using tlv_views_nth(2) [of ?H 64 1 "capture_tlvs c" z] unfolding p
    by (simp add: rs [unfolded rs_def] at del: take_append drop_append)
qed

lemma capture_fields:
  fixes c h z
  defines "p \<equiv> bib_image h (capture_tlvs c) @ z"
  shows "u32_at p 16 = 176" "u32_at p 48 = 64" "u32_at p 52 = 2"
    "u64_at p 88 = cap_service_address c" "u64_at p 96 = cap_service_length c"
    "u64_at p 144 = cap_memory_address c" "u64_at p 152 = cap_memory_length c"
proof -
  have p: "p = bib_header h (of_nat (bib_length (capture_tlvs c)))
      (bib_checksum h (capture_tlvs c)) (of_nat (length (capture_tlvs c))) @ (tlvs_bytes (capture_tlvs c) @ z)"
    by (simp only: bib_image_def append_assoc p_def)
  show "u32_at p 16 = 176" "u32_at p 48 = 64" "u32_at p 52 = 2"
    unfolding p by (simp_all add: bib_header_at) (simp add: capture_tlvs_def)
  note pay = capture_payloads(2,3) [of h c z, folded p_def]
  show "u64_at p 88 = cap_service_address c" "u64_at p 96 = cap_service_length c"
    "u64_at p 144 = cap_memory_address c" "u64_at p 152 = cap_memory_length c"
    using u_at_take(1) [of 8 40 p 80] u_at_take(1) [of 16 40 p 80]
      u_at_take(1) [of 8 40 p 136] u_at_take(1) [of 16 40 p 136]
    by (simp_all add: pay service_tlv_def memory_tlv_def reference_bytes_at)
qed

lemma capture_image_ok:
  assumes "176 \<le> window" "atarix_bib_header_flags_are_known (ids_flags h)"
  shows "(\<exists>rs. image_ok (bib_image h (capture_tlvs c) @ z) window rs) \<longleftrightarrow> readable (capture_tlvs c)"
proof
  assume "readable (capture_tlvs c)"
  then show "\<exists>rs. image_ok (bib_image h (capture_tlvs c) @ z) window rs"
    using bib_image_ok [of "capture_tlvs c" h window z] assms by auto
next
  let ?p = "bib_image h (capture_tlvs c) @ z"
  assume "\<exists>rs. image_ok ?p window rs"
  then obtain rs where rs: "image_ok ?p window rs" by blast
  then have "records_from ?p 176 64 rs 176" "length rs = 2" and adm: "list_all (record_admitted ?p) rs"
    by (auto simp: image_ok_def capture_fields simp del: take_append drop_append)
  then have "rs = tlv_views 64 (capture_tlvs c)"
    using records_from_unique [OF _ capture_chain [of h c z], of rs 176] by (simp add: capture_tlvs_def)
  with adm have "record_admitted ?p (tlv_view 64 (service_tlv c))" "record_admitted ?p (tlv_view 120 (memory_tlv c))"
    by (simp_all add: capture_payloads(1))
  then show "readable (capture_tlvs c)"
    unfolding capture_readable record_admitted_def
    by (simp_all add: is_service_def is_memory_def tlv_view_def service_tlv_def memory_tlv_def capture_fields)
qed

lemma capture_ok_image:
  assumes "atarix_sim_bib_capture (Some c) (Some buf) (length buf) (Some n)
      = Some (ATARIX_BIB_BUILDER_OK, Some p, len)"
  shows "176 \<le> length buf" "atarix_bib_header_flags_are_known (cap_header_flags c)"
    "p = bib_image (capture_ids c) (capture_tlvs c) @ replicate (length buf - 176) 0"
proof -
  have range: "64 \<le> length buf" "length buf \<le> unat UINT32_MAX"
    and flags: "atarix_bib_header_flags_are_known (cap_header_flags c)"
    using assms by (auto simp: atarix_sim_bib_capture_def atarix_bib_builder_init_def split: if_splits)
  then show size: "176 \<le> length buf"
    using capture_too_small [OF range(1) _ refl flags, of n] assms by (cases "length buf < 176") auto
  show "atarix_bib_header_flags_are_known (cap_header_flags c)" by (rule flags)
  show "p = bib_image (capture_ids c) (capture_tlvs c) @ replicate (length buf - 176) 0"
    using capture_image [OF size range(2) refl flags, of n] assms by simp
qed

lemma capture_reads:
  assumes "readable (capture_tlvs c)" "atarix_bib_header_flags_are_known (cap_header_flags c)"
    and "176 \<le> length p" "p = bib_image (capture_ids c) (capture_tlvs c) @ z"
  shows "atarix_bib_reader_find_reference (Some (view_of p)) 1 True =
        Some (Inr \<lparr>ref_object_id = cap_service_object_id c, ref_address = cap_service_address c,
          ref_length = cap_service_length c, ref_format_major = 1, ref_format_minor = 0,
          ref_integrity_kind = 0, ref_integrity = 120, ref_integrity_length = 0\<rparr>)"
    "atarix_bib_reader_find_reference (Some (view_of p)) 2 True =
        Some (Inr \<lparr>ref_object_id = cap_memory_object_id c, ref_address = cap_memory_address c,
          ref_length = cap_memory_length c, ref_format_major = 1, ref_format_minor = 0,
          ref_integrity_kind = 0, ref_integrity = 176, ref_integrity_length = 0\<rparr>)"
    "view_boot_id (view_of p) = cap_boot_id c" "view_producer_id (view_of p) = cap_producer_id c"
proof -
  let ?rs = "tlv_views 64 (capture_tlvs c)"
  have flags: "atarix_bib_header_flags_are_known (ids_flags (capture_ids c))"
    using assms(2) by (simp add: capture_ids_def)
  have ok: "image_ok p (length p) ?rs"
    unfolding assms(4) using assms(1,3) flags by (intro bib_image_ok) (simp_all add: assms(4))
  note pay = capture_payloads(2,3) [of "capture_ids c" c z, folded assms(4)]
  have find: "atarix_bib_reader_find_reference (Some (view_of p)) k True = Some (find_reference_spec p ?rs k)" for k
    using find_reference_from_eq [OF ok order_refl, of 0 k]
    by (simp add: atarix_bib_reader_find_reference_def)
  have at: "rec_payload (tlv_view 64 (service_tlv c)) = 80" "rec_payload (tlv_view 120 (memory_tlv c)) = 136"
    "rec_payload_length (tlv_view 64 (service_tlv c)) = 40" "rec_payload_length (tlv_view 120 (memory_tlv c)) = 40"
    "rec_type (tlv_view 64 (service_tlv c)) = 1" "rec_type (tlv_view 120 (memory_tlv c)) = 2"
    by (simp_all add: tlv_view_def service_tlv_def memory_tlv_def)
  show "atarix_bib_reader_find_reference (Some (view_of p)) 1 True =
        Some (Inr \<lparr>ref_object_id = cap_service_object_id c, ref_address = cap_service_address c,
          ref_length = cap_service_length c, ref_format_major = 1, ref_format_minor = 0,
          ref_integrity_kind = 0, ref_integrity = 120, ref_integrity_length = 0\<rparr>)"
    using reference_of_bytes [of "tlv_view 64 (service_tlv c)" p] pay(1)
    by (simp add: find find_reference_spec_def capture_payloads(1) at service_tlv_def [THEN arg_cong, of tlv_payload])
  show "atarix_bib_reader_find_reference (Some (view_of p)) 2 True =
        Some (Inr \<lparr>ref_object_id = cap_memory_object_id c, ref_address = cap_memory_address c,
          ref_length = cap_memory_length c, ref_format_major = 1, ref_format_minor = 0,
          ref_integrity_kind = 0, ref_integrity = 176, ref_integrity_length = 0\<rparr>)"
    using reference_of_bytes [of "tlv_view 120 (memory_tlv c)" p] pay(2)
    by (simp add: find find_reference_spec_def capture_payloads(1) at memory_tlv_def [THEN arg_cong, of tlv_payload])
  have p: "p = bib_header (capture_ids c) (of_nat (bib_length (capture_tlvs c)))
      (bib_checksum (capture_ids c) (capture_tlvs c)) (of_nat (length (capture_tlvs c))) @ (tlvs_bytes (capture_tlvs c) @ z)"
    by (simp only: bib_image_def append_assoc assms(4))
  show "view_boot_id (view_of p) = cap_boot_id c" "view_producer_id (view_of p) = cap_producer_id c"
    unfolding p by (simp_all add: view_of_def bib_header_at capture_ids_def)
qed

section \<open>Properties\<close>

text \<open>
  C23. What \<open>atarix_sim_bib_capture\<close> does on every branch: without a configuration, a buffer or a place
  for the length, or with a capacity below the header or above 32 bits, the argument error and an
  unchanged buffer; with unknown flags the flags error; with a capacity below 176 bytes the capacity
  error and no length; otherwise exactly the image of the two captured references, padded with zeros,
  and the length 176.
\<close>

theorem capture_exact:
  assumes "capacity = length buf"
  shows "(config = None \<or> buffer = None \<or> len = None \<longrightarrow>
      atarix_sim_bib_capture config buffer cap len = Some (ATARIX_BIB_BUILDER_E_ARGUMENT, buffer, len)) \<and>
    (if capacity < 64 \<or> capacity > unat UINT32_MAX
     then atarix_sim_bib_capture (Some c) (Some buf) capacity (Some n)
       = Some (ATARIX_BIB_BUILDER_E_ARGUMENT, Some buf, Some n)
     else if \<not> atarix_bib_header_flags_are_known (cap_header_flags c)
     then atarix_sim_bib_capture (Some c) (Some buf) capacity (Some n)
       = Some (ATARIX_BIB_BUILDER_E_FLAGS, Some buf, Some n)
     else if capacity < 176
     then \<exists>rest. atarix_sim_bib_capture (Some c) (Some buf) capacity (Some n)
       = Some (ATARIX_BIB_BUILDER_E_CAPACITY, rest, Some n)
     else atarix_sim_bib_capture (Some c) (Some buf) capacity (Some n)
       = Some (ATARIX_BIB_BUILDER_OK, Some (bib_image (capture_ids c) (capture_tlvs c) @
           replicate (capacity - 176) 0), Some 176))"
proof -
  have null: "config = None \<or> buffer = None \<or> len = None \<longrightarrow>
      atarix_sim_bib_capture config buffer cap len = Some (ATARIX_BIB_BUILDER_E_ARGUMENT, buffer, len)"
    by (simp add: atarix_sim_bib_capture_def)
  have bad: "capacity < 64 \<or> capacity > unat UINT32_MAX \<Longrightarrow>
      atarix_sim_bib_capture (Some c) (Some buf) capacity (Some n)
       = Some (ATARIX_BIB_BUILDER_E_ARGUMENT, Some buf, Some n)"
    by (auto simp: atarix_sim_bib_capture_def atarix_bib_builder_init_def)
  have flags: "\<not> (capacity < 64 \<or> capacity > unat UINT32_MAX) \<Longrightarrow>
      \<not> atarix_bib_header_flags_are_known (cap_header_flags c) \<Longrightarrow>
      atarix_sim_bib_capture (Some c) (Some buf) capacity (Some n)
       = Some (ATARIX_BIB_BUILDER_E_FLAGS, Some buf, Some n)"
    by (auto simp: atarix_sim_bib_capture_def atarix_bib_builder_init_def)
  show ?thesis
    using null bad flags capture_too_small [OF _ _ assms, of c n] capture_image [OF _ _ assms, of c n]
    by (simp add: not_less)
qed

definition example_config :: atarix_sim_bib_capture_config where
  "example_config = \<lparr>cap_header_flags = 1, cap_boot_id = 2, cap_producer_id = 3, cap_created_counter = 4,
     cap_service_object_id = 7, cap_service_address = 4096, cap_service_length = 512,
     cap_memory_object_id = 8, cap_memory_address = 8192, cap_memory_length = 1024\<rparr>"

theorem capture_exact_witness:
  "atarix_sim_bib_capture (Some example_config) (Some (replicate 180 9)) 180 (Some 0)
    = Some (ATARIX_BIB_BUILDER_OK, Some (bib_image (capture_ids example_config)
        (capture_tlvs example_config) @ replicate 4 0), Some 176)"
  using capture_exact [where capacity = 180 and buf = "replicate 180 9" and c = example_config
      and n = 0 and config = None and buffer = None and cap = 0 and len = None]
  by (simp add: example_config_def atarix_bib_header_flags_are_known_def)

text \<open>
  C24. A capture is read back: the image it produces is accepted by the reader exactly if neither of
  the two address ranges overflows, with the boot identifiers that were captured, and then the service
  directory and the memory map reference found in it are the captured objects, addresses and lengths,
  in format 1.0 without integrity data. (A capture does not check the ranges itself.)
\<close>

theorem capture_read_back:
  assumes "atarix_sim_bib_capture (Some c) (Some buf) (length buf) (Some n)
      = Some (ATARIX_BIB_BUILDER_OK, Some p, Some len)"
  shows "\<exists>e u. atarix_bib_reader_open (Some v) (Some p) (length p) = Some (e, Some u) \<and>
    (e = ATARIX_BIB_OK \<longleftrightarrow>
      unat (cap_service_address c) + unat (cap_service_length c) < 2 ^ 64 \<and>
      unat (cap_memory_address c) + unat (cap_memory_length c) < 2 ^ 64) \<and>
    (e = ATARIX_BIB_OK \<longrightarrow>
      view_boot_id u = cap_boot_id c \<and> view_producer_id u = cap_producer_id c \<and>
      atarix_bib_reader_find_reference (Some u) 1 True =
        Some (Inr \<lparr>ref_object_id = cap_service_object_id c, ref_address = cap_service_address c,
          ref_length = cap_service_length c, ref_format_major = 1, ref_format_minor = 0,
          ref_integrity_kind = 0, ref_integrity = 120, ref_integrity_length = 0\<rparr>) \<and>
      atarix_bib_reader_find_reference (Some u) 2 True =
        Some (Inr \<lparr>ref_object_id = cap_memory_object_id c, ref_address = cap_memory_address c,
          ref_length = cap_memory_length c, ref_format_major = 1, ref_format_minor = 0,
          ref_integrity_kind = 0, ref_integrity = 176, ref_integrity_length = 0\<rparr>))"
proof -
  define z :: bytes where "z = replicate (length buf - 176) 0"
  note ok = capture_ok_image [OF assms, folded z_def]
  have flags: "atarix_bib_header_flags_are_known (ids_flags (capture_ids c))"
    using ok(2) by (simp add: capture_ids_def)
  have len: "176 \<le> length p" by (simp add: ok(3))
  have "(\<exists>rs. image_ok p (length p) rs) \<longleftrightarrow> readable (capture_tlvs c)"
    using capture_image_ok [OF len flags, of c z] by (simp only: ok(3))
  then have op: "if readable (capture_tlvs c)
      then atarix_bib_reader_open (Some v) (Some p) (length p) = Some (ATARIX_BIB_OK, Some (view_of p))
      else \<exists>e. atarix_bib_reader_open (Some v) (Some p) (length p) = Some (e, Some zeroed_view) \<and>
        e \<noteq> ATARIX_BIB_OK"
    using open_exact [OF _ order_refl, of p v] len by auto
  show ?thesis
  proof (cases "readable (capture_tlvs c)")
    case True
    then show ?thesis
      using op capture_reads [OF True ok(2) len ok(3)] unfolding capture_readable
      by (intro exI [of _ ATARIX_BIB_OK] exI [of _ "view_of p"]) simp
  next
    case False
    with op obtain e where "atarix_bib_reader_open (Some v) (Some p) (length p) = Some (e, Some zeroed_view)"
      "e \<noteq> ATARIX_BIB_OK" by auto
    with False show ?thesis
      unfolding capture_readable by (intro exI [of _ e] exI [of _ zeroed_view]) simp
  qed
qed

theorem capture_read_back_witness:
  "\<exists>u. atarix_bib_reader_open (Some zeroed_view)
        (Some (bib_image (capture_ids example_config) (capture_tlvs example_config))) 176
      = Some (ATARIX_BIB_OK, Some u) \<and>
    atarix_bib_reader_find_reference (Some u) 2 True =
      Some (Inr \<lparr>ref_object_id = 8, ref_address = 8192, ref_length = 1024, ref_format_major = 1,
        ref_format_minor = 0, ref_integrity_kind = 0, ref_integrity = 176, ref_integrity_length = 0\<rparr>)"
proof -
  have "atarix_sim_bib_capture (Some example_config) (Some (replicate 176 0)) (length (replicate 176 (0::u8))) (Some 0)
      = Some (ATARIX_BIB_BUILDER_OK, Some (bib_image (capture_ids example_config) (capture_tlvs example_config)), Some 176)"
    using capture_image [of 176 "replicate 176 0" example_config 0]
    by (simp add: example_config_def atarix_bib_header_flags_are_known_def)
  from capture_read_back [OF this, of zeroed_view] show ?thesis
    by (auto simp: example_config_def)
qed

end
