(* ===== verification/Bibdump.thy ===== *)
theory Bibdump
  imports Bib_Reader
begin

text \<open>
  The diagnostic decoder \<open>tools/bibdump/bibdump.c\<close>. \<open>dump_bib\<close> returns its exit code, the lines it
  prints to \<open>stdout\<close> and the lines it prints to \<open>stderr\<close>; \<open>hex_fixed\<close> and \<open>dec\<close> are the \<open>printf\<close>
  conversions it uses. What \<open>fopen\<close>, \<open>fseek\<close>, \<open>ftell\<close>, \<open>fread\<close> and \<open>malloc\<close> answer
  are parameters of \<open>read_file\<close> and \<open>bibdump_main\<close>; the bytes \<open>fread\<close> stores go through a checked
  \<open>memcpy\<close> into the memory \<open>malloc\<close> returned.
\<close>

section \<open>Conversions of printf\<close>

definition digit :: "nat \<Rightarrow> char" where
  "digit n = char_of (if n < 10 then 48 + n else 87 + n)"

text \<open>\<open>%0<k>x\<close> of a value with at most \<open>k\<close> hexadecimal digits.\<close>

definition hex_fixed :: "nat \<Rightarrow> nat \<Rightarrow> string" where
  "hex_fixed k n = map (\<lambda>i. digit (n div 16 ^ (k - 1 - i) mod 16)) [0..<k]"

fun dec :: "nat \<Rightarrow> string" where
  "dec n = (if n < 10 then [digit n] else dec (n div 10) @ [digit (n mod 10)])"

declare dec.simps [simp del]

section \<open>Operations\<close>

fun error_name :: "atarix_bib_error \<Rightarrow> string" where
  "error_name ATARIX_BIB_OK = ''ok''"
| "error_name ATARIX_BIB_E_WINDOW = ''invalid-window''"
| "error_name ATARIX_BIB_E_MAGIC = ''invalid-magic''"
| "error_name ATARIX_BIB_E_VERSION = ''unsupported-version''"
| "error_name ATARIX_BIB_E_HEADER_LENGTH = ''invalid-header-length''"
| "error_name ATARIX_BIB_E_TOTAL_LENGTH = ''invalid-total-length''"
| "error_name ATARIX_BIB_E_CRC = ''crc-mismatch''"
| "error_name ATARIX_BIB_E_HEADER_RESERVED = ''invalid-header-reserved''"
| "error_name ATARIX_BIB_E_TLV_BOUNDS = ''invalid-tlv-bounds''"
| "error_name ATARIX_BIB_E_TLV_RESERVED = ''invalid-tlv-reserved''"
| "error_name ATARIX_BIB_E_UNKNOWN_MANDATORY = ''unknown-mandatory-record''"
| "error_name ATARIX_BIB_E_REQUIRED_RECORD = ''required-record-error''"
| "error_name ATARIX_BIB_E_REFERENCE_OVERFLOW = ''reference-overflow''"
| "error_name ATARIX_BIB_E_REFERENCE_AUTHORITY = ''reference-authority-error''"
| "error_name ATARIX_BIB_E_REFERENCE_INTEGRITY = ''reference-integrity-error''"

text \<open>The value of an error code, \<open>(int)error\<close>.\<close>

fun error_code :: "atarix_bib_error \<Rightarrow> nat" where
  "error_code ATARIX_BIB_OK = 0"
| "error_code ATARIX_BIB_E_WINDOW = 1"
| "error_code ATARIX_BIB_E_MAGIC = 2"
| "error_code ATARIX_BIB_E_VERSION = 3"
| "error_code ATARIX_BIB_E_HEADER_LENGTH = 4"
| "error_code ATARIX_BIB_E_TOTAL_LENGTH = 5"
| "error_code ATARIX_BIB_E_CRC = 6"
| "error_code ATARIX_BIB_E_HEADER_RESERVED = 7"
| "error_code ATARIX_BIB_E_TLV_BOUNDS = 8"
| "error_code ATARIX_BIB_E_TLV_RESERVED = 9"
| "error_code ATARIX_BIB_E_UNKNOWN_MANDATORY = 10"
| "error_code ATARIX_BIB_E_REQUIRED_RECORD = 11"
| "error_code ATARIX_BIB_E_REFERENCE_OVERFLOW = 12"
| "error_code ATARIX_BIB_E_REFERENCE_AUTHORITY = 13"
| "error_code ATARIX_BIB_E_REFERENCE_INTEGRITY = 14"

definition type_name :: "u16 \<Rightarrow> string" where
  "type_name type =
     (if type = ATARIX_BIB_TLV_RESERVED then ''reserved''
      else if type = ATARIX_BIB_TLV_SERVICE_DIRECTORY_REFERENCE then ''service-directory-reference''
      else if type = ATARIX_BIB_TLV_MEMORY_MAP_REFERENCE then ''memory-map-reference''
      else if type = ATARIX_BIB_TLV_BOOT_DEVICE_IDENTITY then ''boot-device-identity''
      else if type = ATARIX_BIB_TLV_BOOT_IMAGE_IDENTITY then ''boot-image-identity''
      else if type = ATARIX_BIB_TLV_BOOT_ARGUMENTS then ''boot-arguments''
      else if type = ATARIX_BIB_TLV_CONSOLE_SERVICE_IDENTITY then ''console-service-identity''
      else if type = ATARIX_BIB_TLV_SUPERVISOR_SERVICE_IDENTITY then ''supervisor-service-identity''
      else if type = ATARIX_BIB_TLV_AUDIT_LOG_REFERENCE then ''audit-log-reference''
      else if type = ATARIX_BIB_TLV_FIRMWARE_BUILD_IDENTITY then ''firmware-build-identity''
      else if type = ATARIX_BIB_TLV_ENTROPY_SEED_REFERENCE then ''entropy-seed-reference''
      else if atarix_bib_tlv_type_is_experimental type then ''experimental'' else ''unknown'')"

definition is_reference_type :: "u16 \<Rightarrow> bool" where
  "is_reference_type type \<longleftrightarrow>
     type = ATARIX_BIB_TLV_SERVICE_DIRECTORY_REFERENCE \<or> type = ATARIX_BIB_TLV_MEMORY_MAP_REFERENCE \<or>
     type = ATARIX_BIB_TLV_AUDIT_LOG_REFERENCE \<or> type = ATARIX_BIB_TLV_ENTROPY_SEED_REFERENCE"

definition print_header_flags :: "u16 \<Rightarrow> string" where
  "print_header_flags flags =
     ''flags: 0x'' @ hex_fixed 4 (unat flags) @
     (if flags = 0 then '' none'' else []) @
     (if flags AND ATARIX_BIB_FLAG_RECOVERY_BOOT \<noteq> 0 then '' recovery'' else []) @
     (if flags AND ATARIX_BIB_FLAG_DEGRADED_BOOT \<noteq> 0 then '' degraded'' else []) @
     (if flags AND ATARIX_BIB_FLAG_SECURE_POLICY_ACTIVE \<noteq> 0 then '' secure-policy'' else []) @
     (if flags AND ATARIX_BIB_FLAG_DIAGNOSTIC_BOOT \<noteq> 0 then '' diagnostic'' else [])"

definition header_lines :: "atarix_bib_view \<Rightarrow> string list" where
  "header_lines view =
     [''format: ATARIX-BIB'', ''version: 1.0'',
      ''total-length: '' @ dec (unat (view_total_length view)),
      print_header_flags (view_flags view),
      ''boot-id: 0x'' @ hex_fixed 16 (unat (view_boot_id view)),
      ''producer-id: 0x'' @ hex_fixed 16 (unat (view_producer_id view)),
      ''created-counter: '' @ dec (unat (view_created_counter view)),
      ''record-count: '' @ dec (unat (view_tlv_count view))]"

definition record_field :: "nat \<Rightarrow> string \<Rightarrow> string \<Rightarrow> string" where
  "record_field index field value = ''record['' @ dec index @ ''].'' @ field @ '': '' @ value"

definition record_lines :: "nat \<Rightarrow> atarix_bib_record_view \<Rightarrow> string list" where
  "record_lines index r =
     [record_field index ''type'' (''0x'' @ hex_fixed 4 (unat (rec_type r)) @ '' '' @ type_name (rec_type r)),
      record_field index ''flags'' (''0x'' @ hex_fixed 4 (unat (rec_flags r)) @
        (if rec_flags r AND ATARIX_BIB_TLV_FLAG_MANDATORY \<noteq> 0 then '' mandatory'' else []) @
        (if rec_flags r AND ATARIX_BIB_TLV_FLAG_SENSITIVE \<noteq> 0 then '' sensitive'' else [])),
      record_field index ''payload-length'' (dec (unat (rec_payload_length r)))]"

definition reference_lines :: "nat \<Rightarrow> atarix_bib_reference_view \<Rightarrow> string list" where
  "reference_lines index ref =
     [record_field index ''object-id'' (''0x'' @ hex_fixed 16 (unat (ref_object_id ref))),
      record_field index ''address'' (''0x'' @ hex_fixed 16 (unat (ref_address ref))),
      record_field index ''length'' (dec (unat (ref_length ref))),
      record_field index ''format'' (dec (unat (ref_format_major ref)) @ ''.'' @ dec (unat (ref_format_minor ref))),
      record_field index ''integrity-kind'' (dec (unat (ref_integrity_kind ref))),
      record_field index ''integrity-length'' (dec (unat (ref_integrity_length ref)))]"

definition payload_line :: "nat \<Rightarrow> atarix_bib_record_view \<Rightarrow> string" where
  "payload_line index r = record_field index ''payload''
     (if rec_flags r AND ATARIX_BIB_TLV_FLAG_SENSITIVE \<noteq> 0 then ''<redacted>'' else ''<opaque>'')"

function dump_records ::
  "atarix_bib_view \<Rightarrow> u32 \<Rightarrow> string list \<Rightarrow> (int \<times> string list \<times> string list) option" where
  "dump_records view index out =
     (if index < view_tlv_count view
      then do {
        res \<leftarrow> atarix_bib_reader_record (Some view) index True;
        (case res of
           Inl error \<Rightarrow> Some (2, out, [''atarix-bibdump: record '' @ dec (unat index) @ '': '' @ error_name error])
         | Inr r \<Rightarrow>
             let out = out @ record_lines (unat index) r in
             if is_reference_type (rec_type r)
             then do {
               res \<leftarrow> atarix_bib_reader_find_reference (Some view) (rec_type r) True;
               (case res of
                  Inl error \<Rightarrow> Some (2, out,
                    [''atarix-bibdump: reference '' @ dec (unat index) @ '': '' @ error_name error])
                | Inr ref \<Rightarrow> dump_records view (index + 1) (out @ reference_lines (unat index) ref))
             }
             else dump_records view (index + 1) (out @ [payload_line (unat index) r]))
      }
      else Some (0, out, []))"
  by pat_completeness auto
termination
  by (relation "measure (\<lambda>(view, index, out). unat (view_tlv_count view) - unat index)")
     (auto simp: unat_inc word_less_nat_alt)

declare dump_records.simps [simp del]

text \<open>The view is a local variable: the reader assigns all of it or fails.\<close>

definition dump_bib :: "bytes \<Rightarrow> nat \<Rightarrow> (int \<times> string list \<times> string list) option" where
  "dump_bib buffer len = do {
     (error, view) \<leftarrow> atarix_bib_reader_open (Some zeroed_view) (Some buffer) len;
     if error \<noteq> ATARIX_BIB_OK
     then Some (2, [], [''atarix-bibdump: invalid BIB: '' @ error_name error @ '' ('' @ dec (error_code error) @ '')''])
     else do {
       v \<leftarrow> view;
       dump_records v 0 (header_lines v)
     }
   }"

text \<open>
  \<open>read_file\<close>: its result, the buffer with the length it reports, and what it prints to \<open>stderr\<close>. An
  opened stream is what the calls on it answer; \<open>malloc\<close> gives memory with unknown contents. \<open>fread\<close> stores
  what it got, at most the number of bytes it was asked for, behind a checked pointer. A file of size
  zero leaves the one allocated byte as it is.
\<close>

record c_stream =
  seek_end_ok :: bool
  tell_result :: int
  seek_set_ok :: bool
  fread_result :: "nat \<Rightarrow> bytes"

definition read_file ::
  "string \<Rightarrow> (string \<Rightarrow> c_stream option) \<Rightarrow> (nat \<Rightarrow> bytes option) \<Rightarrow> string
    \<Rightarrow> (int \<times> (bytes \<times> nat) option \<times> string list) option" where
  "read_file strerror fopen malloc path =
     (case fopen path of
        None \<Rightarrow> Some (1, None, [''atarix-bibdump: cannot open '' @ path @ '': '' @ strerror])
      | Some stream \<Rightarrow>
          let size = tell_result stream in
          if \<not> seek_end_ok stream \<or> size < 0 \<or> \<not> seek_set_ok stream
          then Some (1, None, [''atarix-bibdump: cannot size '' @ path])
          else if nat size > ATARIX_BIB_RECOMMENDED_MAX_SIZE_V1
          then Some (1, None, [''atarix-bibdump: '' @ path @ '' exceeds the BIB v1 diagnostic limit''])
          else (case malloc (if size = 0 then 1 else nat size) of
              None \<Rightarrow> Some (1, None, [''atarix-bibdump: allocation failed''])
            | Some data \<Rightarrow> do {
                let got = take (nat size) (fread_result stream (nat size));
                data \<leftarrow> (if size \<noteq> 0 then memcpy_at data 0 got (length got) else Some data);
                if size \<noteq> 0 \<and> length got \<noteq> nat size
                then Some (1, None, [''atarix-bibdump: cannot read '' @ path])
                else Some (0, Some (data, nat size), [])
              }))"

definition bibdump_main ::
  "string \<Rightarrow> (string \<Rightarrow> c_stream option) \<Rightarrow> (nat \<Rightarrow> bytes option) \<Rightarrow> string list
    \<Rightarrow> (int \<times> string list \<times> string list) option" where
  "bibdump_main strerror fopen malloc argv =
     (if length argv \<noteq> 2 then Some (64, [], [''usage: atarix-bibdump FILE''])
      else do {
        (status, file, err) \<leftarrow> read_file strerror fopen malloc (argv ! 1);
        if status \<noteq> 0 then Some (1, [], err)
        else do {
          (buffer, len) \<leftarrow> file;
          dump_bib buffer len
        }
      })"

section \<open>What is printed\<close>

fun dump_spec ::
  "(u16 \<Rightarrow> atarix_bib_error + atarix_bib_reference_view) \<Rightarrow> nat \<Rightarrow> atarix_bib_record_view list
    \<Rightarrow> string list \<Rightarrow> int \<times> string list \<times> string list" where
  "dump_spec find_ref i [] out = (0, out, [])"
| "dump_spec find_ref i (r # rs) out =
     (let out = out @ record_lines i r in
      if is_reference_type (rec_type r)
      then (case find_ref (rec_type r) of
              Inl error \<Rightarrow> (2, out, [''atarix-bibdump: reference '' @ dec i @ '': '' @ error_name error])
            | Inr ref \<Rightarrow> dump_spec find_ref (i + 1) rs (out @ reference_lines i ref))
      else dump_spec find_ref (i + 1) rs (out @ [payload_line i r]))"

lemma dump_records_eq:
  assumes "image_ok p window rs" "window \<le> length p" "unat index \<le> length rs"
  shows "dump_records (view_of p) index out
    = Some (dump_spec (find_reference_spec p rs) (unat index) (drop (unat index) rs) out)"
  using assms(3)
proof (induction "view_of p" index out rule: dump_records.induct)
  case (1 index out)
  note v = image_ok_view [OF assms(1,2)]
  have find: "atarix_bib_reader_find_reference (Some (view_of p)) k True = Some (find_reference_spec p rs k)" for k
    using find_reference_from_eq [OF assms(1,2), of 0 k] by (simp add: atarix_bib_reader_find_reference_def)
  show ?case
  proof (cases "unat index < length rs")
    case True
    then have less: "index < view_tlv_count (view_of p)" unfolding v(4) by (simp add: word_less_nat_alt)
    have r: "atarix_bib_reader_record (Some (view_of p)) index True = Some (Inr (rs ! unat index))"
      using True by (simp add: reader_record_eq [OF assms(1,2)])
    have n: "unat (index + 1) = Suc (unat index)" "unat (index + 1) \<le> length rs"
      using less True by (simp_all add: unat_inc)
    have d: "drop (unat index) rs = rs ! unat index # drop (unat (index + 1)) rs"
      using True n by (simp add: Cons_nth_drop_Suc)
    note IH = "1.hyps" [OF less r refl refl]
    show ?thesis
    proof (cases "is_reference_type (rec_type (rs ! unat index))")
      case ref: True
      then show ?thesis
        using IH(1) [OF ref find _ n(2)] less r find n(1)
        by (subst dump_records.simps) (auto simp: d Let_def split: sum.splits)
    next
      case False
      then show ?thesis
        using IH(2) [OF False n(2)] less r n(1)
        by (subst dump_records.simps) (simp add: d Let_def)
    qed
  next
    case False
    then have "\<not> index < view_tlv_count (view_of p)" unfolding v(4) by (simp add: word_less_nat_alt)
    with False show ?thesis by (subst dump_records.simps) simp
  qed
qed

lemma image_ok_window: "image_ok p window rs \<Longrightarrow> 64 \<le> window"
  by (auto simp: image_ok_def header_ok_def)

lemma dump_accepted:
  assumes "image_ok p n rs" "n \<le> length p"
  shows "dump_bib p n = Some (dump_spec (find_reference_spec p rs) 0 rs (header_lines (view_of p)))"
  using open_exact [OF image_ok_window [OF assms(1)] assms(2), of zeroed_view] assms
    dump_records_eq [OF assms, of 0]
  by (auto simp: dump_bib_def split: if_splits)

lemma dump_refused:
  assumes "\<not> (\<exists>rs. image_ok p n rs)" "n \<le> length p"
  shows "\<exists>e. e \<noteq> ATARIX_BIB_OK \<and> dump_bib p n = Some (2, [],
    [''atarix-bibdump: invalid BIB: '' @ error_name e @ '' ('' @ dec (error_code e) @ '')''])"
proof (cases "n < 64")
  case True
  then have "atarix_bib_reader_open (Some zeroed_view) (Some p) n = Some (ATARIX_BIB_E_WINDOW, Some zeroed_view)"
    by (simp add: atarix_bib_reader_open_def)
  then show ?thesis
    unfolding dump_bib_def by (intro exI [of _ ATARIX_BIB_E_WINDOW]) simp
next
  case False
  then obtain e where "e \<noteq> ATARIX_BIB_OK"
    "atarix_bib_reader_open (Some zeroed_view) (Some p) n = Some (e, Some zeroed_view)"
    using open_exact [OF _ assms(2), of zeroed_view] assms(1) by (auto split: if_splits)
  then show ?thesis
    unfolding dump_bib_def by (intro exI [of _ e]) simp
qed

lemma dump_spec_cases:
  "(\<exists>out' err. dump_spec find_ref i rs out = (2, out', err) \<and>
      \<not> list_all (\<lambda>r. is_reference_type (rec_type r) \<longrightarrow> \<not> isl (find_ref (rec_type r))) rs) \<or>
   (\<exists>out'. dump_spec find_ref i rs out = (0, out', []) \<and>
      list_all (\<lambda>r. is_reference_type (rec_type r) \<longrightarrow> \<not> isl (find_ref (rec_type r))) rs)"
proof (induction rs arbitrary: i out)
  case Nil
  then show ?case by simp
next
  case (Cons r rs)
  let ?out = "out @ record_lines i r"
  show ?case
  proof (cases "is_reference_type (rec_type r)")
    case False
    then show ?thesis
      using Cons.IH [of "i + 1" "?out @ [payload_line i r]"] by (simp add: Let_def)
  next
    case ref: True
    show ?thesis
    proof (cases "find_ref (rec_type r)")
      case (Inl e)
      with ref show ?thesis by (simp add: Let_def)
    next
      case (Inr x)
      with ref show ?thesis
        using Cons.IH [of "i + 1" "?out @ reference_lines i x"] by (simp add: Let_def)
    qed
  qed
qed

text \<open>The lines printed for record \<open>j\<close> when every reference is found.\<close>

definition record_block :: "bytes \<Rightarrow> atarix_bib_record_view list \<Rightarrow> nat \<Rightarrow> string list" where
  "record_block p rs j = record_lines j (rs ! j) @
     (if is_reference_type (rec_type (rs ! j))
      then (case find_reference_spec p rs (rec_type (rs ! j)) of
              Inl e \<Rightarrow> [] | Inr ref \<Rightarrow> reference_lines j ref)
      else [payload_line j (rs ! j)])"

lemma dump_spec_blocks:
  assumes "list_all (\<lambda>r. is_reference_type (rec_type r) \<longrightarrow> \<not> isl (find_reference_spec p rs (rec_type r))) rs"
  shows "i \<le> length rs \<Longrightarrow> dump_spec (find_reference_spec p rs) i (drop i rs) out
    = (0, out @ concat (map (record_block p rs) [i..<length rs]), [])"
proof (induction "length rs - i" arbitrary: i out)
  case (Suc k)
  then have i: "i < length rs" by simp
  with Suc.hyps(2) have IH: "dump_spec (find_reference_spec p rs) (Suc i) (drop (Suc i) rs) out
      = (0, out @ concat (map (record_block p rs) [Suc i..<length rs]), [])" for out
    by (intro Suc.hyps(1)) simp_all
  have "is_reference_type (rec_type (rs ! i)) \<longrightarrow> \<not> isl (find_reference_spec p rs (rec_type (rs ! i)))"
    using assms i by (simp add: list_all_length)
  with i IH show ?case
    by (auto simp: Cons_nth_drop_Suc [symmetric] upt_rec [of i] record_block_def Let_def split: sum.splits)
qed simp

lemma find_reference_first:
  assumes "i < length rs" "\<forall>k < i. rec_type (rs ! k) \<noteq> rec_type (rs ! i)"
  shows "find_reference_spec p rs (rec_type (rs ! i)) = reference_of p (rs ! i)"
proof -
  have "filter (\<lambda>r. rec_type r = rec_type (rs ! i)) (take i rs) = []"
    using assms by (auto simp: filter_empty_conv in_set_conv_nth)
  then have "filter (\<lambda>r. rec_type r = rec_type (rs ! i)) rs
      = filter (\<lambda>r. rec_type r = rec_type (rs ! i)) (drop i rs)"
    by (metis append_Nil append_take_drop_id filter_append)
  also have "drop i rs = rs ! i # drop (Suc i) rs" using assms(1) by (simp add: Cons_nth_drop_Suc)
  finally show ?thesis by (simp add: find_reference_spec_def)
qed

section \<open>What the printed lines depend on\<close>

text \<open>
  Two images a reader of the output cannot tell apart: the same printed header fields, the same types,
  flags and payload lengths of the records in the same order, and in the first record of every
  reference type the same fixed part, the first 40 bytes of the payload.
\<close>

definition same_ids :: "bytes \<Rightarrow> bytes \<Rightarrow> bool" where
  "same_ids p q \<longleftrightarrow> u32_at p 16 = u32_at q 16 \<and> u16_at p 14 = u16_at q 14 \<and> u64_at p 24 = u64_at q 24 \<and>
     u64_at p 32 = u64_at q 32 \<and> u64_at p 40 = u64_at q 40"

definition same_record :: "atarix_bib_record_view \<Rightarrow> atarix_bib_record_view \<Rightarrow> bool" where
  "same_record r u \<longleftrightarrow> rec_type r = rec_type u \<and> rec_flags r = rec_flags u \<and>
     rec_payload_length r = rec_payload_length u"

definition first_fixed :: "bytes \<Rightarrow> atarix_bib_record_view list \<Rightarrow> u16 \<Rightarrow> (u32 \<times> bytes) option" where
  "first_fixed p rs type = map_option (\<lambda>r. (rec_payload_length r,
     take (min 40 (unat (rec_payload_length r))) (drop (rec_payload r) p))) (find (\<lambda>r. rec_type r = type) rs)"

text \<open>References that differ at most in where their integrity data lies, which is not printed.\<close>

definition same_reference :: "atarix_bib_reference_view \<Rightarrow> atarix_bib_reference_view \<Rightarrow> bool" where
  "same_reference x y \<longleftrightarrow> x\<lparr>ref_integrity := 0\<rparr> = y\<lparr>ref_integrity := 0\<rparr>"

lemma reference_of_same:
  assumes "rec_payload_length r = rec_payload_length u"
    and "take (min 40 (unat (rec_payload_length r))) (drop (rec_payload r) p)
      = take (min 40 (unat (rec_payload_length r))) (drop (rec_payload u) q)"
  shows "rel_sum (=) same_reference (reference_of p r) (reference_of q u)"
proof (cases "unat (rec_payload_length r) < 40")
  case True
  with assms(1) show ?thesis by (simp add: reference_of_def)
next
  case False
  let ?o = "rec_payload r" and ?v = "rec_payload u"
  from False assms(2) have eq: "take 40 (drop ?o p) = take 40 (drop ?v q)" by (simp add: min_def)
  have "u64_at p (?o + k) = u64_at q (?v + k)" if "k + 8 \<le> 40" for k
    using u_at_take(1) [of k 40, OF that] eq by metis
  moreover have "u32_at p (?o + k) = u32_at q (?v + k)" if "k + 4 \<le> 40" for k
    using u_at_take(2) [of k 40, OF that] eq by metis
  moreover have "u64_at p ?o = u64_at q ?v" using calculation(1) [of 0] by simp
  ultimately show ?thesis using assms(1) by (simp add: reference_of_def same_reference_def)
qed

lemma find_reference_spec_find:
  "find_reference_spec p rs type =
     (case find (\<lambda>r. rec_type r = type) rs of
        None \<Rightarrow> Inl ATARIX_BIB_E_REQUIRED_RECORD | Some r \<Rightarrow> reference_of p r)"
  unfolding find_reference_spec_def by (induction rs) simp_all

text \<open>The first record of a type, in the records and in their views.\<close>

lemma find_tlv_view:
  "find (\<lambda>r. rec_type r = type) (tlv_views off ts) = None \<longleftrightarrow> find (\<lambda>t. tlv_type t = type) ts = None"
  by (induction ts arbitrary: off) (simp_all add: tlv_view_def)

lemma find_tlv_view_Some:
  assumes "find (\<lambda>r. rec_type r = type) (tlv_views off ts) = Some r"
  obtains i where "i < length ts" "r = tlv_views off ts ! i" "find (\<lambda>t. tlv_type t = type) ts = Some (ts ! i)"
proof -
  have type: "rec_type (tlv_views off ts ! i) = tlv_type (ts ! i)" if "i < length ts" for i
    using that tlv_views_nth(1) [of "replicate off 0" off i ts] by (simp add: tlv_view_def)
  from assms obtain i where i: "i < length ts" "rec_type (tlv_views off ts ! i) = type"
      "r = tlv_views off ts ! i" "\<forall>j < i. rec_type (tlv_views off ts ! j) \<noteq> type"
    by (auto simp: find_Some_iff)
  then have "find (\<lambda>t. tlv_type t = type) ts = Some (ts ! i)"
    using type by (auto simp: find_Some_iff intro!: exI [of _ i])
  with i that show ?thesis by blast
qed

lemma find_reference_same:
  assumes "first_fixed p rs type = first_fixed q us type"
  shows "rel_sum (=) same_reference (find_reference_spec p rs type) (find_reference_spec q us type)"
proof (cases "find (\<lambda>r. rec_type r = type) rs")
  case None
  with assms show ?thesis by (simp add: find_reference_spec_find first_fixed_def)
next
  case (Some r)
  with assms obtain u where find: "find (\<lambda>r. rec_type r = type) us = Some u"
    by (cases "find (\<lambda>r. rec_type r = type) us") (simp_all add: first_fixed_def)
  with Some assms have u: "rec_payload_length r = rec_payload_length u"
    "take (min 40 (unat (rec_payload_length r))) (drop (rec_payload r) p)
      = take (min 40 (unat (rec_payload_length r))) (drop (rec_payload u) q)"
    by (auto simp: first_fixed_def)
  from Some find reference_of_same [OF u] show ?thesis by (simp add: find_reference_spec_find)
qed

lemma same_lines:
  "same_record r u \<Longrightarrow> record_lines i r = record_lines i u"
  "same_record r u \<Longrightarrow> payload_line i r = payload_line i u"
  "same_reference x y \<Longrightarrow> reference_lines i x = reference_lines i y"
  by (simp_all add: same_record_def record_lines_def payload_line_def)
     (cases x; cases y; simp add: same_reference_def reference_lines_def)

lemma dump_spec_same:
  assumes "list_all2 same_record rs us"
    and "\<And>type. is_reference_type type \<Longrightarrow> rel_sum (=) same_reference (f type) (g type)"
  shows "dump_spec f i rs out = dump_spec g i us out"
  using assms(1)
proof (induction rs us arbitrary: i out rule: list_all2_induct)
  case Nil
  then show ?case by simp
next
  case (Cons r rs u us)
  have type: "rec_type u = rec_type r" using Cons.hyps(1) by (simp add: same_record_def)
  show ?case
  proof (cases "is_reference_type (rec_type r)")
    case True
    with assms(2) have "rel_sum (=) same_reference (f (rec_type r)) (g (rec_type r))" by blast
    then show ?thesis
      using True same_lines(1,3) Cons.hyps(1) type Cons.IH by cases (simp_all add: Let_def)
  next
    case False
    then show ?thesis using same_lines(1,2) [OF Cons.hyps(1)] type Cons.IH by (simp add: Let_def)
  qed
qed

lemma header_lines_same:
  "same_ids p q \<Longrightarrow> u32_at p 52 = u32_at q 52 \<Longrightarrow> header_lines (view_of p) = header_lines (view_of q)"
  by (simp add: same_ids_def header_lines_def view_of_def)

text \<open>A type whose first record holds a plain reference is found.\<close>

lemma find_reference_plain:
  assumes "find (\<lambda>t. tlv_type t = type) ts = Some t"
    and "tlv_payload t = reference_bytes oid addr len major minor" "bib_length ts < 2 ^ 32"
  shows "\<not> isl (find_reference_spec (bib_image h ts @ z) (tlv_views 64 ts) type)"
proof (cases "find (\<lambda>r. rec_type r = type) (tlv_views 64 ts)")
  case None
  then have "find (\<lambda>t. tlv_type t = type) ts = None" by (simp only: find_tlv_view)
  then show ?thesis using assms(1) by simp
next
  case (Some r)
  from find_tlv_view_Some [OF Some] obtain i where i: "i < length ts" "r = tlv_views 64 ts ! i"
      "find (\<lambda>t. tlv_type t = type) ts = Some (ts ! i)" by blast
  then have t: "ts ! i = t" using assms(1) by simp
  have "rec_payload_length r = 40"
    using tlv_window(2) [OF i(1) assms(3)] assms(2) i(2) t by (simp add: word_unat_eq_iff)
  then have "reference_of (bib_image h ts @ z) r = Inr \<lparr>ref_object_id = oid, ref_address = addr,
      ref_length = len, ref_format_major = major, ref_format_minor = minor, ref_integrity_kind = 0,
      ref_integrity = rec_payload r + 40, ref_integrity_length = 0\<rparr>"
    using tlv_window(1) [OF i(1) assms(3), of h z] assms(2) i(2) t by (intro reference_of_bytes) simp_all
  with Some show ?thesis by (simp add: find_reference_spec_find)
qed

lemma dump_plain:
  assumes "readable ts" "atarix_bib_header_flags_are_known (ids_flags h)"
    and "list_all (\<lambda>t. is_reference_type (tlv_type t) \<longrightarrow>
      (\<exists>oid addr len major minor. tlv_payload t = reference_bytes oid addr len major minor)) ts"
  shows "\<exists>out. dump_bib (bib_image h ts) (bib_length ts) = Some (0, out, [])"
proof -
  let ?p = "bib_image h ts @ []"
  have ok: "image_ok ?p (bib_length ts) (tlv_views 64 ts)" using assms by (intro bib_image_ok) simp_all
  have small: "bib_length ts < 2 ^ 32" using assms(1) by (simp add: readable_def)
  have "\<not> isl (find_reference_spec ?p (tlv_views 64 ts) (rec_type r))"
    if r: "r \<in> set (tlv_views 64 ts)" "is_reference_type (rec_type r)" for r
  proof -
    have "find (\<lambda>u. rec_type u = rec_type r) (tlv_views 64 ts) \<noteq> None"
      using r(1) by (auto simp: find_None_iff)
    then obtain t where t: "find (\<lambda>t. tlv_type t = rec_type r) ts = Some t" by (auto simp: find_tlv_view)
    then have "t \<in> set ts" "tlv_type t = rec_type r" by (auto simp: find_Some_iff)
    with assms(3) r(2) obtain oid addr len major minor
      where "tlv_payload t = reference_bytes oid addr len major minor" by (auto simp: list_all_iff)
    with t small show ?thesis by (intro find_reference_plain)
  qed
  then have "list_all (\<lambda>r. is_reference_type (rec_type r) \<longrightarrow>
      \<not> isl (find_reference_spec ?p (tlv_views 64 ts) (rec_type r))) (tlv_views 64 ts)"
    by (simp add: list_all_iff)
  moreover have "bib_length ts \<le> length ?p" by simp
  ultimately show ?thesis
    using dump_accepted [OF ok] dump_spec_cases [of "find_reference_spec ?p (tlv_views 64 ts)" 0
        "tlv_views 64 ts" "header_lines (view_of ?p)"]
    by auto
qed

lemma image_ok_unique: "image_ok p n rs \<Longrightarrow> image_ok p n us \<Longrightarrow> rs = us"
  unfolding image_ok_def using records_from_unique by metis

section \<open>Properties\<close>

text \<open>The images the decoder decodes to the end, and what its exit code says of that.\<close>

definition decodable :: "bytes \<Rightarrow> nat \<Rightarrow> bool" where
  "decodable p n \<longleftrightarrow> (\<exists>rs. image_ok p n rs \<and> list_all (\<lambda>r. is_reference_type (rec_type r) \<longrightarrow>
     \<not> isl (find_reference_spec p rs (rec_type r))) rs)"

lemma dump_exit:
  assumes "n \<le> length p"
  shows "\<exists>code out err. dump_bib p n = Some (code, out, err) \<and>
    code = (if decodable p n then 0 else 2) \<and> (code = 0 \<longrightarrow> err = [])"
proof (cases "\<exists>rs. image_ok p n rs")
  case False
  with dump_refused [OF False assms] show ?thesis by (auto simp: decodable_def)
next
  case True
  then obtain rs where rs: "image_ok p n rs" by blast
  have only: "image_ok p n us \<longleftrightarrow> us = rs" for us using rs image_ok_unique by blast
  show ?thesis
    unfolding dump_accepted [OF rs assms] decodable_def only
    using dump_spec_cases [of "find_reference_spec p rs" 0 rs "header_lines (view_of p)"] by auto
qed

text \<open>A file that can be read, as the streams of the C library present it.\<close>

definition regular_file :: "bytes \<Rightarrow> c_stream" where
  "regular_file p =
     \<lparr>seek_end_ok = True, tell_result = int (length p), seek_set_ok = True, fread_result = (\<lambda>n. take n p)\<rparr>"

lemma empty_not_decodable: "\<not> decodable p 0"
  using image_ok_window [of p 0] by (auto simp: decodable_def)

text \<open>Reading a file stores only into the allocated memory.\<close>

lemma read_file_outcome:
  assumes malloc: "\<And>n d. malloc n = Some d \<Longrightarrow> length d = n"
  obtains (failed) err where "read_file strerror fopen malloc path = Some (1, None, err)"
  | (read) buffer n where "read_file strerror fopen malloc path = Some (0, Some (buffer, n), [])" "n \<le> length buffer"
proof (cases "fopen path")
  case None
  then show ?thesis by (intro failed) (simp add: read_file_def)
next
  case (Some stream)
  let ?size = "tell_result stream"
  let ?got = "take (nat ?size) (fread_result stream (nat ?size))"
  show ?thesis
  proof (cases "\<not> seek_end_ok stream \<or> ?size < 0 \<or> \<not> seek_set_ok stream \<or> 65536 < nat ?size \<or>
      malloc (if ?size = 0 then 1 else nat ?size) = None")
    case True
    with Some have "\<exists>err. read_file strerror fopen malloc path = Some (1, None, err)"
      by (auto simp: read_file_def Let_def)
    then show ?thesis using failed by blast
  next
    case False
    then obtain data where data: "malloc (if ?size = 0 then 1 else nat ?size) = Some data" by auto
    have "length data = (if ?size = 0 then 1 else nat ?size)" by (rule malloc [OF data])
    with Some False data have "(\<exists>err. read_file strerror fopen malloc path = Some (1, None, err)) \<or>
        (\<exists>buffer n. read_file strerror fopen malloc path = Some (0, Some (buffer, n), []) \<and> n \<le> length buffer)"
      by (cases "?size \<noteq> 0 \<and> length ?got \<noteq> nat ?size")
         (auto simp: read_file_def Let_def c_mem overwrite_0_append)
    then show ?thesis using failed read by blast
  qed
qed

lemma read_regular_file:
  assumes "fopen path = Some (regular_file p)" "malloc (max 1 (length p)) = Some d"
    and "length d = max 1 (length p)"
  shows "read_file strerror fopen malloc path =
    Some (if 65536 < length p then (1, None, [''atarix-bibdump: '' @ path @ '' exceeds the BIB v1 diagnostic limit''])
     else (0, Some (if p = [] then d else p, length p), []))"
proof -
  have "(if length p = 0 then 1 else length p) = max 1 (length p)" by (cases p) auto
  with assms show ?thesis
    by (cases "p = []") (auto simp: read_file_def regular_file_def Let_def c_mem overwrite_0_append)
qed

text \<open>
  C25. The decoder is safe on any input and its exit code means what it should. Whatever the file system
  answers it returns without an access outside its buffer. Run on one readable file, with memory available,
  it exits with 1 exactly for a file above 64 KiB; otherwise with 0, printing nothing to
  \<open>stderr\<close>, exactly if the reader accepts the file and every reference type that occurs in it has a well-formed
  first reference; with 2 for every other file; and with 64 when it is not given one file.
\<close>

theorem bibdump_main_exact:
  assumes malloc: "\<And>n d. malloc n = Some d \<Longrightarrow> length d = n"
  shows "bibdump_main strerror fopen malloc argv \<noteq> None \<and>
    (length argv \<noteq> 2 \<longrightarrow> (\<exists>err. bibdump_main strerror fopen malloc argv = Some (64, [], err))) \<and>
    (fopen path = Some (regular_file p) \<and> malloc (max 1 (length p)) \<noteq> None \<longrightarrow>
      (\<exists>out err. bibdump_main strerror fopen malloc [prog, path] =
        Some (if 65536 < length p then 1 else if decodable p (length p) then 0 else 2, out, err) \<and>
        (decodable p (length p) \<and> length p \<le> 65536 \<longrightarrow> err = [])))"
proof (intro conjI impI)
  show "bibdump_main strerror fopen malloc argv \<noteq> None"
  proof (rule read_file_outcome [where malloc = malloc and strerror = strerror and fopen = fopen and path = "argv ! 1"])
    fix buffer n
    assume "read_file strerror fopen malloc (argv ! 1) = Some (0, Some (buffer, n), [])" "n \<le> length buffer"
    with dump_exit [of n buffer] show ?thesis by (auto simp: bibdump_main_def)
  qed (use malloc in \<open>auto simp: bibdump_main_def\<close>)
next
  assume regular: "fopen path = Some (regular_file p) \<and> malloc (max 1 (length p)) \<noteq> None"
  then obtain d where d: "malloc (max 1 (length p)) = Some d" by blast
  let ?b = "if p = [] then d else p"
  have same: "decodable ?b (length p) \<longleftrightarrow> decodable p (length p)"
    by (simp add: empty_not_decodable)
  have run: "bibdump_main strerror fopen malloc [prog, path] =
      (if 65536 < length p
       then Some (1, [], [''atarix-bibdump: '' @ path @ '' exceeds the BIB v1 diagnostic limit''])
       else dump_bib ?b (length p))"
    using regular read_regular_file [of fopen path p malloc d, OF _ d malloc [OF d]]
    by (simp add: bibdump_main_def)
  obtain out err where dump:
    "dump_bib ?b (length p) = Some (if decodable p (length p) then 0 else 2, out, err)"
    "decodable p (length p) \<longrightarrow> err = []"
    using dump_exit [of "length p" ?b] unfolding same by (cases "p = []") (force split: if_splits)+
  show "\<exists>out err. bibdump_main strerror fopen malloc [prog, path] =
      Some (if 65536 < length p then 1 else if decodable p (length p) then 0 else 2, out, err) \<and>
      (decodable p (length p) \<and> length p \<le> 65536 \<longrightarrow> err = [])"
    using dump by (auto simp: run)
qed (simp add: bibdump_main_def)

theorem bibdump_main_exact_witness:
  "\<exists>out err. bibdump_main [] (\<lambda>_. Some (regular_file (replicate 64 0))) (\<lambda>n. Some (replicate n 0))
     [''bibdump'', ''zeros''] = Some (2, out, err)"
proof -
  have "hd (take 8 (replicate 64 (0 :: u8))) \<noteq> hd ATARIX_BIB_MAGIC"
    by (simp add: ATARIX_BIB_MAGIC_def)
  then have "take 8 (replicate 64 (0 :: u8)) \<noteq> ATARIX_BIB_MAGIC" by metis
  then have "\<not> decodable (replicate 64 0) 64"
    by (simp add: decodable_def image_ok_def header_ok_def)
  then show ?thesis
    using bibdump_main_exact [of "\<lambda>n. Some (replicate n 0)" "[]" "\<lambda>_. Some (regular_file (replicate 64 0))" "[]"
        "''zeros''" "replicate 64 0" "''bibdump''"] by auto
qed

text \<open>
  C26. The decoder shows no payload but the fixed part of references. Two images the reader accepts, from
  any source, that agree in total length, flags, boot identifier, producer and counter, whose records agree in
  type, flags and payload length, and whose first record of every reference type agrees in
  the first 40 bytes of its payload, print exactly the same, with the same exit code. So nothing
  is printed of the payload of a boot argument, an identity or an experimental record, marked sensitive or
  not, and nothing of a reference's integrity data.
\<close>

theorem dump_redacts:
  assumes "image_ok p n rs" "n \<le> length p" "image_ok q m us" "m \<le> length q"
    and "same_ids p q" "list_all2 same_record rs us"
    and "\<And>type. is_reference_type type \<Longrightarrow> first_fixed p rs type = first_fixed q us type"
  shows "dump_bib p n = dump_bib q m"
proof -
  have "unat (u32_at p 52) = unat (u32_at q 52)"
    using assms(1,3) list_all2_lengthD [OF assms(6)] by (simp add: image_ok_def)
  then have "header_lines (view_of p) = header_lines (view_of q)"
    by (intro header_lines_same [OF assms(5)]) (simp add: word_unat_eq_iff)
  with dump_spec_same [OF assms(6), of "find_reference_spec p rs" "find_reference_spec q us"]
  show ?thesis
    using find_reference_same [OF assms(7)] by (simp add: dump_accepted [OF assms(1,2)] dump_accepted [OF assms(3,4)])
qed

text \<open>An image with a secret boot argument, and the same image with another one.\<close>

definition secret_tlvs :: "bytes \<Rightarrow> bib_tlv list" where
  "secret_tlvs secret =
     [\<lparr>tlv_type = 1, tlv_flags = 1, tlv_payload = reference_bytes 7 4096 512 1 0\<rparr>,
      \<lparr>tlv_type = 5, tlv_flags = 2, tlv_payload = secret\<rparr>,
      \<lparr>tlv_type = 2, tlv_flags = 1, tlv_payload = reference_bytes 8 8192 1024 1 0\<rparr>]"

lemma secret_readable: "length s = 4 \<Longrightarrow> readable (secret_tlvs s)" "length s = 4 \<Longrightarrow> bib_length (secret_tlvs s) = 200"
  by (simp_all add: readable_def secret_tlvs_def bib_length_def record_length_def align8_def readable_tlv_def
      atarix_bib_tlv_flags_are_known_def known_type_def reference_bytes_at)

lemma secret_views:
  "length s = 4 \<Longrightarrow> tlv_views 64 (secret_tlvs s) = tlv_views 64 (secret_tlvs [1, 2, 3, 4])"
  by (simp add: secret_tlvs_def tlv_view_def record_length_def)

lemma secret_image:
  assumes "length s = 4"
  shows "image_ok (bib_image example_ids (secret_tlvs s)) 200 (tlv_views 64 (secret_tlvs [1, 2, 3, 4]))"
  using bib_image_ok [OF secret_readable(1) [OF assms] example_flags, of 200 "[]"] secret_readable(2) [OF assms]
  by (simp add: secret_views [OF assms])

lemma secret_first:
  assumes "length s = 4" "is_reference_type type"
  shows "first_fixed (bib_image example_ids (secret_tlvs s)) (tlv_views 64 (secret_tlvs [1, 2, 3, 4])) type
    = (if type = 1 then Some (40, reference_bytes 7 4096 512 1 0)
       else if type = 2 then Some (40, reference_bytes 8 8192 1024 1 0) else None)"
proof -
  have small: "bib_length (secret_tlvs s) < 2 ^ 32" using secret_readable(2) [OF assms(1)] by simp
  note w = tlv_window(1) [OF _ small, of _ example_ids "[]", simplified]
  have w0: "take 40 (drop (rec_payload (tlv_views 64 (secret_tlvs s) ! 0)) (bib_image example_ids (secret_tlvs s)))
      = reference_bytes 7 4096 512 1 0"
    and w2: "take 40 (drop (rec_payload (tlv_views 64 (secret_tlvs s) ! 2)) (bib_image example_ids (secret_tlvs s)))
      = reference_bytes 8 8192 1024 1 0"
    using w [of 0] w [of 2] by (simp_all add: secret_tlvs_def tlv_view_def)
  show ?thesis
    using assms w0 w2 unfolding secret_views [OF assms(1), symmetric]
    by (auto simp: first_fixed_def is_reference_type_def secret_tlvs_def tlv_view_def)
qed

theorem dump_redacts_witness:
  "dump_bib (bib_image example_ids (secret_tlvs [1, 2, 3, 4])) 200
    = dump_bib (bib_image example_ids (secret_tlvs [9, 9, 9, 9])) 200"
proof (rule dump_redacts)
  show "image_ok (bib_image example_ids (secret_tlvs [1, 2, 3, 4])) 200 (tlv_views 64 (secret_tlvs [1, 2, 3, 4]))"
    "image_ok (bib_image example_ids (secret_tlvs [9, 9, 9, 9])) 200 (tlv_views 64 (secret_tlvs [1, 2, 3, 4]))"
    by (simp_all add: secret_image)
  show "same_ids (bib_image example_ids (secret_tlvs [1, 2, 3, 4])) (bib_image example_ids (secret_tlvs [9, 9, 9, 9]))"
    by (simp add: same_ids_def bib_image_def bib_header_at secret_readable)
qed (simp_all add: secret_readable secret_first list_all2_same same_record_def)

text \<open>An image with two audit log references.\<close>

definition two_audit_logs :: "bib_tlv list" where
  "two_audit_logs =
     [\<lparr>tlv_type = 1, tlv_flags = 1, tlv_payload = reference_bytes 7 4096 512 1 0\<rparr>,
      \<lparr>tlv_type = 2, tlv_flags = 1, tlv_payload = reference_bytes 8 8192 1024 1 0\<rparr>,
      \<lparr>tlv_type = 8, tlv_flags = 0, tlv_payload = reference_bytes 9 16384 64 1 0\<rparr>,
      \<lparr>tlv_type = 8, tlv_flags = 0, tlv_payload = reference_bytes 10 20480 128 1 0\<rparr>]"

lemma two_audit_logs_readable: "readable two_audit_logs" "bib_length two_audit_logs = 288"
  by (simp_all add: readable_def two_audit_logs_def bib_length_def record_length_def align8_def readable_tlv_def
      atarix_bib_tlv_flags_are_known_def known_type_def reference_bytes_at)

text \<open>
  C35. A repeated reference is not shown. On every accepted image that is decoded to the end, the output is
  the header lines and one block for each record; the block of a record of a reference type consists
  of its own type, flags and length and then the fields of the first record of that type: for a second
  record \<open>j\<close> of the type, the lines say object, address, length, format and integrity of record
  \<open>i\<close>, and nothing of its own payload is printed.
\<close>

theorem dump_repeats_first_reference:
  assumes "image_ok p n rs" "n \<le> length p" "decodable p n"
    and "i < j" "j < length rs" "rec_type (rs ! j) = rec_type (rs ! i)" "is_reference_type (rec_type (rs ! i))"
    and "\<forall>k < i. rec_type (rs ! k) \<noteq> rec_type (rs ! i)"
  shows "\<exists>ref. reference_of p (rs ! i) = Inr ref \<and>
    dump_bib p n = Some (0, header_lines (view_of p) @ concat (map (record_block p rs) [0..<length rs]), []) \<and>
    record_block p rs j = record_lines j (rs ! j) @
      [''record['' @ dec j @ ''].object-id: 0x'' @ hex_fixed 16 (unat (ref_object_id ref)),
       ''record['' @ dec j @ ''].address: 0x'' @ hex_fixed 16 (unat (ref_address ref)),
       ''record['' @ dec j @ ''].length: '' @ dec (unat (ref_length ref)),
       ''record['' @ dec j @ ''].format: '' @ dec (unat (ref_format_major ref)) @ ''.'' @
         dec (unat (ref_format_minor ref)),
       ''record['' @ dec j @ ''].integrity-kind: '' @ dec (unat (ref_integrity_kind ref)),
       ''record['' @ dec j @ ''].integrity-length: '' @ dec (unat (ref_integrity_length ref))]"
proof -
  have first: "find_reference_spec p rs (rec_type (rs ! i)) = reference_of p (rs ! i)"
    using assms(4,5,8) by (intro find_reference_first) simp_all
  have found: "list_all (\<lambda>r. is_reference_type (rec_type r) \<longrightarrow> \<not> isl (find_reference_spec p rs (rec_type r))) rs"
    using assms(1,3) image_ok_unique by (metis decodable_def)
  have "rs ! i \<in> set rs" using assms(4,5) by simp
  with found assms(7) have "\<not> isl (find_reference_spec p rs (rec_type (rs ! i)))"
    by (simp add: list_all_iff)
  then have "\<not> isl (reference_of p (rs ! i))" by (simp add: first)
  then obtain ref where ref: "reference_of p (rs ! i) = Inr ref" by (cases "reference_of p (rs ! i)") auto
  with first assms(6,7) show ?thesis
    using dump_accepted [OF assms(1,2)] dump_spec_blocks [OF found, where i = 0 and out = "header_lines (view_of p)"]
    by (auto simp: record_block_def reference_lines_def record_field_def)
qed

theorem dump_repeats_first_reference_witness:
  "\<exists>out. dump_bib (bib_image example_ids two_audit_logs) 288 = Some (0, out, []) \<and>
    ''record['' @ dec 3 @ ''].address: 0x'' @ hex_fixed 16 16384 \<in> set out"
proof -
  let ?p = "bib_image example_ids two_audit_logs" and ?rs = "tlv_views 64 two_audit_logs"
  have ok: "image_ok ?p 288 ?rs"
    using bib_image_ok [OF two_audit_logs_readable(1) example_flags, of 288 "[]"] two_audit_logs_readable(2) by simp
  have "list_all (\<lambda>t. is_reference_type (tlv_type t) \<longrightarrow>
      (\<exists>oid addr len major minor. tlv_payload t = reference_bytes oid addr len major minor)) two_audit_logs"
    by (simp add: two_audit_logs_def) blast
  from dump_plain [OF two_audit_logs_readable(1) example_flags this] dump_exit [of 288 ?p]
  have dec: "decodable ?p 288" by (auto simp: two_audit_logs_readable(2) split: if_splits)
  have types: "map rec_type ?rs = [1, 2, 8, 8]" by (simp add: two_audit_logs_def tlv_view_def)
  have len4: "length two_audit_logs = 4" by (simp add: two_audit_logs_def)
  then have len: "length ?rs = 4" by simp
  have at: "rec_type (?rs ! k) = [1, 2, 8, 8] ! k" if "k < 4" for k
    using that types len by (metis nth_map)
  have "reference_of ?p (?rs ! 2) = Inr \<lparr>ref_object_id = 9, ref_address = 16384, ref_length = 64,
      ref_format_major = 1, ref_format_minor = 0, ref_integrity_kind = 0,
      ref_integrity = rec_payload (?rs ! 2) + 40, ref_integrity_length = 0\<rparr>"
    using tlv_window(1) [of 2 two_audit_logs example_ids "[]"] tlv_window(2) [of 2 two_audit_logs]
      two_audit_logs_readable(2)
    by (intro reference_of_bytes) (simp_all add: two_audit_logs_def tlv_view_def)
  moreover have "\<exists>ref. reference_of ?p (?rs ! 2) = Inr ref \<and>
      dump_bib ?p 288 = Some (0, header_lines (view_of ?p) @ concat (map (record_block ?p ?rs) [0..<length ?rs]), []) \<and>
      record_block ?p ?rs 3 = record_lines 3 (?rs ! 3) @
      [''record['' @ dec 3 @ ''].object-id: 0x'' @ hex_fixed 16 (unat (ref_object_id ref)),
       ''record['' @ dec 3 @ ''].address: 0x'' @ hex_fixed 16 (unat (ref_address ref)),
       ''record['' @ dec 3 @ ''].length: '' @ dec (unat (ref_length ref)),
       ''record['' @ dec 3 @ ''].format: '' @ dec (unat (ref_format_major ref)) @ ''.'' @
         dec (unat (ref_format_minor ref)),
       ''record['' @ dec 3 @ ''].integrity-kind: '' @ dec (unat (ref_integrity_kind ref)),
       ''record['' @ dec 3 @ ''].integrity-length: '' @ dec (unat (ref_integrity_length ref))]"
  proof (rule dump_repeats_first_reference [OF ok _ dec])
    show "\<forall>k < 2. rec_type (?rs ! k) \<noteq> rec_type (?rs ! 2)"
      using at [of 0] at [of 1] at [of 2] by (auto dest!: less_2_cases)
  qed (simp_all add: at len4 two_audit_logs_readable is_reference_type_def)
  ultimately have "''record['' @ dec 3 @ ''].address: 0x'' @ hex_fixed 16 16384 \<in> set (record_block ?p ?rs 3)"
    and "dump_bib ?p 288 = Some (0, header_lines (view_of ?p) @ concat (map (record_block ?p ?rs) [0..<length ?rs]), [])"
    by auto
  moreover have "3 \<in> set [0..<length ?rs]" by (simp add: len4)
  ultimately show ?thesis by (intro exI [of _ "header_lines (view_of ?p) @ concat (map (record_block ?p ?rs) [0..<length ?rs])"]) auto
qed

end
