(* ===== verification/Spec2Isabelle.thy ===== *)
theory Spec2Isabelle
  imports Layout_Asserts Mkdiscovery Sim_Network Sim_Bib Bibdump
begin

text \<open>
  \<^bold>\<open>A verification library for ATARIX.\<close> ATARIX is a small platform layer in C: machines made of rings
  of privilege describe their hardware in a discovery image, hand over from firmware with a boot
  information block (BIB), talk through mailbox messages and authorise each other with
  capabilities. The C code is \<open>src/\<close> (the library), \<open>include/atarix/\<close> (formats and inline
  predicates) and two programs under \<open>tools/\<close>. This library translates all of it, function by function under the C
  names, and proves what the parts promise.

  \<^bold>\<open>How C is modelled\<close> (\<open>Atarix_Prelude\<close>, \<open>Le_Bytes\<close>, \<open>Packed_Struct\<close>).
  Fixed-width integers are words of that width, with C's wrap-around; \<open>size_t\<close> is a natural number,
  with \<open>size_sub\<close> where the code may subtract below zero; values of an enum that the code
  range-checks itself are integers, so that the invalid ones exist in the model. A buffer is the list
  of its bytes; every load and store is checked, and an access outside the buffer makes the function
  return \<open>None\<close>, so a theorem whose conclusion is \<open>Some\<close> proves memory safety as well. A pointer
  that may be \<open>NULL\<close> is an option; a pointer into an array is an index; shared nodes of the simulator live in a
  store. Functions return their status code and every object they may change. A struct the code
  treats as a value is a record; one it overlays on bytes is a layout, whose offsets and sizes
  \<open>offset_of\<close> and \<open>size_of\<close> compute. Loops are recursive functions with a termination proof: none
  uses fuel.

  \<^bold>\<open>The parts\<close>, bottom up.
  \<^item> \<open>Crc\<close>: the five bitwise CRC-32 loops of \<open>bib_builder.c\<close>, \<open>bib_reader.c\<close>, \<open>mailbox.c\<close>,
    \<open>discovery_validate.c\<close> and \<open>mkdiscovery.c\<close>, each as written, then as one reference. The locale
    \<open>reflected_crc\<close> proves that a change inside a window of up to four bytes is always seen.
  \<^item> \<open>Ring_Model\<close>: \<open>rings.h\<close>, \<open>ring.h\<close>, \<open>ring/ring.c\<close>. The locale \<open>ring_gate\<close> is what an admission rule
    between rings promises; the access decision and the mailbox authorisation are instances.
  \<^item> \<open>Registries\<close>: the identifier headers. \<open>Platform_Records\<close>: the layouts and predicates of
    \<open>identity_eeprom.h\<close>, \<open>directory.h\<close> and \<open>index.h\<close>. \<open>Memory_Descriptor\<close>: \<open>memory.h\<close>, \<open>memory.c\<close>.
  \<^item> \<open>Capability\<close>: \<open>capability.h\<close>, the evaluator and the policy engine. Allowed requests are
    characterised by predicates on the request, in which ring bounds are signed ring numbers, and the
    fields the policy ignores (the trust requirement among them) are named; delegation is shown to attenuate
    through the locale \<open>attenuation\<close>, and to escalate for every parent that starts above FABRIC; what the
    policy allows the evaluator does not deny, and where the evaluator is weaker.
  \<^item> \<open>Discovery_Format\<close>, \<open>Discovery_Database\<close>, \<open>Discovery_Validate\<close>, \<open>Discovery_Parser\<close>: an image
    is validated, walked and inserted into a database of four caller-supplied tables. The
    specification of a record area is the inductive \<open>record_chain\<close>; that of parsing is \<open>put_records\<close>,
    insertion of decoded records into four lists. The tables implement the locales
    \<open>handle_directory\<close> and \<open>handle_insertion\<close> of the prelude.
  \<^item> \<open>Mkdiscovery\<close>: the image tool. Its output is \<open>discovery_image\<close> of a list of entries, which the
    validator accepts. The parser reads back two of the four profiles; in the two others a resource and a
    service have the same handle, and it refuses them.
  \<^item> \<open>Mailbox\<close>: headers, the sequence window and the ring check of \<open>mailbox.c\<close>.
  \<^item> \<open>Sim_Fabric\<close>, \<open>Sim_Mailbox\<close>: the simulator's nodes, fabric and endpoints. The fabric is a second
    instance of \<open>handle_insertion\<close>, and of \<open>step_system\<close> for what holds after any sequence of calls.
    \<open>Sim_Network\<close> runs any number of nodes and endpoints on a network that loses, repeats, reorders and
    damages messages: a step relation over the two operations, with its invariant.
  \<^item> \<open>Bib_Format\<close>, \<open>Bib_Builder\<close>, \<open>Bib_Reader\<close>: the boot information block. The abstraction of a
    builder is the list of records it holds (\<open>building\<close>); the operations refine appending and sealing:
    \<open>append_spec\<close> gives the result of every call on that list, and the locale \<open>call_refinement\<close> carries it
    over sequences of calls, none of which leaves the buffer. The reader accepts exactly the images
    described by \<open>image_ok\<close>, and its other operations answer by the list of records such an image has.
  \<^item> \<open>Sim_Bib\<close>: the simulator's capture, built and read back. \<open>Bibdump\<close>: the decoder's output, line
    by line, what it depends on and what it withholds, and its \<open>main\<close> with the C library as a parameter.
  \<^item> \<open>Layout_Asserts\<close>: the \<open>_Static_assert\<close>s of all headers, as conditions on the layouts, and the BIB
    structs laid over an image the reader has accepted: they hold what the reader reports.

  \<^bold>\<open>What is shown.\<close> Safety on any input: validation, the reader, the decoder, the mailbox and the fabric
  never access memory outside what they were given. Exactness: the accepting inputs of every validator
  are characterised by a predicate that does not mention the code. Round trips: builder and reader,
  capture and reader, image tool and parser (where its handles are distinct), sender and receiver. Attenuation and flow: access,
  messages and delegation chains gain no privilege. Error detection: corruption of up to four
  consecutive bytes. Where the code breaks a promise the theorem says so: the parser reads outside
  an accepted image, large images are not checked, the tool's cpu-card and instrumentation images
  collide in a handle, delegation reaches FABRIC, the trust requirement is not read, revoked trust passes
  the evaluator, the sequence window stops at its last number, the decoder repeats the first reference.

  \<^bold>\<open>Bounds.\<close> They are the code's: 32-bit BIB lengths, 4096 bytes of mailbox payload, 256 fabric nodes,
  4096 bytes of tool output, 512 bytes of checksummed discovery image, \<open>2\<^sup>2\<^sup>0\<close> bytes per memory movement.

  \<^bold>\<open>Not modelled.\<close> The byte order of a big-endian host; the diagnostics that \<open>mkdiscovery.c\<close> prints;
  the text of \<open>strerror\<close> and what the C library answers, which are parameters; include guards and
  prototypes, which compute nothing. The hardware description under \<open>rtl/\<close>, the Python and shell tools and the
  tests are in other languages or only exercise the code.
\<close>

section \<open>The checksums of the components agree\<close>

text \<open>The check input of the CRC catalogues, \<open>123456789\<close> in ASCII, and its two checksums.\<close>

lemma crc_check_values:
  "crc_of mailbox_crc_bit [0x31, 0x32, 0x33, 0x34, 0x35, 0x36, 0x37, 0x38, 0x39] = 0xCBF43926"
  "crc_of crc32c_bit [0x31, 0x32, 0x33, 0x34, 0x35, 0x36, 0x37, 0x38, 0x39] = 0xE3069283"
  by (simp_all add: crc_of_def mailbox_crc_bit_def crc32c_bit_def funpow_8)

text \<open>
  C27. Sender and receiver of every format compute the same checksum, although each source file has its
  own loop: on any readable data the mailbox, the discovery validator and the image tool return the same
  CRC-32, and the reader's CRC-32C with the skipped field is the builder's over the image with
  that field zeroed. They are the standard ones: the catalogue input gives the catalogue values.
\<close>

theorem checksums_agree:
  assumes "n \<le> length data"
  shows "atarix_crc32_iso_hdlc data n = atarix_mailbox_crc32 (Some data) n \<and>
    crc32_iso_hdlc data n = atarix_mailbox_crc32 (Some data) n \<and>
    (unat len = n \<and> 24 \<le> n \<longrightarrow>
      crc32c_with_zeroed_field data len = crc32c (overwrite data 20 [0, 0, 0, 0]) n) \<and>
    (data = [0x31, 0x32, 0x33, 0x34, 0x35, 0x36, 0x37, 0x38, 0x39] \<and> n = 9 \<longrightarrow>
      atarix_mailbox_crc32 (Some data) n = Some 0xCBF43926 \<and> crc32c data n = Some 0xE3069283)"
proof (intro conjI impI)
  have eq: "replicate 4 0 = [0, 0, 0, 0 :: u8]" by (simp add: numeral_eq_Suc)
  show "crc32c_with_zeroed_field data len = crc32c (overwrite data 20 [0, 0, 0, 0]) n"
    if "unat len = n \<and> 24 \<le> n"
    using that assms zeroed_field_eq [of data]
    by (simp add: crc32c_with_zeroed_field_eq crc32c_eq eq)
qed (use assms crc_check_values in
    \<open>simp_all add: atarix_mailbox_crc32_eq atarix_crc32_iso_hdlc_eq crc32_iso_hdlc_eq crc32c_eq\<close>)

lemma checksums_agree_witness:
  "atarix_crc32_iso_hdlc [1, 2, 3] 3 = atarix_mailbox_crc32 (Some [1, 2, 3]) 3 \<and>
   crc32c_with_zeroed_field (replicate 40 7) 32
     = crc32c (overwrite (replicate 40 7) 20 [0, 0, 0, 0]) 32 \<and>
   atarix_mailbox_crc32 (Some ([0x31, 0x32, 0x33, 0x34, 0x35, 0x36, 0x37, 0x38, 0x39])) 9 = Some 0xCBF43926"
  using checksums_agree [of 3 "[1, 2, 3]"] checksums_agree [of 32 "replicate 40 7" 32]
    checksums_agree [of 9 "[0x31, 0x32, 0x33, 0x34, 0x35, 0x36, 0x37, 0x38, 0x39]"] by simp

end
